theory Spec2Isabelle
  imports Main
begin

section \<open>Processes, system calls and traces\<close>

text \<open>
  The sandbox builder is a sequential C program whose whole effect is the system calls it
  issues, the log entries and messages it writes, and the way it ends.  A run is modelled by
  explicit state passing.  The state holds the outside world (of an arbitrary type \<open>'w\<close>,
  read and changed only through the kernel interface below), the trace of everything the
  program has done so far, and the program's own global variables.

  A function of the program is a function from a state to an \<open>outcome\<close>: it returns to its
  caller (\<open>Return\<close>), ends the process with an exit code (\<open>Exit\<close>, every \<^verbatim>\<open>exit(n)\<close> and
  \<^verbatim>\<open>errExit\<close> of the source), dies on a failed \<^verbatim>\<open>assert\<close> (\<open>Abort\<close>), replaces the process
  image by the sandboxed application (\<open>Exec\<close>), or leaves what the C language defines by
  an access outside an array (\<open>Undefined\<close>; what the process does from there on is not
  modelled).  Failure of memory allocation (\<^verbatim>\<open>calloc\<close>, \<^verbatim>\<open>realloc\<close>, \<^verbatim>\<open>asprintf\<close>) is not
  modelled.
\<close>

datatype 's outcome = Return 's | Exit nat 's | Abort 's | Exec 's | Undefined 's

fun state_of :: "'s outcome \<Rightarrow> 's" where
  "state_of (Return s) = s"
| "state_of (Exit n s) = s"
| "state_of (Abort s) = s"
| "state_of (Exec s) = s"
| "state_of (Undefined s) = s"

fun returns :: "'s outcome \<Rightarrow> bool" where
  "returns (Return s) = True"
| "returns (Exit n s) = False"
| "returns (Abort s) = False"
| "returns (Exec s) = False"
| "returns (Undefined s) = False"

text \<open>Sequencing: the rest of a function runs only if the first part returned.\<close>

fun and_then :: "'s outcome \<Rightarrow> ('s \<Rightarrow> 's outcome) \<Rightarrow> 's outcome" where
  "and_then (Return s) f = f s"
| "and_then (Exit n s) f = Exit n s"
| "and_then (Abort s) f = Abort s"
| "and_then (Exec s) f = Exec s"
| "and_then (Undefined s) f = Undefined s"

datatype msflag =
  MS_BIND | MS_REC | MS_REMOUNT | MS_RDONLY | MS_NOEXEC | MS_NODEV | MS_NOSUID
  | MS_STRICTATIME | MS_MGC_VAL

text \<open>
  The system calls that change the world.  \<open>Mount source target fstype flags data\<close> is
  \<^verbatim>\<open>mount(2)\<close>, with \<open>None\<close> for a \<^verbatim>\<open>NULL\<close> argument and the flags in the order the source
  writes them.  File modes are numbers (\<^verbatim>\<open>0755\<close> is \<open>493\<close>).
\<close>

datatype syscall =
    Mount "string option" string "string option" "msflag list" "string option"
  | Mkdir string nat
  | Chmod string nat
  | Chown string nat nat
  | Fopen_w string
  | Fclose string
  | Chroot string
  | Chdir string
  | Setenv string string
  | Prctl_pdeathsig_sigkill
  | Nice int
  | Signal_sigterm
  | Waitpid int
  | Seteuid_root
  | Seteuid_user
  | Copy_file string string nat nat nat
  | Join_namespace int string
  | Fork

text \<open>
  Functions and macros of the repository that the two source files call but do not define.
  Each is an opaque step of the run: it changes the world and either returns or ends the
  process.  (\<^verbatim>\<open>copy_file\<close> and \<^verbatim>\<open>join_namespace\<close> return a status the caller tests; they
  stand among the system calls.  The output helpers \<^verbatim>\<open>fs_logger\<close>, \<^verbatim>\<open>fs_logger2\<close> and
  \<^verbatim>\<open>ctflush\<close> are events of the trace.)
\<close>

datatype extcall =
    ASSERT_PERMS string nat nat nat
  | SET_PERMS_STREAM string nat nat nat
  | EUID_ASSERT
  | Fs_dev_shm | Fs_var_lock | Fs_var_tmp | Fs_var_log | Fs_var_lib | Fs_var_cache
  | Fs_var_utmp | Restrict_users
  | Build_cmdline "string list" nat
  | Load_cpu string
  | Load_cgroup string
  | Set_cgroup string
  | Set_cpu_affinity
  | Caps_set nat
  | Protocol_filter_load string
  | Protocol_filter
  | Seccomp_set
  | Drop_privs bool
  | Start_application

datatype event =
    Sys syscall
  | Ext extcall
  | Logger string
  | Logger2 string string
  | Ctflush
  | Stdout string
  | Stderr string
  | Perror string

record stat =
  st_uid :: nat
  st_gid :: nat
  st_mode :: nat

text \<open>\<^verbatim>\<open>S_ISDIR(m)\<close> is \<^verbatim>\<open>(m & 0170000) == 0040000\<close>.\<close>

definition S_ISDIR :: "nat \<Rightarrow> bool" where
  "S_ISDIR m = ((m div 4096) mod 16 = 4)"

datatype realpath_result = Rp_ok string | Rp_eacces | Rp_other

datatype fnmatch_result = Fnm_match | Fnm_nomatch | Fnm_error

datatype LAST_DISABLE_OPERATION = UNSUCCESSFUL | SUCCESSFUL

datatype OPERATION =
  BLACKLIST_FILE | BLACKLIST_NOLOG | MOUNT_READONLY | MOUNT_TMPFS | MOUNT_NOEXEC | MOUNT_RDWR

text \<open>
  The kernel and C library as the program sees them.  Reads are functions of the world;
  \<open>k_sys\<close> performs a system call and tells whether it succeeded; \<open>k_ext\<close> runs one of the
  external steps and tells whether the process ended inside it (\<open>Some code\<close>).  The
  \<open>x_\<close> fields are the value-returning helpers of the repository that are not in the two
  source files.  \<open>k_uname\<close> gives the release and version strings, \<open>k_proc_status\<close> the
  lines of \<^verbatim>\<open>/proc/<pid>/status\<close>, \<open>k_uid_map\<close> the text of \<^verbatim>\<open>/proc/<pid>/uid_map\<close>;
  \<open>x_loaded_cpus\<close> and \<open>x_loaded_cgroup\<close> are what \<^verbatim>\<open>load_cpu\<close> and \<^verbatim>\<open>load_cgroup\<close>
  leave in \<^verbatim>\<open>cfg.cpus\<close> and \<^verbatim>\<open>cfg.cgroup\<close>, \<open>x_built_cmdline\<close> what \<^verbatim>\<open>build_cmdline\<close>
  leaves in \<^verbatim>\<open>cfg.command_line\<close> and \<^verbatim>\<open>cfg.window_title\<close>.  \<open>k_sscanf_d\<close> and
  \<open>k_sscanf_llx\<close> are the values that \<^verbatim>\<open>sscanf(ptr, "%d", &val)\<close> and
  \<^verbatim>\<open>sscanf(ptr, "%llx", &val)\<close> leave in \<^verbatim>\<open>val\<close> where the source does not test the
  return value (the variable is not initialised, so a failed conversion leaves any value).
  \<open>k_fork\<close> is the value \<^verbatim>\<open>fork\<close> returns in the process that is followed, and
  \<open>k_child_status\<close> the exit status of a child, as \<^verbatim>\<open>waitpid\<close> would store it through its
  status pointer.  \<open>x_sizeof_pointer\<close> is \<^verbatim>\<open>sizeof(char **)\<close> on the platform (8 on a 64-bit
  system).
\<close>

record 'w kernel =
  k_sys :: "syscall \<Rightarrow> 'w \<Rightarrow> bool \<times> 'w"
  k_ext :: "extcall \<Rightarrow> 'w \<Rightarrow> nat option \<times> 'w"
  k_stat :: "string \<Rightarrow> 'w \<Rightarrow> stat option"
  k_realpath :: "string \<Rightarrow> 'w \<Rightarrow> realpath_result"
  k_glob :: "string \<Rightarrow> 'w \<Rightarrow> string list option"
  k_fnmatch :: "string \<Rightarrow> string \<Rightarrow> fnmatch_result"
  k_getuid :: "'w \<Rightarrow> nat"
  k_getenv :: "string \<Rightarrow> 'w \<Rightarrow> string option"
  k_uname :: "'w \<Rightarrow> (string \<times> string) option"
  k_proc_status :: "int \<Rightarrow> 'w \<Rightarrow> string list option"
  k_uid_map :: "int \<Rightarrow> 'w \<Rightarrow> string option"
  k_sscanf_d :: "string \<Rightarrow> int"
  k_sscanf_llx :: "string \<Rightarrow> nat"
  k_fork :: "'w \<Rightarrow> int"
  k_child_status :: "int \<Rightarrow> 'w \<Rightarrow> nat"
  x_is_link :: "string \<Rightarrow> 'w \<Rightarrow> bool"
  x_is_dir :: "string \<Rightarrow> 'w \<Rightarrow> bool"
  x_gnu_basename :: "string \<Rightarrow> string"
  x_expand_home :: "string \<Rightarrow> string \<Rightarrow> string option"
  x_build_paths :: "'w \<Rightarrow> string list"
  x_split_comma :: "string \<Rightarrow> (string \<times> string) option"
  x_checkcfg_chroot_desktop :: "'w \<Rightarrow> bool"
  x_pid_proc_comm :: "int \<Rightarrow> 'w \<Rightarrow> string option"
  x_find_child :: "int \<Rightarrow> 'w \<Rightarrow> int option"
  x_pid_get_uid :: "int \<Rightarrow> 'w \<Rightarrow> nat"
  x_loaded_cpus :: "string \<Rightarrow> 'w \<Rightarrow> nat"
  x_loaded_cgroup :: "string \<Rightarrow> 'w \<Rightarrow> string option"
  x_guess_shell :: "'w \<Rightarrow> string option"
  x_built_cmdline :: "string list \<Rightarrow> nat \<Rightarrow> string \<times> string"
  x_sizeof_pointer :: nat

text \<open>The path macros of \<^verbatim>\<open>firejail.h\<close>, which is not among the source files.\<close>

record macros =
  RUN_FIREJAIL_BASEDIR :: string
  RUN_FIREJAIL_DIR :: string
  RUN_FIREJAIL_NETWORK_DIR :: string
  RUN_FIREJAIL_BANDWIDTH_DIR :: string
  RUN_FIREJAIL_NAME_DIR :: string
  RUN_FIREJAIL_X11_DIR :: string
  RUN_FIREJAIL_APPIMAGE_DIR :: string
  RUN_RO_DIR :: string
  RUN_RO_FILE :: string
  RUN_MNT_DIR :: string
  RUN_GROUPS_CFG :: string
  RUN_CPU_CFG :: string
  RUN_CGROUP_CFG :: string
  RUN_PROTOCOL_CFG :: string

text \<open>The command line flags and configuration that the modelled functions only read.
  The state below holds the global variables they write.\<close>

record config =
  paths :: macros
  arg_debug :: bool
  arg_debug_blacklists :: bool
  homedir :: "string option"
  arg_overlay_keep :: bool
  arg_overlay_reuse :: bool
  overlay_dir :: string
  arg_private_dev :: bool
  arg_join_network :: bool
  arg_join_filesystem :: bool
  cfg_protocol :: "string option"
  arg_nice :: bool
  cfg_nice :: int
  cfg_cwd :: "string option"

record 'w st =
  world :: 'w
  trace :: "event list"
  tmpfs_mounted :: bool
  last_disable :: LAST_DISABLE_OPERATION
  mask_x11_abstract_socket :: bool
  apply_caps :: bool
  caps :: nat
  apply_seccomp :: bool
  arg_nogroups :: bool
  arg_noroot :: bool
  cfg_cpus :: nat
  cfg_cgroup :: "string option"
  arg_doubledash :: bool
  cfg_command_line :: "string option"
  cfg_window_title :: "string option"
  cfg_shell :: "string option"

definition nl :: string where
  "nl = [CHR 0x0A]"

definition emit :: "event \<Rightarrow> 'w st \<Rightarrow> 'w st" where
  "emit e s = s\<lparr>trace := trace s @ [e]\<rparr>"

text \<open>\<^verbatim>\<open>if (arg_debug) printf(...)\<close>\<close>

definition dbg :: "config \<Rightarrow> string \<Rightarrow> 'w st \<Rightarrow> 'w st" where
  "dbg C msg s = (if arg_debug C then emit (Stdout msg) s else s)"

text \<open>A system call: recorded in the trace, its effect on the world taken from the kernel.\<close>

definition sys :: "'w kernel \<Rightarrow> syscall \<Rightarrow> 'w st \<Rightarrow> bool \<times> 'w st" where
  "sys K c s =
     (fst (k_sys K c (world s)),
      s\<lparr>world := snd (k_sys K c (world s)), trace := trace s @ [Sys c]\<rparr>)"

text \<open>
  Modelled from the spec: the macro \<^verbatim>\<open>errExit\<close> of \<^verbatim>\<open>firejail.h\<close> is not among the source
  files.  Mount and system call errors are fatal and a fatal failure exits with code 1; the
  message goes through \<^verbatim>\<open>perror\<close>.
\<close>

definition errExit :: "string \<Rightarrow> 'w st \<Rightarrow> 'w st outcome" where
  "errExit msg s = Exit 1 (emit (Perror msg) s)"

text \<open>\<^verbatim>\<open>if (syscall(...) < 0) errExit(msg);\<close>\<close>

definition sys_or_die :: "'w kernel \<Rightarrow> syscall \<Rightarrow> string \<Rightarrow> 'w st \<Rightarrow> 'w st outcome" where
  "sys_or_die K c msg s =
     (if fst (sys K c s) then Return (snd (sys K c s)) else errExit msg (snd (sys K c s)))"

definition ext :: "'w kernel \<Rightarrow> extcall \<Rightarrow> 'w st \<Rightarrow> 'w st outcome" where
  "ext K c s =
     (case fst (k_ext K c (world s)) of
        None \<Rightarrow> Return (s\<lparr>world := snd (k_ext K c (world s)), trace := trace s @ [Ext c]\<rparr>)
      | Some n \<Rightarrow> Exit n (s\<lparr>world := snd (k_ext K c (world s)), trace := trace s @ [Ext c]\<rparr>))"

text \<open>\<^verbatim>\<open>if (stat(path, &s)) { ... }\<close>: the body runs when the path cannot be stat'ed.\<close>

definition unless_stat ::
  "'w kernel \<Rightarrow> string \<Rightarrow> ('w st \<Rightarrow> 'w st outcome) \<Rightarrow> 'w st \<Rightarrow> 'w st outcome" where
  "unless_stat K path body s =
     (case k_stat K path (world s) of None \<Rightarrow> body s | Some x \<Rightarrow> Return s)"

section \<open>The staging directory\<close>

definition create_dir_as_root ::
  "'w kernel \<Rightarrow> config \<Rightarrow> string \<Rightarrow> nat \<Rightarrow> 'w st \<Rightarrow> 'w st outcome" where
  "create_dir_as_root K C dir mode s =
     and_then (sys_or_die K (Mkdir dir mode) ''mkdir''
                 (dbg C (''Creating '' @ dir @ '' directory'' @ nl) s)) (\<lambda>s.
     and_then (sys_or_die K (Chmod dir mode) ''chmod'' s) (\<lambda>s.
     ext K (ASSERT_PERMS dir 0 0 mode) s))"

text \<open>\<^verbatim>\<open>S_IRUSR | S_IXUSR\<close> is \<^verbatim>\<open>0500\<close>, \<^verbatim>\<open>S_IRUSR\<close> is \<^verbatim>\<open>0400\<close>.\<close>

definition create_empty_dir :: "'w kernel \<Rightarrow> config \<Rightarrow> 'w st \<Rightarrow> 'w st outcome" where
  "create_empty_dir K C =
     unless_stat K (RUN_RO_DIR (paths C)) (\<lambda>s.
       and_then (sys_or_die K (Mkdir (RUN_RO_DIR (paths C)) 320) ''mkdir'' s) (\<lambda>s.
       and_then (sys_or_die K (Chmod (RUN_RO_DIR (paths C)) 320) ''chmod'' s) (\<lambda>s.
       ext K (ASSERT_PERMS (RUN_RO_DIR (paths C)) 0 0 320) s)))"

definition create_empty_file :: "'w kernel \<Rightarrow> config \<Rightarrow> 'w st \<Rightarrow> 'w st outcome" where
  "create_empty_file K C =
     unless_stat K (RUN_RO_FILE (paths C)) (\<lambda>s.
       and_then (sys_or_die K (Fopen_w (RUN_RO_FILE (paths C))) ''fopen'' s) (\<lambda>s.
       and_then (ext K (SET_PERMS_STREAM (RUN_RO_FILE (paths C)) 0 0 256) s) (\<lambda>s.
       Return (snd (sys K (Fclose (RUN_RO_FILE (paths C))) s)))))"

text \<open>
  \<^verbatim>\<open>fs_build_firejail_dir\<close>: the second test differs from the others, an existing
  \<^verbatim>\<open>RUN_FIREJAIL_DIR\<close> that is not owned by root ends the run.
\<close>

definition check_firejail_dir :: "'w kernel \<Rightarrow> config \<Rightarrow> 'w st \<Rightarrow> 'w st outcome" where
  "check_firejail_dir K C s =
     (case k_stat K (RUN_FIREJAIL_DIR (paths C)) (world s) of
        Some x \<Rightarrow>
          if st_uid x \<noteq> 0 \<or> st_gid x \<noteq> 0
          then Exit 1 (emit (Stderr (''Error: non-root '' @ RUN_FIREJAIL_DIR (paths C)
                                      @ '' directory, exiting...'' @ nl)) s)
          else Return s
      | None \<Rightarrow> create_dir_as_root K C (RUN_FIREJAIL_DIR (paths C)) 493 s)"

definition fs_build_firejail_dir :: "'w kernel \<Rightarrow> config \<Rightarrow> 'w st \<Rightarrow> 'w st outcome" where
  "fs_build_firejail_dir K C s =
     and_then (unless_stat K (RUN_FIREJAIL_BASEDIR (paths C))
                 (create_dir_as_root K C (RUN_FIREJAIL_BASEDIR (paths C)) 493) s) (\<lambda>s.
     and_then (check_firejail_dir K C s) (\<lambda>s.
     and_then (unless_stat K (RUN_FIREJAIL_NETWORK_DIR (paths C))
                 (create_dir_as_root K C (RUN_FIREJAIL_NETWORK_DIR (paths C)) 493) s) (\<lambda>s.
     and_then (unless_stat K (RUN_FIREJAIL_BANDWIDTH_DIR (paths C))
                 (create_dir_as_root K C (RUN_FIREJAIL_BANDWIDTH_DIR (paths C)) 493) s) (\<lambda>s.
     and_then (unless_stat K (RUN_FIREJAIL_NAME_DIR (paths C))
                 (create_dir_as_root K C (RUN_FIREJAIL_NAME_DIR (paths C)) 493) s) (\<lambda>s.
     and_then (unless_stat K (RUN_FIREJAIL_X11_DIR (paths C))
                 (create_dir_as_root K C (RUN_FIREJAIL_X11_DIR (paths C)) 493) s) (\<lambda>s.
     and_then (unless_stat K (RUN_FIREJAIL_APPIMAGE_DIR (paths C))
                 (create_dir_as_root K C (RUN_FIREJAIL_APPIMAGE_DIR (paths C)) 493) s) (\<lambda>s.
     and_then (create_empty_dir K C s) (\<lambda>s.
     create_empty_file K C s))))))))"

text \<open>
  \<^verbatim>\<open>fs_build_mnt_dir\<close> and the static flag \<^verbatim>\<open>tmpfs_mounted\<close>; \<^verbatim>\<open>fs_build_remount_mnt_dir\<close>
  clears the flag first.
\<close>

definition mnt_tmpfs :: "config \<Rightarrow> syscall" where
  "mnt_tmpfs C =
     Mount (Some ''tmpfs'') (RUN_MNT_DIR (paths C)) (Some ''tmpfs'')
       [MS_NOSUID, MS_STRICTATIME, MS_REC] (Some ''mode=755,gid=0'')"

definition fs_build_mnt_dir :: "'w kernel \<Rightarrow> config \<Rightarrow> 'w st \<Rightarrow> 'w st outcome" where
  "fs_build_mnt_dir K C s =
     and_then (fs_build_firejail_dir K C s) (\<lambda>s.
     and_then (unless_stat K (RUN_MNT_DIR (paths C))
                 (create_dir_as_root K C (RUN_MNT_DIR (paths C)) 493) s) (\<lambda>s.
     if \<not> tmpfs_mounted s then
       and_then (sys_or_die K (mnt_tmpfs C) ''mounting /run/firejail/mnt''
                   (dbg C (''Mounting tmpfs on '' @ RUN_MNT_DIR (paths C) @ '' directory'' @ nl) s))
         (\<lambda>s. Return (emit (Logger2 ''tmpfs'' (RUN_MNT_DIR (paths C))) (s\<lparr>tmpfs_mounted := True\<rparr>)))
     else Return s))"

definition fs_build_remount_mnt_dir :: "'w kernel \<Rightarrow> config \<Rightarrow> 'w st \<Rightarrow> 'w st outcome" where
  "fs_build_remount_mnt_dir K C s = fs_build_mnt_dir K C (s\<lparr>tmpfs_mounted := False\<rparr>)"

section \<open>Mount primitives\<close>

definition self_bind :: "string \<Rightarrow> syscall" where
  "self_bind dir = Mount (Some dir) dir None [MS_BIND, MS_REC] None"

definition fs_rdonly :: "'w kernel \<Rightarrow> string \<Rightarrow> 'w st \<Rightarrow> 'w st outcome" where
  "fs_rdonly K dir s =
     (case k_stat K dir (world s) of
        None \<Rightarrow> Return s
      | Some x \<Rightarrow>
          and_then (sys_or_die K (self_bind dir) ''mount read-only'' s) (\<lambda>s.
          and_then (sys_or_die K (Mount None dir None [MS_BIND, MS_REMOUNT, MS_RDONLY, MS_REC] None)
                      ''mount read-only'' s) (\<lambda>s.
          Return (emit (Logger2 ''read-only'' dir) s))))"

definition fs_rdwr :: "'w kernel \<Rightarrow> string \<Rightarrow> 'w st \<Rightarrow> 'w st outcome" where
  "fs_rdwr K dir s =
     (case k_stat K dir (world s) of
        None \<Rightarrow> Return s
      | Some x \<Rightarrow>
          if k_getuid K (world s) \<noteq> 0 \<and> st_uid x \<noteq> k_getuid K (world s)
          then Return (emit (Stderr (''Warning: you are not allowed to change '' @ dir
                                      @ '' to read-write'' @ nl)) s)
          else
            and_then (sys_or_die K (self_bind dir) ''mount read-write'' s) (\<lambda>s.
            and_then (sys_or_die K (Mount None dir None [MS_BIND, MS_REMOUNT, MS_REC] None)
                        ''mount read-write'' s) (\<lambda>s.
            Return (emit (Logger2 ''read-write'' dir) s))))"

definition fs_noexec :: "'w kernel \<Rightarrow> string \<Rightarrow> 'w st \<Rightarrow> 'w st outcome" where
  "fs_noexec K dir s =
     (case k_stat K dir (world s) of
        None \<Rightarrow> Return s
      | Some x \<Rightarrow>
          and_then (sys_or_die K (self_bind dir) ''mount noexec'' s) (\<lambda>s.
          and_then (sys_or_die K
                      (Mount None dir None
                         [MS_BIND, MS_REMOUNT, MS_NOEXEC, MS_NODEV, MS_NOSUID, MS_REC] None)
                      ''mount read-only'' s) (\<lambda>s.
          Return (emit (Logger2 ''noexec'' dir) s))))"

section \<open>Denying one path: \<^verbatim>\<open>disable_file\<close>\<close>

text \<open>The bind mount of a donor over a target, as \<^verbatim>\<open>disable_file\<close> issues it.\<close>

definition donor_mount :: "string \<Rightarrow> string \<Rightarrow> syscall" where
  "donor_mount donor target =
     Mount (Some donor) target (Some ''none'') [MS_BIND] (Some ''mode=400,gid=0'')"

definition log_blacklist :: "OPERATION \<Rightarrow> string \<Rightarrow> 'w st \<Rightarrow> 'w st" where
  "log_blacklist op name s =
     (if op = BLACKLIST_FILE then emit (Logger2 ''blacklist'' name) s
      else emit (Logger2 ''blacklist-nolog'' name) s)"

text \<open>
  \<^verbatim>\<open>realpath\<close> failed with \<^verbatim>\<open>EACCES\<close>: the target is masked by force, first with the directory
  donor, then with the file donor.
\<close>

definition mark_if :: "bool \<Rightarrow> 'w st \<Rightarrow> 'w st" where
  "mark_if ok s = (if ok then s\<lparr>last_disable := SUCCESSFUL\<rparr> else s)"

definition force_mount ::
  "'w kernel \<Rightarrow> config \<Rightarrow> OPERATION \<Rightarrow> string \<Rightarrow> 'w st \<Rightarrow> 'w st outcome" where
  "force_mount K C op filename s0 =
     (let s1 = dbg C (''Debug: no access to file '' @ filename @ '', forcing mount'' @ nl) s0;
          r1 = sys K (donor_mount (RUN_RO_DIR (paths C)) filename) s1;
          s2 = (if fst r1 then mark_if True (snd r1)
                else mark_if (fst (sys K (donor_mount (RUN_RO_FILE (paths C)) filename) (snd r1)))
                       (snd (sys K (donor_mount (RUN_RO_FILE (paths C)) filename) (snd r1))))
      in if last_disable s2 = SUCCESSFUL
         then Return (log_blacklist op filename (dbg C (''Disable '' @ filename @ nl) s2))
         else Return (dbg C (''Warning (blacklisting): '' @ filename
                              @ '' is an invalid file, skipping...'' @ nl) s2))"

text \<open>The debugging output before a denial mount.\<close>

definition print_disable :: "config \<Rightarrow> OPERATION \<Rightarrow> string \<Rightarrow> 'w st \<Rightarrow> 'w st" where
  "print_disable C op fname s =
     (if arg_debug C then emit (Stdout (''Disable '' @ fname @ nl)) s
      else if arg_debug_blacklists C then
        emit (Stdout (if op = BLACKLIST_FILE then nl else '' - no logging'' @ nl))
          (emit (Stdout (''Disable '' @ fname)) s)
      else s)"

text \<open>
  The branch for \<^verbatim>\<open>BLACKLIST_FILE\<close> and \<^verbatim>\<open>BLACKLIST_NOLOG\<close>: \<open>fname\<close> is the canonical path,
  \<open>x\<close> its \<^verbatim>\<open>stat\<close> snapshot, \<open>filename\<close> the path as the caller gave it.
\<close>

definition bin_link_exempt :: "'w kernel \<Rightarrow> string \<Rightarrow> string \<Rightarrow> stat \<Rightarrow> 'w st \<Rightarrow> bool" where
  "bin_link_exempt K filename fname x s =
     ((fname = ''/bin'' \<or> fname = ''/usr/bin'') \<and> x_is_link K filename (world s)
      \<and> S_ISDIR (st_mode x))"

definition donor_for :: "config \<Rightarrow> stat \<Rightarrow> string" where
  "donor_for C x = (if S_ISDIR (st_mode x) then RUN_RO_DIR (paths C) else RUN_RO_FILE (paths C))"

definition blacklist_mount ::
  "'w kernel \<Rightarrow> config \<Rightarrow> OPERATION \<Rightarrow> string \<Rightarrow> string \<Rightarrow> stat \<Rightarrow> 'w st \<Rightarrow> 'w st outcome" where
  "blacklist_mount K C op filename fname x s =
     (if bin_link_exempt K filename fname x s
      then Return (emit (Stderr (''Warning: '' @ filename
                                  @ '' directory link was not blacklisted'' @ nl)) s)
      else
        and_then
          (if S_ISDIR (st_mode x)
           then sys_or_die K (donor_mount (RUN_RO_DIR (paths C)) fname) ''disable file''
                  (print_disable C op fname s)
           else sys_or_die K (donor_mount (RUN_RO_FILE (paths C)) fname) ''disable file''
                  (print_disable C op fname s))
          (\<lambda>s. Return (log_blacklist op fname (s\<lparr>last_disable := SUCCESSFUL\<rparr>))))"

definition tmpfs_mount ::
  "'w kernel \<Rightarrow> config \<Rightarrow> string \<Rightarrow> stat \<Rightarrow> 'w st \<Rightarrow> 'w st outcome" where
  "tmpfs_mount K C fname x s =
     (if S_ISDIR (st_mode x) then
        and_then (sys_or_die K
                    (Mount (Some ''tmpfs'') fname (Some ''tmpfs'')
                       [MS_NOSUID, MS_NODEV, MS_STRICTATIME, MS_REC] None)
                    ''mounting tmpfs'' (dbg C (''Mounting tmpfs on '' @ fname @ nl) s)) (\<lambda>s.
        and_then (sys_or_die K (Chown fname (st_uid x) (st_gid x)) ''mounting tmpfs chmod'' s) (\<lambda>s.
        Return (emit (Logger2 ''tmpfs'' fname) (s\<lparr>last_disable := SUCCESSFUL\<rparr>))))
      else Return (emit (Stdout (''Warning: '' @ fname
                     @ '' is not a directory; cannot mount a tmpfs on top of it.'' @ nl)) s))"

text \<open>What \<^verbatim>\<open>disable_file\<close> does once the path is resolved and its \<^verbatim>\<open>stat\<close> snapshot taken.\<close>

fun modify_file ::
  "'w kernel \<Rightarrow> config \<Rightarrow> OPERATION \<Rightarrow> string \<Rightarrow> string \<Rightarrow> stat \<Rightarrow> 'w st \<Rightarrow> 'w st outcome" where
  "modify_file K C BLACKLIST_FILE filename fname x s =
     blacklist_mount K C BLACKLIST_FILE filename fname x s"
| "modify_file K C BLACKLIST_NOLOG filename fname x s =
     blacklist_mount K C BLACKLIST_NOLOG filename fname x s"
| "modify_file K C MOUNT_READONLY filename fname x s =
     fs_rdonly K fname (dbg C (''Mounting read-only '' @ fname @ nl) s)"
| "modify_file K C MOUNT_RDWR filename fname x s =
     fs_rdwr K fname (dbg C (''Mounting read-only '' @ fname @ nl) s)"
| "modify_file K C MOUNT_NOEXEC filename fname x s =
     fs_noexec K fname (dbg C (''Mounting noexec '' @ fname @ nl) s)"
| "modify_file K C MOUNT_TMPFS filename fname x s = tmpfs_mount K C fname x s"

definition resolve_and_modify ::
  "'w kernel \<Rightarrow> config \<Rightarrow> OPERATION \<Rightarrow> string \<Rightarrow> 'w st \<Rightarrow> 'w st outcome" where
  "resolve_and_modify K C op filename s =
     (case k_realpath K filename (world s) of
        Rp_other \<Rightarrow> Return s
      | Rp_eacces \<Rightarrow> force_mount K C op filename s
      | Rp_ok fname \<Rightarrow>
          (case k_stat K fname (world s) of
             None \<Rightarrow> Return (dbg C (''Warning: '' @ fname @ '' does not exist, skipping...'' @ nl) s)
           | Some x \<Rightarrow> modify_file K C op filename fname x s))"

definition disable_file ::
  "'w kernel \<Rightarrow> config \<Rightarrow> OPERATION \<Rightarrow> string \<Rightarrow> 'w st \<Rightarrow> 'w st outcome" where
  "disable_file K C op filename s =
     and_then (fs_build_firejail_dir K C (s\<lparr>last_disable := UNSUCCESSFUL\<rparr>))
       (resolve_and_modify K C op filename)"

section \<open>Glob expansion with exceptions: \<^verbatim>\<open>globbing\<close>\<close>

text \<open>
  \<^verbatim>\<open>globbing\<close> and \<^verbatim>\<open>fs_blacklist\<close> reach the mount code only through calls of
  \<^verbatim>\<open>disable_file(op, path)\<close>.  The loops below are written over that step, named \<open>deny\<close>;
  \<open>fs_blacklist\<close> at the end of the next section instantiates it with \<open>disable_file\<close>, the
  only step the program ever uses.
\<close>

type_synonym 'w denial = "OPERATION \<Rightarrow> string \<Rightarrow> 'w st \<Rightarrow> 'w st outcome"

text \<open>
  The inner loop of \<^verbatim>\<open>globbing\<close> compares one expansion with the exception patterns in
  order; it stops at the first pattern that matches or that \<^verbatim>\<open>fnmatch\<close> rejects.
\<close>

datatype scan_result = Okay_to_blacklist | Excepted | Compare_failed string

fun exception_scan :: "'w kernel \<Rightarrow> string list \<Rightarrow> string \<Rightarrow> scan_result" where
  "exception_scan K [] path = Okay_to_blacklist"
| "exception_scan K (p # ps) path =
     (case k_fnmatch K p path of
        Fnm_nomatch \<Rightarrow> exception_scan K ps path
      | Fnm_match \<Rightarrow> Excepted
      | Fnm_error \<Rightarrow> Compare_failed p)"

fun glob_loop ::
  "'w kernel \<Rightarrow> config \<Rightarrow> 'w denial \<Rightarrow> OPERATION \<Rightarrow> string list \<Rightarrow> string list
   \<Rightarrow> 'w st \<Rightarrow> 'w st outcome" where
  "glob_loop K C deny op noblacklist [] s = Return s"
| "glob_loop K C deny op noblacklist (path # rest) s =
     (if x_gnu_basename K path = ''.'' \<or> x_gnu_basename K path = ''..''
      then glob_loop K C deny op noblacklist rest s
      else
        (case exception_scan K noblacklist path of
           Compare_failed p \<Rightarrow>
             Exit 1 (emit (Stderr (''Error: failed to compare path '' @ path @ '' with pattern ''
                                    @ p @ nl)) s)
         | Okay_to_blacklist \<Rightarrow>
             and_then (deny op path s) (\<lambda>s'. glob_loop K C deny op noblacklist rest s')
         | Excepted \<Rightarrow>
             glob_loop K C deny op noblacklist rest (dbg C (''Not blacklist '' @ path @ nl) s)))"

text \<open>
  \<open>k_glob\<close> is \<^verbatim>\<open>glob(pattern, GLOB_NOCHECK | GLOB_NOSORT | GLOB_PERIOD, NULL, &globbuf)\<close>:
  \<open>None\<close> when it reports an error, else the expansions in the order it gives them.
\<close>

definition globbing ::
  "'w kernel \<Rightarrow> config \<Rightarrow> 'w denial \<Rightarrow> OPERATION \<Rightarrow> string \<Rightarrow> string list
   \<Rightarrow> 'w st \<Rightarrow> 'w st outcome" where
  "globbing K C deny op pattern noblacklist s =
     (case k_glob K pattern (world s) of
        None \<Rightarrow> Exit 1 (emit (Stderr (''Error: failed to glob pattern '' @ pattern @ nl)) s)
      | Some pathv \<Rightarrow> glob_loop K C deny op noblacklist pathv s)"

section \<open>The directive interpreter: \<^verbatim>\<open>fs_blacklist\<close>\<close>

text \<open>
  \<^verbatim>\<open>strncmp(a, b, n) == 0\<close> on strings without a NUL inside: the first \<open>n\<close> characters
  agree (or the strings are equal and shorter).
\<close>

definition strncmp_eq :: "string \<Rightarrow> string \<Rightarrow> nat \<Rightarrow> bool" where
  "strncmp_eq a b n = (take n a = take n b)"

text \<open>The \<^verbatim>\<open>bind\<close> command; \<open>arg\<close> is the text after \<^verbatim>\<open>"bind "\<close>.\<close>

definition bind_command :: "'w kernel \<Rightarrow> config \<Rightarrow> string \<Rightarrow> 'w st \<Rightarrow> 'w st outcome" where
  "bind_command K C arg s =
     (case x_split_comma K arg of
        None \<Rightarrow> Return (emit (Stderr (''Error: second directory missing in bind command'' @ nl)) s)
      | Some (dname1, dname2) \<Rightarrow>
          (case k_stat K dname1 (world s) of
             None \<Rightarrow> Return (emit (Stderr (''Error: cannot find '' @ dname1
                                         @ '' for bind command'' @ nl)) s)
           | Some x1 \<Rightarrow>
               (case k_stat K dname2 (world s) of
                  None \<Rightarrow> Return (emit (Stderr (''Error: cannot find '' @ dname2
                                              @ '' for bind command'' @ nl)) s)
                | Some x \<Rightarrow>
                    and_then (sys_or_die K (Mount (Some dname1) dname2 None [MS_BIND, MS_REC] None)
                                ''mount bind''
                                (dbg C (''Mount-bind '' @ dname1 @ '' on top of '' @ dname2 @ nl) s))
                      (\<lambda>s.
                    and_then (sys_or_die K (Chown dname2 (st_uid x) (st_gid x))
                                ''mount-bind chown'' s) (\<lambda>s.
                    sys_or_die K (Chmod dname2 (st_mode x)) ''mount-bind chmod'' s)))))"

text \<open>
  The names a \<^verbatim>\<open>noblacklist\<close> line appends to the exception list (lines 446 to 465).  The
  source collects them in \<^verbatim>\<open>char *enames[sizeof(paths)+1] = {0}\<close>, where \<^verbatim>\<open>paths\<close> is a
  pointer: an array of \<open>x_sizeof_pointer + 1\<close> null pointers.  For \<^verbatim>\<open>${PATH}\<close> it stores one
  name per directory of \<^verbatim>\<open>build_paths\<close> without any test of the index, and the loop that
  copies the names reads the array up to its first null pointer.  With at most
  \<^verbatim>\<open>sizeof(paths)\<close> directories a null pointer is left after the names; with more, the array
  is read or written past its end and the behaviour is undefined: the result is \<open>None\<close>.
  The other branch stores one name and a null pointer, which the array always holds.
\<close>

definition noblacklist_names ::
  "'w kernel \<Rightarrow> string \<Rightarrow> string \<Rightarrow> 'w \<Rightarrow> string list option" where
  "noblacklist_names K home entry w =
     (if strncmp_eq (drop 12 entry) ''${PATH}'' 7
      then (if length (x_build_paths K w) \<le> x_sizeof_pointer K
            then Some (map (\<lambda>dir. dir @ drop 19 entry) (x_build_paths K w))
            else None)
      else Some (case x_expand_home K (drop 12 entry) home of None \<Rightarrow> [] | Some name \<Rightarrow> [name]))"

text \<open>The \<^verbatim>\<open>if\<close> chain that recognises an operation and the start of its argument.\<close>

definition parse_operation :: "string \<Rightarrow> (OPERATION \<times> string) option" where
  "parse_operation entry =
     (if strncmp_eq entry ''blacklist '' 10 then Some (BLACKLIST_FILE, drop 10 entry)
      else if strncmp_eq entry ''blacklist-nolog '' 16 then Some (BLACKLIST_NOLOG, drop 16 entry)
      else if strncmp_eq entry ''read-only '' 10 then Some (MOUNT_READONLY, drop 10 entry)
      else if strncmp_eq entry ''read-write '' 11 then Some (MOUNT_RDWR, drop 11 entry)
      else if strncmp_eq entry ''noexec '' 7 then Some (MOUNT_NOEXEC, drop 7 entry)
      else if strncmp_eq entry ''tmpfs '' 6 then Some (MOUNT_TMPFS, drop 6 entry)
      else None)"

fun glob_each ::
  "'w kernel \<Rightarrow> config \<Rightarrow> 'w denial \<Rightarrow> OPERATION \<Rightarrow> string list \<Rightarrow> string list
   \<Rightarrow> 'w st \<Rightarrow> 'w st outcome" where
  "glob_each K C deny op noblacklist [] s = Return s"
| "glob_each K C deny op noblacklist (pattern # others) s =
     and_then (globbing K C deny op pattern noblacklist s)
       (\<lambda>s'. glob_each K C deny op noblacklist others s')"

text \<open>Macro expansion of the argument, then globbing (lines 515 to 539).\<close>

definition apply_operation ::
  "'w kernel \<Rightarrow> config \<Rightarrow> 'w denial \<Rightarrow> string \<Rightarrow> OPERATION \<Rightarrow> string \<Rightarrow> string list
   \<Rightarrow> 'w st \<Rightarrow> 'w st outcome"
  where
  "apply_operation K C deny home op arg noblacklist s =
     (case x_expand_home K arg home of
        None \<Rightarrow> Return s
      | Some name \<Rightarrow>
          if strncmp_eq name ''${PATH}'' 7
          then glob_each K C deny op noblacklist
                 (map (\<lambda>dir. dir @ drop 7 name) (x_build_paths K (world s))) s
          else globbing K C deny op name noblacklist s)"

definition ignored_line :: "string \<Rightarrow> bool" where
  "ignored_line entry =
     (strncmp_eq entry ''whitelist '' 10 \<or> entry = []
      \<or> strncmp_eq entry ''args-path '' 10
      \<or> strncmp_eq entry ''args-whitelist '' 15
      \<or> strncmp_eq entry ''args-read-only '' 15
      \<or> strncmp_eq entry ''args-noexec '' 11)"

text \<open>
  The \<^verbatim>\<open>while (entry)\<close> loop over the profile; \<open>noblacklist\<close> is the exception list built
  so far.
\<close>

fun profile_loop ::
  "'w kernel \<Rightarrow> config \<Rightarrow> 'w denial \<Rightarrow> string \<Rightarrow> string list \<Rightarrow> string list
   \<Rightarrow> 'w st \<Rightarrow> 'w st outcome" where
  "profile_loop K C deny home noblacklist [] s = Return s"
| "profile_loop K C deny home noblacklist (entry # next) s =
     (if ignored_line entry then profile_loop K C deny home noblacklist next s
      else if strncmp_eq entry ''bind '' 5 then
        and_then (bind_command K C (drop 5 entry) s)
          (\<lambda>s'. profile_loop K C deny home noblacklist next s')
      else if strncmp_eq entry ''noblacklist '' 12 then
        (case noblacklist_names K home entry (world s) of
           None \<Rightarrow> Undefined s
         | Some names \<Rightarrow> profile_loop K C deny home (noblacklist @ names) next s)
      else
        (case parse_operation entry of
           None \<Rightarrow>
             profile_loop K C deny home noblacklist next
               (emit (Stderr (''Error: invalid profile line '' @ entry @ nl)) s)
         | Some (op, arg) \<Rightarrow>
             and_then (apply_operation K C deny home op arg noblacklist s)
               (\<lambda>s'. profile_loop K C deny home noblacklist next s')))"

text \<open>\<^verbatim>\<open>cfg.profile\<close> is the list of directive lines; \<^verbatim>\<open>assert(homedir)\<close> comes first.\<close>

definition fs_blacklist :: "'w kernel \<Rightarrow> config \<Rightarrow> string list \<Rightarrow> 'w st \<Rightarrow> 'w st outcome" where
  "fs_blacklist K C profile s =
     (case homedir C of
        None \<Rightarrow> Abort s
      | Some home \<Rightarrow> profile_loop K C (disable_file K C) home [] profile s)"

section \<open>After a chroot: shared directories and the configuration denial\<close>

text \<open>\<^verbatim>\<open>if (stat(path, &s) == 0) body\<close>\<close>

definition when_stat ::
  "'w kernel \<Rightarrow> string \<Rightarrow> ('w st \<Rightarrow> 'w st outcome) \<Rightarrow> 'w st \<Rightarrow> 'w st outcome" where
  "when_stat K path body s =
     (case k_stat K path (world s) of None \<Rightarrow> Return s | Some x \<Rightarrow> body s)"

text \<open>
  \<^verbatim>\<open>disable_config\<close>.  The name of the user's configuration directory is built with
  \<^verbatim>\<open>"%s/.config/firejail"\<close> from \<^verbatim>\<open>cfg.homedir\<close>; for a \<^verbatim>\<open>NULL\<close> home directory the C
  library prints \<^verbatim>\<open>(null)\<close>.
\<close>

definition homedir_text :: "config \<Rightarrow> string" where
  "homedir_text C = (case homedir C of None \<Rightarrow> ''(null)'' | Some h \<Rightarrow> h)"

definition disable_config :: "'w kernel \<Rightarrow> config \<Rightarrow> 'w st \<Rightarrow> 'w st outcome" where
  "disable_config K C s =
     and_then (when_stat K (homedir_text C @ ''/.config/firejail'')
                 (disable_file K C BLACKLIST_FILE (homedir_text C @ ''/.config/firejail'')) s) (\<lambda>s.
     and_then (when_stat K (RUN_FIREJAIL_NETWORK_DIR (paths C))
                 (disable_file K C BLACKLIST_FILE (RUN_FIREJAIL_NETWORK_DIR (paths C))) s) (\<lambda>s.
     and_then (when_stat K (RUN_FIREJAIL_BANDWIDTH_DIR (paths C))
                 (disable_file K C BLACKLIST_FILE (RUN_FIREJAIL_BANDWIDTH_DIR (paths C))) s) (\<lambda>s.
     and_then (when_stat K (RUN_FIREJAIL_NAME_DIR (paths C))
                 (disable_file K C BLACKLIST_FILE (RUN_FIREJAIL_NAME_DIR (paths C))) s) (\<lambda>s.
     when_stat K (RUN_FIREJAIL_X11_DIR (paths C))
       (disable_file K C BLACKLIST_FILE (RUN_FIREJAIL_X11_DIR (paths C))) s))))"

text \<open>
  The block that both \<^verbatim>\<open>fs_overlayfs\<close> (lines 1072 to 1089) and \<^verbatim>\<open>fs_chroot\<close> (lines 1244
  to 1261) run after their chroot.
\<close>

definition update_var_and_users :: "'w kernel \<Rightarrow> config \<Rightarrow> 'w st \<Rightarrow> 'w st outcome" where
  "update_var_and_users K C s =
     and_then (if \<not> arg_private_dev C then ext K Fs_dev_shm s else Return s) (\<lambda>s.
     and_then (ext K Fs_var_lock s) (\<lambda>s.
     and_then (ext K Fs_var_tmp s) (\<lambda>s.
     and_then (ext K Fs_var_log s) (\<lambda>s.
     and_then (ext K Fs_var_lib s) (\<lambda>s.
     and_then (ext K Fs_var_cache s) (\<lambda>s.
     and_then (ext K Fs_var_utmp s) (\<lambda>s.
     and_then (ext K Restrict_users s) (\<lambda>s.
     if k_getuid K (world s) \<noteq> 0 then disable_config K C s else Return s))))))))"

section \<open>The overlay composer: \<^verbatim>\<open>fs_overlayfs\<close>\<close>

text \<open>
  \<^verbatim>\<open>sscanf(u.release, "%d.%d", &major, &minor)\<close>.  A \<^verbatim>\<open>%d\<close> conversion skips white space,
  reads an optional sign and then decimal digits, at least one; the dot must follow the
  first number.  The result is \<open>Some\<close> exactly when \<^verbatim>\<open>sscanf\<close> returns 2.  The number is
  stored in a C \<^verbatim>\<open>int\<close>: the GNU C library converts the sign and digits as \<^verbatim>\<open>strtol\<close> does,
  which saturates at the range of \<^verbatim>\<open>long\<close> (64 bits), and the assignment to the \<^verbatim>\<open>int\<close>
  keeps the low 32 bits in two's complement.
\<close>

definition is_space :: "char \<Rightarrow> bool" where
  "is_space c = (c \<in> set [CHR '' '', CHR 0x09, CHR 0x0A, CHR 0x0B, CHR 0x0C, CHR 0x0D])"

definition is_digit :: "char \<Rightarrow> bool" where
  "is_digit c = (c \<in> set ''0123456789'')"

definition digit_val :: "char \<Rightarrow> int" where
  "digit_val c = int (of_char c) - 48"

definition decimal :: "string \<Rightarrow> int" where
  "decimal ds = foldl (\<lambda>a c. 10 * a + digit_val c) 0 ds"

definition scan_unsigned :: "string \<Rightarrow> (int \<times> string) option" where
  "scan_unsigned cs =
     (if takeWhile is_digit cs = [] then None
      else Some (decimal (takeWhile is_digit cs), dropWhile is_digit cs))"

fun scan_signed :: "string \<Rightarrow> (int \<times> string) option" where
  "scan_signed [] = None"
| "scan_signed (c # cs) =
     (if c = CHR ''-'' then map_option (\<lambda>(v, r). (- v, r)) (scan_unsigned cs)
      else if c = CHR ''+'' then scan_unsigned cs
      else scan_unsigned (c # cs))"

definition strtol_range :: "int \<Rightarrow> int" where
  "strtol_range v = max (- (2 ^ 63)) (min (2 ^ 63 - 1) v)"

definition to_c_int :: "int \<Rightarrow> int" where
  "to_c_int v = (v + 2 ^ 31) mod 2 ^ 32 - 2 ^ 31"

definition scan_d :: "string \<Rightarrow> (int \<times> string) option" where
  "scan_d cs =
     map_option (\<lambda>(v, r). (to_c_int (strtol_range v), r)) (scan_signed (dropWhile is_space cs))"

definition scan_version :: "string \<Rightarrow> (int \<times> int) option" where
  "scan_version release =
     (case scan_d release of
        None \<Rightarrow> None
      | Some (major, r) \<Rightarrow>
          (case r of
             [] \<Rightarrow> None
           | c # r' \<Rightarrow>
               if c = CHR ''.'' then map_option (\<lambda>(minor, r''). (major, minor)) (scan_d r')
               else None))"

text \<open>
  Decimal output of \<^verbatim>\<open>printf("%d")\<close>, needed for the messages and paths that carry a
  number.
\<close>

function string_of_nat :: "nat \<Rightarrow> string" where
  "string_of_nat n =
     (if n < 10 then [char_of (48 + n)]
      else string_of_nat (n div 10) @ [char_of (48 + n mod 10)])"
  by pat_completeness auto
termination
  by (relation "measure id") auto

definition string_of_int :: "int \<Rightarrow> string" where
  "string_of_int i = (if i < 0 then CHR ''-'' # string_of_nat (nat (- i)) else string_of_nat (nat i))"

text \<open>
  A directory of the overlay layout: created if missing (with the mode the source passes to
  \<^verbatim>\<open>mkdir\<close>), then given to root with mode \<^verbatim>\<open>0755\<close>.
\<close>

definition layer_dir :: "'w kernel \<Rightarrow> string \<Rightarrow> nat \<Rightarrow> 'w st \<Rightarrow> 'w st outcome" where
  "layer_dir K dir mkmode s =
     and_then (unless_stat K dir (sys_or_die K (Mkdir dir mkmode) ''mkdir'') s) (\<lambda>s.
     and_then (sys_or_die K (Chown dir 0 0) ''chown'' s) (\<lambda>s.
     sys_or_die K (Chmod dir 493) ''chmod'' s))"

definition overlay_oroot :: "config \<Rightarrow> string" where
  "overlay_oroot C = RUN_MNT_DIR (paths C) @ ''/oroot''"

definition overlay_basedir :: "config \<Rightarrow> string" where
  "overlay_basedir C = (if arg_overlay_keep C then overlay_dir C else RUN_MNT_DIR (paths C))"

text \<open>Lines 894 to 911: the persistent base directory of a kept overlay.\<close>

definition overlay_keep_dir :: "'w kernel \<Rightarrow> config \<Rightarrow> 'w st \<Rightarrow> 'w st outcome" where
  "overlay_keep_dir K C s =
     (if arg_overlay_keep C then
        (case k_stat K (overlay_dir C) (world s) of
           Some x \<Rightarrow>
             if \<not> arg_overlay_reuse C
             then Exit 1 (emit (Stderr (''Error: overlay directory exists, but reuse is not allowed''
                                        @ nl)) s)
             else Return s
         | None \<Rightarrow>
             if fst (sys K (Mkdir (overlay_dir C) 493) s) then Return (snd (sys K (Mkdir (overlay_dir C) 493) s))
             else Exit 1 (emit (Stderr (''Error: cannot create overlay directory'' @ nl))
                            (snd (sys K (Mkdir (overlay_dir C) 493) s))))
      else Return s)"

definition legacy_overlay_mount :: "config \<Rightarrow> syscall" where
  "legacy_overlay_mount C =
     Mount (Some ''overlayfs'') (overlay_oroot C) (Some ''overlayfs'') [MS_MGC_VAL]
       (Some (''lowerdir=/,upperdir='' @ overlay_basedir C @ ''/odiff''))"

definition modern_overlay_mount :: "config \<Rightarrow> syscall" where
  "modern_overlay_mount C =
     Mount (Some ''overlay'') (overlay_oroot C) (Some ''overlay'') [MS_MGC_VAL]
       (Some (''lowerdir=/,upperdir='' @ overlay_basedir C @ ''/odiff''
              @ '',workdir='' @ overlay_basedir C @ ''/owork''))"

definition home_overlay_mount :: "config \<Rightarrow> syscall" where
  "home_overlay_mount C =
     Mount (Some ''overlay'') (RUN_MNT_DIR (paths C) @ ''/oroot/home'') (Some ''overlay'')
       [MS_MGC_VAL]
       (Some (''lowerdir=/home,upperdir='' @ overlay_basedir C @ ''/hdiff''
              @ '',workdir='' @ overlay_basedir C @ ''/hwork''))"

text \<open>Lines 969 to 1028: the second overlay for a home directory on its own mount point.\<close>

definition overlay_home :: "'w kernel \<Rightarrow> config \<Rightarrow> 'w st \<Rightarrow> 'w st outcome" where
  "overlay_home K C s0 =
     (let s = dbg C (''DEBUG: overlayhome var holds ##'' @ overlay_oroot C @ homedir_text C
                     @ ''##'' @ nl)
                (dbg C (''DEBUG: chroot dirs are oroot '' @ overlay_oroot C @ ''  odiff ''
                        @ overlay_basedir C @ ''/odiff'' @ ''  owork ''
                        @ overlay_basedir C @ ''/owork'' @ nl) s0)
      in unless_stat K (overlay_oroot C @ homedir_text C) (\<lambda>s.
           and_then (layer_dir K (overlay_basedir C @ ''/hdiff'') 511 s) (\<lambda>s.
           and_then (layer_dir K (overlay_basedir C @ ''/hwork'') 511 s) (\<lambda>s.
           and_then (sys_or_die K (home_overlay_mount C)
                       ''mounting overlayfs for mounted home directory'' s) (\<lambda>s.
           Return (emit (Stdout (''OverlayFS for /home configured in '' @ overlay_basedir C
                                 @ '' directory'' @ nl)) s))))) s)"

text \<open>Lines 943 to 1031: the overlay mount itself, by driver.\<close>

definition overlay_mount :: "'w kernel \<Rightarrow> config \<Rightarrow> bool \<Rightarrow> 'w st \<Rightarrow> 'w st outcome" where
  "overlay_mount K C oldkernel s0 =
     (let s = dbg C (''Mounting OverlayFS'' @ nl) s0 in
      if oldkernel then
        if arg_overlay_keep C
        then Exit 1 (emit (Stderr (''Error: option --overlay= not available for kernels older than 3.18''
                                   @ nl)) s)
        else sys_or_die K (legacy_overlay_mount C) ''mounting overlayfs'' s
      else
        and_then (sys_or_die K (modern_overlay_mount C) ''mounting overlayfs'' s)
          (overlay_home K C))"

text \<open>Lines 1034 to 1066: \<^verbatim>\<open>/dev\<close>, \<^verbatim>\<open>/run\<close> and the X11 sockets inside the new root.\<close>

definition overlay_binds :: "'w kernel \<Rightarrow> config \<Rightarrow> 'w st \<Rightarrow> 'w st outcome" where
  "overlay_binds K C s =
     and_then (sys_or_die K (Mount (Some ''/dev'') (overlay_oroot C @ ''/dev'') None
                               [MS_BIND, MS_REC] None)
                 ''mounting /dev'' (dbg C (''Mounting /dev'' @ nl) s)) (\<lambda>s.
     and_then (sys_or_die K (Mount (Some ''/run'') (overlay_oroot C @ ''/run'') None
                               [MS_BIND, MS_REC] None)
                 ''mounting /run'' (dbg C (''Mounting /run'' @ nl) (emit (Logger ''whitelist /dev'') s)))
       (\<lambda>s.
     when_stat K ''/tmp/.X11-unix'' (\<lambda>s.
        (let r = sys K (Mount (Some ''/tmp/.X11-unix'') (overlay_oroot C @ ''/tmp/.X11-unix'') None
                          [MS_BIND, MS_REC] None)
                   (dbg C (''Mounting /tmp/.X11-unix'' @ nl) s)
         in if fst r then Return (emit (Logger ''whitelist /tmp/.X11-unix'') (snd r))
            else Return (emit (Stderr (''Warning: cannot mount /tmp/.X11-unix in overlay'' @ nl))
                           (snd r))))
       (emit (Logger ''whitelist /run'') s)))"

text \<open>
  Lines 880 to 941: the staging bootstrap, then the overlay root and the two layer
  directories.
\<close>

definition overlay_dirs :: "'w kernel \<Rightarrow> config \<Rightarrow> 'w st \<Rightarrow> 'w st outcome" where
  "overlay_dirs K C s =
     and_then (sys_or_die K (Mkdir (overlay_oroot C) 493) ''mkdir'' s) (\<lambda>s.
     and_then (sys_or_die K (Chmod (overlay_oroot C) 493) ''chmod'' s) (\<lambda>s.
     and_then (ext K (ASSERT_PERMS (overlay_oroot C) 0 0 493) s) (\<lambda>s.
     and_then (overlay_keep_dir K C s) (\<lambda>s.
     and_then (layer_dir K (overlay_basedir C @ ''/odiff'') 493 s) (\<lambda>s.
     layer_dir K (overlay_basedir C @ ''/owork'') 493 s)))))"

definition overlay_prepare :: "'w kernel \<Rightarrow> config \<Rightarrow> 'w st \<Rightarrow> 'w st outcome" where
  "overlay_prepare K C s = and_then (fs_build_mnt_dir K C s) (overlay_dirs K C)"

text \<open>Lines 1032 to 1090: the binds, the \<^verbatim>\<open>chroot\<close> and the work inside the new root.\<close>

definition overlay_enter :: "'w kernel \<Rightarrow> config \<Rightarrow> 'w st \<Rightarrow> 'w st outcome" where
  "overlay_enter K C s =
     and_then (overlay_binds K C
                 (emit (Stdout (''OverlayFS configured in '' @ overlay_basedir C
                                @ '' directory'' @ nl)) s)) (\<lambda>s.
     and_then (sys_or_die K (Chroot (overlay_oroot C)) ''chroot'' s) (\<lambda>s.
     update_var_and_users K C s))"

text \<open>Everything after the kernel version check (lines 880 to 1095).\<close>

definition overlay_compose :: "'w kernel \<Rightarrow> config \<Rightarrow> bool \<Rightarrow> 'w st \<Rightarrow> 'w st outcome" where
  "overlay_compose K C oldkernel s =
     and_then (overlay_prepare K C s) (\<lambda>s.
     and_then (overlay_mount K C oldkernel s) (overlay_enter K C))"

definition fs_overlayfs :: "'w kernel \<Rightarrow> config \<Rightarrow> 'w st \<Rightarrow> 'w st outcome" where
  "fs_overlayfs K C s =
     (case k_uname K (world s) of
        None \<Rightarrow> errExit ''uname'' s
      | Some (release, version) \<Rightarrow>
          (case scan_version release of
             None \<Rightarrow> Exit 1 (emit (Stderr (''Error: cannot extract Linux kernel version: ''
                                           @ version @ nl)) s)
           | Some (major, minor) \<Rightarrow>
               if major < 3
               then Exit 1 (emit (Stderr (''Error: minimum kernel version required 3.x'' @ nl))
                              (dbg C (''Linux kernel version '' @ string_of_int major @ ''.''
                                      @ string_of_int minor @ nl) s))
               else overlay_compose K C (major = 3 \<and> minor < 18)
                      (dbg C (''Linux kernel version '' @ string_of_int major @ ''.''
                              @ string_of_int minor @ nl) s)))"

section \<open>Entering an existing root: \<^verbatim>\<open>fs_chroot\<close>\<close>

text \<open>Lines 1182 to 1233, run when the configuration enables the chroot desktop setup.\<close>

definition chroot_prepare :: "'w kernel \<Rightarrow> config \<Rightarrow> string \<Rightarrow> 'w st \<Rightarrow> 'w st outcome" where
  "chroot_prepare K C rootdir s =
     and_then (sys_or_die K (Mount (Some ''/dev'') (rootdir @ ''/dev'') None [MS_BIND, MS_REC] None)
                 ''mounting /dev'' (dbg C (''Mounting /dev on '' @ rootdir @ ''/dev'' @ nl) s)) (\<lambda>s.
     and_then
       (case k_getenv K ''FIREJAIL_X11'' (world s) of
          None \<Rightarrow> Return s
        | Some v \<Rightarrow>
            sys_or_die K (Mount (Some ''/tmp/.X11-unix'') (rootdir @ ''/tmp/.X11-unix'') None
                            [MS_BIND, MS_REC] None)
              ''mounting /tmp/.X11-unix''
              (dbg C (''Mounting /tmp/.X11-unix on '' @ rootdir @ ''/tmp/.X11-unix'' @ nl)
                 (s\<lparr>mask_x11_abstract_socket := True\<rparr>))) (\<lambda>s.
     (let s1 = (if \<not> x_is_dir K (rootdir @ ''/run'') (world s)
                then snd (sys K (Chown (rootdir @ ''/run'') 0 0)
                            (snd (sys K (Mkdir (rootdir @ ''/run'') 493) s)))
                else s);
          s2 = dbg C (''Updating /etc/resolv.conf in '' @ rootdir @ ''/etc/resolv.conf'' @ nl) s1
      in if x_is_link K (rootdir @ ''/etc/resolv.conf'') (world s2)
         then Exit 1 (emit (Stderr (''Error: invalid '' @ rootdir @ ''/etc/resolv.conf''
                                    @ '' file'' @ nl)) s2)
         else
           (let r = sys K (Copy_file ''/etc/resolv.conf'' (rootdir @ ''/etc/resolv.conf'') 0 0 420) s2
            in if fst r then Return (snd r)
               else Return (emit (Stderr (''Warning: /etc/resolv.conf not initialized'' @ nl))
                              (snd r))))))"

definition fs_chroot :: "'w kernel \<Rightarrow> config \<Rightarrow> string \<Rightarrow> 'w st \<Rightarrow> 'w st outcome" where
  "fs_chroot K C rootdir s =
     and_then (if x_checkcfg_chroot_desktop K (world s) then chroot_prepare K C rootdir s
               else Return s) (\<lambda>s.
     and_then (sys_or_die K (Chroot rootdir) ''chroot''
                 (dbg C (''Chrooting into '' @ rootdir @ nl) s)) (\<lambda>s.
     and_then (fs_build_remount_mnt_dir K C s) (\<lambda>s.
     if x_checkcfg_chroot_desktop K (world s) then update_var_and_users K C s else Return s)))"

section \<open>Joining a running sandbox: \<^verbatim>\<open>join\<close>\<close>

text \<open>The handler installed for \<^verbatim>\<open>SIGTERM\<close>.\<close>

definition signal_handler :: "nat \<Rightarrow> 'w st \<Rightarrow> 'w st outcome" where
  "signal_handler sig s = Exit sig (emit Ctflush s)"

definition extract_command ::
  "'w kernel \<Rightarrow> config \<Rightarrow> string list \<Rightarrow> nat \<Rightarrow> 'w st \<Rightarrow> 'w st outcome" where
  "extract_command K C argv index0 s0 =
     and_then (ext K EUID_ASSERT s0) (\<lambda>s.
       if index0 \<ge> length argv then Return s
       else
         (let dashes = (argv ! index0 = ''--'');
              s1 = (if dashes then s\<lparr>arg_doubledash := True\<rparr> else s);
              index = (if dashes then index0 + 1 else index0)
          in if index \<ge> length argv then Return s1
             else if \<not> arg_doubledash s1 \<and> take 1 (argv ! index) = ''-''
             then Exit 1 (emit (Stderr (''Error: invalid option '' @ argv ! index
                                        @ '' after --join'' @ nl)) s1)
             else
               and_then (ext K (Build_cmdline argv index) s1) (\<lambda>s.
                 Return (dbg C (''Extracted command #'' @ fst (x_built_cmdline K argv index)
                                @ ''#'' @ nl)
                           (s\<lparr>cfg_command_line := Some (fst (x_built_cmdline K argv index)),
                              cfg_window_title := Some (snd (x_built_cmdline K argv index))\<rparr>)))))"

text \<open>\<^verbatim>\<open>"/proc/%d/root%s"\<close> and \<^verbatim>\<open>"%u"\<close> of a process id.\<close>

definition proc_root :: "int \<Rightarrow> string" where
  "proc_root pid = ''/proc/'' @ string_of_int pid @ ''/root''"

definition unsigned_text :: "int \<Rightarrow> string" where
  "unsigned_text pid = string_of_nat (nat (pid mod 4294967296))"

definition extract_nogroups :: "'w kernel \<Rightarrow> config \<Rightarrow> int \<Rightarrow> 'w st \<Rightarrow> 'w st outcome" where
  "extract_nogroups K C pid =
     when_stat K (proc_root pid @ RUN_GROUPS_CFG (paths C))
       (\<lambda>s. Return (s\<lparr>arg_nogroups := True\<rparr>))"

definition extract_cpu :: "'w kernel \<Rightarrow> config \<Rightarrow> int \<Rightarrow> 'w st \<Rightarrow> 'w st outcome" where
  "extract_cpu K C pid =
     when_stat K (proc_root pid @ RUN_CPU_CFG (paths C)) (\<lambda>s.
       and_then (ext K (Load_cpu (proc_root pid @ RUN_CPU_CFG (paths C))) s) (\<lambda>s'.
         Return (s'\<lparr>cfg_cpus := x_loaded_cpus K (proc_root pid @ RUN_CPU_CFG (paths C)) (world s)\<rparr>)))"

definition extract_cgroup :: "'w kernel \<Rightarrow> config \<Rightarrow> int \<Rightarrow> 'w st \<Rightarrow> 'w st outcome" where
  "extract_cgroup K C pid =
     when_stat K (proc_root pid @ RUN_CGROUP_CFG (paths C)) (\<lambda>s.
       and_then (ext K (Load_cgroup (proc_root pid @ RUN_CGROUP_CFG (paths C))) s) (\<lambda>s'.
         Return (s'\<lparr>cfg_cgroup :=
                     x_loaded_cgroup K (proc_root pid @ RUN_CGROUP_CFG (paths C)) (world s)\<rparr>)))"

text \<open>
  The \<^verbatim>\<open>fgets\<close> loop over the status file: the \<^verbatim>\<open>Seccomp:\<close> line ends it, a \<^verbatim>\<open>CapBnd:\<close> line
  sets the capability mask.  Lines are taken to be shorter than the buffer.
\<close>

fun status_lines :: "'w kernel \<Rightarrow> string list \<Rightarrow> 'w st \<Rightarrow> 'w st" where
  "status_lines K [] s = s"
| "status_lines K (buf # rest) s =
     (if strncmp_eq buf ''Seccomp:'' 8
      then (if k_sscanf_d K (drop 8 buf) = 2 then s\<lparr>apply_seccomp := True\<rparr> else s)
      else if strncmp_eq buf ''CapBnd:'' 7
      then status_lines K rest (s\<lparr>apply_caps := True, caps := k_sscanf_llx K (drop 7 buf)\<rparr>)
      else status_lines K rest s)"

definition extract_caps_seccomp :: "'w kernel \<Rightarrow> int \<Rightarrow> 'w st \<Rightarrow> 'w st outcome" where
  "extract_caps_seccomp K pid s =
     (case k_proc_status K pid (world s) of
        None \<Rightarrow> Exit 1 (emit (Stderr (''Error: cannot open stat file for process ''
                                      @ unsigned_text pid @ nl)) s)
      | Some lines \<Rightarrow> Return (status_lines K lines s))"

text \<open>\<^verbatim>\<open>fscanf(fp, "%d %d", &u1, &u2)\<close>, \<open>Some\<close> when it returns 2.\<close>

definition scan_two :: "string \<Rightarrow> (int \<times> int) option" where
  "scan_two cs =
     (case scan_d cs of
        None \<Rightarrow> None
      | Some (u1, r) \<Rightarrow> map_option (\<lambda>(u2, r'). (u1, u2)) (scan_d r))"

definition extract_user_namespace :: "'w kernel \<Rightarrow> config \<Rightarrow> int \<Rightarrow> 'w st \<Rightarrow> 'w st outcome" where
  "extract_user_namespace K C pid s =
     (if k_stat K ''/proc/self/ns/user'' (world s) \<noteq> None
         \<and> k_stat K ''/proc/self/uid_map'' (world s) \<noteq> None
         \<and> k_stat K ''/proc/self/gid_map'' (world s) \<noteq> None
      then
        (case k_uid_map K pid (world s) of
           None \<Rightarrow> Return s
         | Some text \<Rightarrow>
             (case scan_two text of
                None \<Rightarrow> Return s
              | Some (u1, u2) \<Rightarrow>
                  (let s1 = dbg C (''User namespace detected: /proc/'' @ unsigned_text pid
                                   @ ''/uid_map, '' @ string_of_int u1 @ '', ''
                                   @ string_of_int u2 @ nl) s
                   in if u1 \<noteq> 0 \<or> u2 \<noteq> 0 then Return (s1\<lparr>arg_noroot := True\<rparr>)
                      else Return s1)))
      else Return s)"

text \<open>
  Lines 199 to 212: a target that is itself a \<^verbatim>\<open>firejail\<close> process is replaced by its first
  child.  \<open>sandbox_pid\<close> is the process id used from there on, \<open>switch_pid\<close> the state.
\<close>

definition as_root_comm :: "'w kernel \<Rightarrow> int \<Rightarrow> 'w st \<Rightarrow> string option" where
  "as_root_comm K pid s = x_pid_proc_comm K pid (world (snd (sys K Seteuid_root s)))"

definition after_comm :: "'w kernel \<Rightarrow> 'w st \<Rightarrow> 'w st" where
  "after_comm K s = snd (sys K Seteuid_user (snd (sys K Seteuid_root s)))"

definition sandbox_pid :: "'w kernel \<Rightarrow> int \<Rightarrow> 'w st \<Rightarrow> int" where
  "sandbox_pid K pid s =
     (if as_root_comm K pid s = Some ''firejail''
      then (case x_find_child K pid (world (after_comm K s)) of None \<Rightarrow> pid | Some child \<Rightarrow> child)
      else pid)"

definition switch_pid :: "'w kernel \<Rightarrow> int \<Rightarrow> 'w st \<Rightarrow> 'w st" where
  "switch_pid K pid s =
     (if as_root_comm K pid s = Some ''firejail''
      then (case x_find_child K pid (world (after_comm K s)) of
              None \<Rightarrow> after_comm K s
            | Some child \<Rightarrow>
                emit (Stdout (''Switching to pid '' @ unsigned_text child
                              @ '', the first child process inside the sandbox'' @ nl))
                  (after_comm K s))
      else after_comm K s)"

text \<open>Lines 214 to 222: only root may join a sandbox of another user.\<close>

definition check_join_privileges :: "'w kernel \<Rightarrow> int \<Rightarrow> 'w st \<Rightarrow> 'w st outcome" where
  "check_join_privileges K pid s =
     (if k_getuid K (world s) \<noteq> 0 \<and> k_getuid K (world s) \<noteq> x_pid_get_uid K pid (world s)
      then Exit 1 (emit (Stderr (''Error: permission is denied to join a sandbox created by a different user.''
                                 @ nl)) s)
      else Return s)"

text \<open>Lines 224 to 236: the context of the target, read only for a caller who is not root.\<close>

definition extract_context :: "'w kernel \<Rightarrow> config \<Rightarrow> int \<Rightarrow> 'w st \<Rightarrow> 'w st outcome" where
  "extract_context K C pid s0 =
     and_then
       (let s = snd (sys K Seteuid_root s0) in
        if k_getuid K (world s) \<noteq> 0 then
          and_then (extract_caps_seccomp K pid s) (\<lambda>s.
          and_then (extract_cpu K C pid s) (\<lambda>s.
          and_then (extract_cgroup K C pid s) (\<lambda>s.
          and_then (extract_nogroups K C pid s) (\<lambda>s.
          extract_user_namespace K C pid s))))
        else Return s)
       (\<lambda>s. case cfg_cgroup s of None \<Rightarrow> Return s | Some g \<Rightarrow> ext K (Set_cgroup g) s)"

text \<open>\<^verbatim>\<open>if (join_namespace(pid, type)) exit(1);\<close>\<close>

definition enter_namespace :: "'w kernel \<Rightarrow> int \<Rightarrow> string \<Rightarrow> 'w st \<Rightarrow> 'w st outcome" where
  "enter_namespace K pid type s =
     (if fst (sys K (Join_namespace pid type) s) then Return (snd (sys K (Join_namespace pid type) s))
      else Exit 1 (snd (sys K (Join_namespace pid type) s)))"

definition join_namespaces :: "'w kernel \<Rightarrow> config \<Rightarrow> int \<Rightarrow> 'w st \<Rightarrow> 'w st outcome" where
  "join_namespaces K C pid s =
     (if arg_join_network C then enter_namespace K pid ''net'' s
      else if arg_join_filesystem C then enter_namespace K pid ''mnt'' s
      else
        and_then (enter_namespace K pid ''ipc'' s) (\<lambda>s.
        and_then (enter_namespace K pid ''net'' s) (\<lambda>s.
        and_then (enter_namespace K pid ''pid'' s) (\<lambda>s.
        and_then (enter_namespace K pid ''uts'' s) (\<lambda>s.
        enter_namespace K pid ''mnt'' s)))))"

text \<open>\<^verbatim>\<open>chdir("/")\<close>, then the home directory if it is set and can be stat'ed.\<close>

definition chdir_home :: "'w kernel \<Rightarrow> config \<Rightarrow> 'w st \<Rightarrow> 'w st outcome" where
  "chdir_home K C s =
     and_then (sys_or_die K (Chdir ''/'') ''chdir'' s) (\<lambda>s.
       case homedir C of
         None \<Rightarrow> Return s
       | Some h \<Rightarrow> when_stat K h (sys_or_die K (Chdir h) ''chdir'') s)"

definition prompt_command :: string where
  "prompt_command =
     ''export PS1='' @ [CHR 0x22] @ [CHR 0x5C] @ ''['' @ [CHR 0x5C] @ ''e[1;32m'' @ [CHR 0x5C]
     @ '']['' @ [CHR 0x5C] @ ''u@'' @ [CHR 0x5C] @ ''h '' @ [CHR 0x5C] @ ''W]'' @ [CHR 0x5C]
     @ ''$'' @ [CHR 0x5C] @ ''['' @ [CHR 0x5C] @ ''e[0m'' @ [CHR 0x5C] @ ''] '' @ [CHR 0x22]"

text \<open>
  Lines 288 to 327: the restrictions the child puts on itself.  The source is taken as
  compiled with \<^verbatim>\<open>HAVE_SECCOMP\<close>.
\<close>

definition enter_user_namespace :: "'w kernel \<Rightarrow> config \<Rightarrow> 'w st \<Rightarrow> 'w st outcome" where
  "enter_user_namespace K C s =
     (if arg_noroot s then
        and_then (enter_namespace K 1 ''user'' (dbg C (''Joining user namespace'' @ nl) s)) (\<lambda>s.
          if apply_caps s then ext K (Caps_set (caps s)) s else Return s)
      else ext K (Drop_privs (arg_nogroups s)) s)"

definition apply_context :: "'w kernel \<Rightarrow> config \<Rightarrow> 'w st \<Rightarrow> 'w st outcome" where
  "apply_context K C s =
     and_then (if cfg_cpus s \<noteq> 0 then ext K Set_cpu_affinity s else Return s) (\<lambda>s.
     and_then (if apply_caps s then ext K (Caps_set (caps s)) s else Return s) (\<lambda>s.
     and_then (if k_getuid K (world s) \<noteq> 0
               then ext K (Protocol_filter_load (RUN_PROTOCOL_CFG (paths C))) s else Return s) (\<lambda>s.
     and_then (if cfg_protocol C \<noteq> None then ext K Protocol_filter s else Return s) (\<lambda>s.
     and_then (if apply_seccomp s then ext K Seccomp_set s else Return s) (\<lambda>s.
     and_then (sys_or_die K (Setenv ''QT_X11_NO_MITSHM'' ''1'') ''setenv'' s) (\<lambda>s.
     and_then (sys_or_die K (Setenv ''container'' ''firejail'') ''setenv'' s) (\<lambda>s.
     enter_user_namespace K C s)))))))"

text \<open>Lines 330 to 347: the prompt and the nice value.\<close>

definition prompt_and_nice :: "'w kernel \<Rightarrow> config \<Rightarrow> 'w st \<Rightarrow> 'w st outcome" where
  "prompt_and_nice K C s =
     and_then (if k_getenv K ''FIREJAIL_PROMPT'' (world s) = Some ''yes''
               then sys_or_die K (Setenv ''PROMPT_COMMAND'' prompt_command) ''setenv'' s
               else Return s) (\<lambda>s.
       if arg_nice C then
         (if fst (sys K (Nice (cfg_nice C)) s) then Return (snd (sys K (Nice (cfg_nice C)) s))
          else Return (emit (Stderr (''Warning: cannot set nice value'' @ nl))
                         (snd (sys K (Nice (cfg_nice C)) s))))
       else Return s)"

text \<open>Lines 349 to 369: without a command the shell is run.\<close>

definition choose_shell :: "'w kernel \<Rightarrow> 'w st \<Rightarrow> 'w st outcome" where
  "choose_shell K s =
     (case cfg_command_line s of
        Some c \<Rightarrow> Return s
      | None \<Rightarrow>
          (let shell = (case cfg_shell s of None \<Rightarrow> x_guess_shell K (world s) | Some sh \<Rightarrow> Some sh);
               s1 = s\<lparr>cfg_shell := shell\<rparr>
           in case shell of
                None \<Rightarrow> Exit 1 (emit (Stderr (''Error: no POSIX shell found, please use --shell command line option''
                                              @ nl)) s1)
              | Some sh \<Rightarrow>
                  (case k_stat K sh (world s1) of
                     None \<Rightarrow> Exit 1 (emit (Stderr (''Error: '' @ sh
                                                   @ '' shell not found inside the sandbox'' @ nl)) s1)
                   | Some x \<Rightarrow> Return (s1\<lparr>cfg_command_line := Some sh,
                                            cfg_window_title := Some sh\<rparr>))))"

text \<open>Lines 371 to 388: the working directory.\<close>

definition choose_cwd :: "'w kernel \<Rightarrow> config \<Rightarrow> 'w st \<Rightarrow> 'w st outcome" where
  "choose_cwd K C s =
     (case cfg_cwd C of
        None \<Rightarrow> chdir_home K C s
      | Some d \<Rightarrow>
          if fst (sys K (Chdir d) s) then Return (snd (sys K (Chdir d) s))
          else chdir_home K C (snd (sys K (Chdir d) s)))"

text \<open>The child of the fork (lines 263 to 393); \<^verbatim>\<open>start_application\<close> does not return.\<close>

definition join_child :: "'w kernel \<Rightarrow> config \<Rightarrow> int \<Rightarrow> 'w st \<Rightarrow> 'w st outcome" where
  "join_child K C pid s0 =
     (let s1 = (if \<not> arg_join_network C
                then (if fst (sys K (Chroot (proc_root pid)) s0)
                      then emit (Stdout (''changing root to '' @ proc_root pid @ nl))
                             (snd (sys K (Chroot (proc_root pid)) s0))
                      else snd (sys K (Chroot (proc_root pid)) s0))
                else s0);
          s2 = snd (sys K Prctl_pdeathsig_sigkill s1)
      in and_then (chdir_home K C s2) (\<lambda>s.
         and_then (apply_context K C s) (\<lambda>s.
         and_then (prompt_and_nice K C s) (\<lambda>s.
         and_then (choose_shell K s) (\<lambda>s.
         and_then (choose_cwd K C s) (\<lambda>s.
         and_then (ext K Start_application s) (\<lambda>s. Exec s)))))))"

text \<open>
  The parent after the fork (lines 396 to 403): the status pointer given to \<^verbatim>\<open>waitpid\<close> is
  \<^verbatim>\<open>NULL\<close>, so what the child returned reaches the parent only inside the world.
\<close>

definition join_parent :: "'w kernel \<Rightarrow> int \<Rightarrow> 'w st \<Rightarrow> 'w st outcome" where
  "join_parent K child s =
     Exit 0 (emit Ctflush (snd (sys K (Waitpid child) (snd (sys K Signal_sigterm s)))))"

text \<open>From the privilege check to the fork (lines 214 to 262).\<close>

definition join_fork :: "'w kernel \<Rightarrow> config \<Rightarrow> int \<Rightarrow> 'w st \<Rightarrow> 'w st outcome" where
  "join_fork K C pid s =
     (let child = k_fork K (world s); s1 = snd (sys K Fork s)
      in if child < 0 then errExit ''fork'' s1
         else if child = 0 then join_child K C pid s1
         else join_parent K child s1)"

definition join_sandbox :: "'w kernel \<Rightarrow> config \<Rightarrow> int \<Rightarrow> 'w st \<Rightarrow> 'w st outcome" where
  "join_sandbox K C pid s =
     and_then (check_join_privileges K pid s) (\<lambda>s.
     and_then (extract_context K C pid s) (\<lambda>s.
     and_then (join_namespaces K C pid s) (\<lambda>s.
     join_fork K C pid s)))"

definition join :: "'w kernel \<Rightarrow> config \<Rightarrow> int \<Rightarrow> string list \<Rightarrow> nat \<Rightarrow> 'w st \<Rightarrow> 'w st outcome"
  where
  "join K C pid argv index s =
     and_then (ext K EUID_ASSERT s) (\<lambda>s.
     and_then (extract_command K C argv index s) (\<lambda>s.
     join_sandbox K C (sandbox_pid K pid s) (switch_pid K pid s)))"

section \<open>Vocabulary of the properties\<close>

text \<open>
  Kinds of events, and two relations between the state before and the state after a piece
  of the run.  \<open>adds P s s'\<close>: the trace of \<open>s'\<close> is the trace of \<open>s\<close> followed by events that
  all satisfy \<open>P\<close>.  \<open>keeps P g s s'\<close>: moreover the observation \<open>g\<close> of the program's
  variables is the same in both.
\<close>

fun is_mount :: "event \<Rightarrow> bool" where
  "is_mount (Sys (Mount src tgt fstype flags opts)) = True"
| "is_mount e = False"

fun is_log :: "event \<Rightarrow> bool" where
  "is_log (Logger m) = True"
| "is_log (Logger2 m n) = True"
| "is_log e = False"

definition quiet :: "event \<Rightarrow> bool" where
  "quiet e = (\<not> is_mount e \<and> \<not> is_log e)"

definition adds :: "(event \<Rightarrow> bool) \<Rightarrow> 'w st \<Rightarrow> 'w st \<Rightarrow> bool" where
  "adds P s s' =
     (take (length (trace s)) (trace s') = trace s
      \<and> list_all P (drop (length (trace s)) (trace s')))"

definition keeps :: "(event \<Rightarrow> bool) \<Rightarrow> ('w st \<Rightarrow> 'a) \<Rightarrow> 'w st \<Rightarrow> 'w st \<Rightarrow> bool" where
  "keeps P g s s' = (adds P s s' \<and> g s' = g s)"

text \<open>An observation that reads neither the world nor the trace.\<close>

definition frame :: "('w st \<Rightarrow> 'a) \<Rightarrow> bool" where
  "frame g = (\<forall>s w t. g (s\<lparr>world := w, trace := t\<rparr>) = g s)"

text \<open>The path \<open>p\<close> names something inside the directory \<open>d\<close>.\<close>

definition below :: "string \<Rightarrow> string \<Rightarrow> bool" where
  "below d p = (length d + 1 < length p \<and> take (length d + 1) p = d @ ''/'')"

text \<open>
  The target of a denial does not exist: \<^verbatim>\<open>realpath\<close> fails for a reason other than
  \<^verbatim>\<open>EACCES\<close>, or the canonical path cannot be stat'ed.
\<close>

definition target_absent :: "'w kernel \<Rightarrow> string \<Rightarrow> 'w \<Rightarrow> bool" where
  "target_absent K filename w =
     (case k_realpath K filename w of
        Rp_other \<Rightarrow> True
      | Rp_eacces \<Rightarrow> False
      | Rp_ok fname \<Rightarrow> k_stat K fname w = None)"

section \<open>A small concrete system\<close>

text \<open>
  A world made of a table of files with their owners and modes, and a kernel over it, used
  to run the model on concrete inputs.  A fresh tmpfs belongs to root and hides what was
  below its mount point; \<^verbatim>\<open>chown\<close> changes the owner of an existing file; \<^verbatim>\<open>mkdir\<close> fails on
  an existing path.
\<close>

type_synonym files = "(string \<times> stat) list"

definition dir_stat :: "nat \<Rightarrow> nat \<Rightarrow> stat" where
  "dir_stat u g = \<lparr>st_uid = u, st_gid = g, st_mode = 16877\<rparr>"

definition file_stat :: "nat \<Rightarrow> nat \<Rightarrow> stat" where
  "file_stat u g = \<lparr>st_uid = u, st_gid = g, st_mode = 33188\<rparr>"

fun demo_sys :: "syscall \<Rightarrow> files \<Rightarrow> bool \<times> files" where
  "demo_sys (Chown p u g) w =
     (case map_of w p of
        None \<Rightarrow> (False, w)
      | Some x \<Rightarrow> (True, (p, x\<lparr>st_uid := u, st_gid := g\<rparr>) # w))"
| "demo_sys (Mount src tgt fstype flags data) w =
     (case map_of w tgt of
        None \<Rightarrow> (False, w)
      | Some x \<Rightarrow>
          if fstype = Some ''tmpfs''
          then (True, (tgt, dir_stat 0 0) # filter (\<lambda>(p, y). \<not> below tgt p) w)
          else (True, w))"
| "demo_sys (Mkdir p m) w =
     (case map_of w p of
        None \<Rightarrow> (True, (p, \<lparr>st_uid = 0, st_gid = 0, st_mode = 16384 + m\<rparr>) # w)
      | Some x \<Rightarrow> (False, w))"
| "demo_sys c w = (True, w)"

definition demo_basename :: "string \<Rightarrow> string" where
  "demo_basename p = rev (takeWhile (\<lambda>c. c \<noteq> CHR ''/'') (rev p))"

definition demo_glob :: "string \<Rightarrow> string list" where
  "demo_glob pattern =
     (if pattern = ''/home/user/.*''
      then [''/home/user/.'', ''/home/user/..'', ''/home/user/.ssh'', ''/home/user/.gnupg'']
      else [pattern])"

definition demo_split_comma :: "string \<Rightarrow> (string \<times> string) option" where
  "demo_split_comma a =
     (if CHR '','' \<in> set a
      then Some (takeWhile (\<lambda>c. c \<noteq> CHR '','') a, drop 1 (dropWhile (\<lambda>c. c \<noteq> CHR '','') a))
      else None)"

definition demo_kernel :: "files kernel" where
  "demo_kernel =
     \<lparr>k_sys = demo_sys,
      k_ext = (\<lambda>c w. (None, w)),
      k_stat = (\<lambda>p w. map_of w p),
      k_realpath = (\<lambda>p w. case map_of w p of None \<Rightarrow> Rp_other | Some x \<Rightarrow> Rp_ok p),
      k_glob = (\<lambda>pattern w. Some (demo_glob pattern)),
      k_fnmatch = (\<lambda>pattern path. if pattern = path then Fnm_match else Fnm_nomatch),
      k_getuid = (\<lambda>w. 1000),
      k_getenv = (\<lambda>name w. None),
      k_uname = (\<lambda>w. Some (''3.18.0'', ''#1 SMP'')),
      k_proc_status = (\<lambda>pid w. Some [''CapBnd: 0000003fffffffff'', ''Seccomp: 2'']),
      k_uid_map = (\<lambda>pid w. None),
      k_sscanf_d = (\<lambda>text. 2),
      k_sscanf_llx = (\<lambda>text. 274877906943),
      k_fork = (\<lambda>w. 4321),
      k_child_status = (\<lambda>pid w. 7),
      x_is_link = (\<lambda>p w. False),
      x_is_dir = (\<lambda>p w. case map_of w p of None \<Rightarrow> False | Some x \<Rightarrow> S_ISDIR (st_mode x)),
      x_gnu_basename = demo_basename,
      x_expand_home = (\<lambda>p home. Some p),
      x_build_paths = (\<lambda>w. [''/bin'', ''/usr/bin'']),
      x_split_comma = demo_split_comma,
      x_checkcfg_chroot_desktop = (\<lambda>w. True),
      x_pid_proc_comm = (\<lambda>pid w. Some ''bash''),
      x_find_child = (\<lambda>pid w. None),
      x_pid_get_uid = (\<lambda>pid w. 1000),
      x_loaded_cpus = (\<lambda>name w. 3),
      x_loaded_cgroup = (\<lambda>name w. Some ''g1''),
      x_guess_shell = (\<lambda>w. Some ''/bin/bash''),
      x_built_cmdline = (\<lambda>argv index. (''ls'', ''ls'')),
      x_sizeof_pointer = 8\<rparr>"

definition demo_macros :: macros where
  "demo_macros =
     \<lparr>RUN_FIREJAIL_BASEDIR = ''/run'',
      RUN_FIREJAIL_DIR = ''/run/firejail'',
      RUN_FIREJAIL_NETWORK_DIR = ''/run/firejail/network'',
      RUN_FIREJAIL_BANDWIDTH_DIR = ''/run/firejail/bandwidth'',
      RUN_FIREJAIL_NAME_DIR = ''/run/firejail/name'',
      RUN_FIREJAIL_X11_DIR = ''/run/firejail/x11'',
      RUN_FIREJAIL_APPIMAGE_DIR = ''/run/firejail/appimage'',
      RUN_RO_DIR = ''/run/firejail/firejail.ro.dir'',
      RUN_RO_FILE = ''/run/firejail/firejail.ro.file'',
      RUN_MNT_DIR = ''/run/firejail/mnt'',
      RUN_GROUPS_CFG = ''/run/firejail/mnt/groups'',
      RUN_CPU_CFG = ''/run/firejail/mnt/cpu'',
      RUN_CGROUP_CFG = ''/run/firejail/mnt/cgroup'',
      RUN_PROTOCOL_CFG = ''/run/firejail/mnt/protocol''\<rparr>"

definition demo_config :: config where
  "demo_config =
     \<lparr>paths = demo_macros, arg_debug = False, arg_debug_blacklists = False,
      homedir = Some ''/home/user'', arg_overlay_keep = False, arg_overlay_reuse = False,
      overlay_dir = ''/home/user/.firejail/keep'', arg_private_dev = False,
      arg_join_network = False, arg_join_filesystem = False, cfg_protocol = None,
      arg_nice = False, cfg_nice = 0, cfg_cwd = None\<rparr>"

definition demo_files :: files where
  "demo_files =
     [(''/run'', dir_stat 0 0), (''/run/firejail'', dir_stat 0 0),
      (''/run/firejail/network'', dir_stat 0 0), (''/run/firejail/bandwidth'', dir_stat 0 0),
      (''/run/firejail/name'', dir_stat 0 0), (''/run/firejail/x11'', dir_stat 0 0),
      (''/run/firejail/appimage'', dir_stat 0 0),
      (''/run/firejail/firejail.ro.dir'', dir_stat 0 0),
      (''/run/firejail/firejail.ro.file'', file_stat 0 0),
      (''/run/firejail/mnt'', dir_stat 0 0),
      (''/etc'', dir_stat 0 0), (''/etc/passwd'', file_stat 0 0),
      (''/home/user'', dir_stat 1000 1000),
      (''/home/user/.ssh'', dir_stat 1000 1000), (''/home/user/.gnupg'', dir_stat 1000 1000),
      (''/home/user/notes'', file_stat 1000 1000),
      (''/usr/bin'', dir_stat 0 0), (''/bin/bash'', file_stat 0 0)]"

definition initial :: "'w \<Rightarrow> 'w st" where
  "initial w =
     \<lparr>world = w, trace = [], tmpfs_mounted = False, last_disable = UNSUCCESSFUL,
      mask_x11_abstract_socket = False, apply_caps = False, caps = 0, apply_seccomp = False,
      arg_nogroups = False, arg_noroot = False, cfg_cpus = 0, cfg_cgroup = None,
      arg_doubledash = False, cfg_command_line = None, cfg_window_title = None,
      cfg_shell = None\<rparr>"

text \<open>
  The same system on a distribution where \<^verbatim>\<open>/bin\<close> is a symbolic link to \<^verbatim>\<open>/usr/bin\<close>.
\<close>

definition link_kernel :: "files kernel" where
  "link_kernel =
     demo_kernel
       \<lparr>k_realpath := (\<lambda>p w. if p = ''/bin'' then Rp_ok ''/usr/bin'' else k_realpath demo_kernel p w),
        x_is_link := (\<lambda>p w. p = ''/bin'')\<rparr>"


definition tmpfs_over :: "string \<Rightarrow> syscall" where
  "tmpfs_over fname =
     Mount (Some ''tmpfs'') fname (Some ''tmpfs'') [MS_NOSUID, MS_NODEV, MS_STRICTATIME, MS_REC] None"



text \<open>
  The denial step with a trap: denying a path that matches the pattern \<open>P\<close> kills the
  process, every other path is denied as \<open>deny\<close> does.  A run that is the same with and
  without the trap never denies a path that matches \<open>P\<close>.
\<close>

definition trapped :: "'w kernel \<Rightarrow> string \<Rightarrow> 'w denial \<Rightarrow> 'w denial" where
  "trapped K P deny op path s =
     (if k_fnmatch K P path = Fnm_match then Abort s else deny op path s)"

text \<open>The lines \<^verbatim>\<open>fs_blacklist\<close> recognises: ignored, \<^verbatim>\<open>bind\<close>, \<^verbatim>\<open>noblacklist\<close>, or an operation.\<close>

definition recognized :: "string \<Rightarrow> bool" where
  "recognized entry =
     (ignored_line entry \<or> strncmp_eq entry ''bind '' 5 \<or> strncmp_eq entry ''noblacklist '' 12
      \<or> parse_operation entry \<noteq> None)"

text \<open>The demo system after \<^verbatim>\<open>/home/user/.gnupg\<close> alone has been denied.\<close>

definition only_gnupg_denied :: "files st" where
  "only_gnupg_denied =
     (initial demo_files)
       \<lparr>trace := [Sys (donor_mount ''/run/firejail/firejail.ro.dir'' ''/home/user/.gnupg''),
                  Logger2 ''blacklist'' ''/home/user/.gnupg''],
        last_disable := SUCCESSFUL\<rparr>"

text \<open>
  The part of the state that \<^verbatim>\<open>join\<close> fills from the target process, and the state in which
  none of it is set.
\<close>

definition join_context ::
  "'w st \<Rightarrow> bool \<times> nat \<times> bool \<times> nat \<times> string option \<times> bool \<times> bool" where
  "join_context s =
     (apply_caps s, caps s, apply_seccomp s, cfg_cpus s, cfg_cgroup s, arg_nogroups s,
      arg_noroot s)"

definition no_context :: "'w st \<Rightarrow> bool" where
  "no_context s =
     (\<not> apply_caps s \<and> \<not> apply_seccomp s \<and> cfg_cpus s = 0 \<and> cfg_cgroup s = None
      \<and> \<not> arg_nogroups s \<and> \<not> arg_noroot s)"

text \<open>
  The events by which a joining process reads the target's resource configuration or
  restricts itself: loading the cpu and cgroup files, setting the cgroup, the cpu affinity,
  the capability filter, the seccomp filter, entering the user namespace, and dropping the
  supplementary groups.
\<close>

fun restriction :: "event \<Rightarrow> bool" where
  "restriction (Ext (Load_cpu f)) = True"
| "restriction (Ext (Load_cgroup f)) = True"
| "restriction (Ext (Set_cgroup g)) = True"
| "restriction (Ext Set_cpu_affinity) = True"
| "restriction (Ext (Caps_set m)) = True"
| "restriction (Ext Seccomp_set) = True"
| "restriction (Ext (Drop_privs nogroups)) = nogroups"
| "restriction (Sys (Join_namespace pid type)) = (type = ''user'')"
| "restriction e = False"

text \<open>The part of \<^verbatim>\<open>join\<close> between the redirection to the first child and the fork.\<close>

definition before_fork :: "'w kernel \<Rightarrow> config \<Rightarrow> int \<Rightarrow> 'w st \<Rightarrow> 'w st outcome" where
  "before_fork K C pid s =
     and_then (check_join_privileges K pid s) (\<lambda>s.
     and_then (extract_context K C pid s) (\<lambda>s.
     join_namespaces K C pid s))"

text \<open>
  The demo system seen by root, by root in the child of the fork, and by a user who is not
  the owner of the sandbox.
\<close>

definition root_kernel :: "files kernel" where
  "root_kernel = demo_kernel\<lparr>k_getuid := (\<lambda>w. 0)\<rparr>"

definition root_child_kernel :: "files kernel" where
  "root_child_kernel = demo_kernel\<lparr>k_getuid := (\<lambda>w. 0), k_fork := (\<lambda>w. 0)\<rparr>"


text \<open>States of a join of process 100 on the demo system, by its owner.\<close>

definition demo_join_entered :: "files st" where
  "demo_join_entered = (initial demo_files)\<lparr>trace := [Ext EUID_ASSERT]\<rparr>"

definition demo_join_command :: "files st" where
  "demo_join_command = (initial demo_files)\<lparr>trace := [Ext EUID_ASSERT, Ext EUID_ASSERT]\<rparr>"

definition demo_join_before_fork :: "files st" where
  "demo_join_before_fork =
     (initial demo_files)
       \<lparr>trace := [Ext EUID_ASSERT, Ext EUID_ASSERT, Sys Seteuid_root, Sys Seteuid_user,
                  Sys Seteuid_root,
                  Sys (Join_namespace 100 ''ipc''), Sys (Join_namespace 100 ''net''),
                  Sys (Join_namespace 100 ''pid''), Sys (Join_namespace 100 ''uts''),
                  Sys (Join_namespace 100 ''mnt'')],
        apply_caps := True, caps := 274877906943, apply_seccomp := True\<rparr>"

text \<open>A mount of one of the two overlay file system types.\<close>

fun overlay_mount_event :: "event \<Rightarrow> bool" where
  "overlay_mount_event (Sys (Mount src tgt fstype flags opts)) =
     (fstype = Some ''overlay'' \<or> fstype = Some ''overlayfs'')"
| "overlay_mount_event e = False"

text \<open>
  The events by which a run is followed below: a change of root, a mount of an overlay type,
  and a mount of a tmpfs with an option string.  The staging tmpfs is mounted with options;
  the tmpfs of a \<^verbatim>\<open>tmpfs\<close> directive has none, and the binds and the donor mounts are of
  other types.
\<close>

fun landmark :: "event \<Rightarrow> bool" where
  "landmark (Sys (Mount src tgt fstype flags opts)) =
     (fstype = Some ''overlay'' \<or> fstype = Some ''overlayfs''
      \<or> (fstype = Some ''tmpfs'' \<and> opts \<noteq> None))"
| "landmark (Sys (Chroot d)) = True"
| "landmark e = False"

fun is_chroot :: "event \<Rightarrow> bool" where
  "is_chroot (Sys (Chroot d)) = True"
| "is_chroot e = False"

text \<open>The demo system for root, with every system call succeeding and changing nothing.\<close>

definition calm_kernel :: "files kernel" where
  "calm_kernel = demo_kernel\<lparr>k_sys := (\<lambda>c w. (True, w)), k_getuid := (\<lambda>w. 0)\<rparr>"

text \<open>The same system reporting an older kernel, and a configuration asking for a kept overlay.\<close>

definition legacy_kernel :: "files kernel" where
  "legacy_kernel = calm_kernel\<lparr>k_uname := (\<lambda>w. Some (''3.10.0'', ''#1 SMP''))\<rparr>"

definition ancient_kernel :: "files kernel" where
  "ancient_kernel = calm_kernel\<lparr>k_uname := (\<lambda>w. Some (''2.6.32'', ''#1 SMP''))\<rparr>"

definition keep_config :: config where
  "keep_config = demo_config\<lparr>arg_overlay_keep := True\<rparr>"

text \<open>An outcome that is one of the two this code can produce by itself, and a fatal one.\<close>

fun ordinary :: "'s outcome \<Rightarrow> bool" where
  "ordinary (Return s) = True"
| "ordinary (Exit n s) = True"
| "ordinary (Abort s) = False"
| "ordinary (Exec s) = False"
| "ordinary (Undefined s) = False"

fun fatal :: "'s outcome \<Rightarrow> bool" where
  "fatal (Exit n s) = True"
| "fatal (Return s) = False"
| "fatal (Abort s) = False"
| "fatal (Exec s) = False"
| "fatal (Undefined s) = False"

text \<open>The runs of the overlay composer on that system, under the demo configuration.\<close>

definition overlay_prepared :: "event list" where
  "overlay_prepared =
     [Sys (Mount (Some ''tmpfs'') ''/run/firejail/mnt'' (Some ''tmpfs'')
             [MS_NOSUID, MS_STRICTATIME, MS_REC] (Some ''mode=755,gid=0'')),
      Logger2 ''tmpfs'' ''/run/firejail/mnt'',
      Sys (Mkdir ''/run/firejail/mnt/oroot'' 493),
      Sys (Chmod ''/run/firejail/mnt/oroot'' 493),
      Ext (ASSERT_PERMS ''/run/firejail/mnt/oroot'' 0 0 493),
      Sys (Mkdir ''/run/firejail/mnt/odiff'' 493),
      Sys (Chown ''/run/firejail/mnt/odiff'' 0 0),
      Sys (Chmod ''/run/firejail/mnt/odiff'' 493),
      Sys (Mkdir ''/run/firejail/mnt/owork'' 493),
      Sys (Chown ''/run/firejail/mnt/owork'' 0 0),
      Sys (Chmod ''/run/firejail/mnt/owork'' 493)]"

definition overlay_entered :: "event list" where
  "overlay_entered =
     [Stdout (''OverlayFS configured in /run/firejail/mnt directory'' @ nl),
      Sys (Mount (Some ''/dev'') ''/run/firejail/mnt/oroot/dev'' None [MS_BIND, MS_REC] None),
      Logger ''whitelist /dev'',
      Sys (Mount (Some ''/run'') ''/run/firejail/mnt/oroot/run'' None [MS_BIND, MS_REC] None),
      Logger ''whitelist /run'',
      Sys (Chroot ''/run/firejail/mnt/oroot''),
      Ext Fs_dev_shm, Ext Fs_var_lock, Ext Fs_var_tmp, Ext Fs_var_log, Ext Fs_var_lib,
      Ext Fs_var_cache, Ext Fs_var_utmp, Ext Restrict_users]"

definition modern_run :: "event list" where
  "modern_run =
     overlay_prepared
     @ [Sys (Mount (Some ''overlay'') ''/run/firejail/mnt/oroot'' (Some ''overlay'') [MS_MGC_VAL]
               (Some ''lowerdir=/,upperdir=/run/firejail/mnt/odiff,workdir=/run/firejail/mnt/owork'')),
        Sys (Mkdir ''/run/firejail/mnt/hdiff'' 511),
        Sys (Chown ''/run/firejail/mnt/hdiff'' 0 0),
        Sys (Chmod ''/run/firejail/mnt/hdiff'' 493),
        Sys (Mkdir ''/run/firejail/mnt/hwork'' 511),
        Sys (Chown ''/run/firejail/mnt/hwork'' 0 0),
        Sys (Chmod ''/run/firejail/mnt/hwork'' 493),
        Sys (Mount (Some ''overlay'') ''/run/firejail/mnt/oroot/home'' (Some ''overlay'')
               [MS_MGC_VAL]
               (Some ''lowerdir=/home,upperdir=/run/firejail/mnt/hdiff,workdir=/run/firejail/mnt/hwork'')),
        Stdout (''OverlayFS for /home configured in /run/firejail/mnt directory'' @ nl)]
     @ overlay_entered"

definition legacy_run :: "event list" where
  "legacy_run =
     overlay_prepared
     @ [Sys (Mount (Some ''overlayfs'') ''/run/firejail/mnt/oroot'' (Some ''overlayfs'')
               [MS_MGC_VAL] (Some ''lowerdir=/,upperdir=/run/firejail/mnt/odiff''))]
     @ overlay_entered"

text \<open>The run of \<^verbatim>\<open>fs_chroot\<close> into \<^verbatim>\<open>/srv/jail\<close> on the same system.\<close>

definition chroot_run :: "event list" where
  "chroot_run =
     [Sys (Mount (Some ''/dev'') ''/srv/jail/dev'' None [MS_BIND, MS_REC] None),
      Sys (Mkdir ''/srv/jail/run'' 493),
      Sys (Chown ''/srv/jail/run'' 0 0),
      Sys (Copy_file ''/etc/resolv.conf'' ''/srv/jail/etc/resolv.conf'' 0 0 420),
      Sys (Chroot ''/srv/jail''),
      Sys (Mount (Some ''tmpfs'') ''/run/firejail/mnt'' (Some ''tmpfs'')
             [MS_NOSUID, MS_STRICTATIME, MS_REC] (Some ''mode=755,gid=0'')),
      Logger2 ''tmpfs'' ''/run/firejail/mnt'',
      Ext Fs_dev_shm, Ext Fs_var_lock, Ext Fs_var_tmp, Ext Fs_var_log, Ext Fs_var_lib,
      Ext Fs_var_cache, Ext Fs_var_utmp, Ext Restrict_users]"

text \<open>The run of the overlay composer for a kept overlay on the older kernel.\<close>

definition keep_refused_run :: "event list" where
  "keep_refused_run =
     [Sys (Mount (Some ''tmpfs'') ''/run/firejail/mnt'' (Some ''tmpfs'')
             [MS_NOSUID, MS_STRICTATIME, MS_REC] (Some ''mode=755,gid=0'')),
      Logger2 ''tmpfs'' ''/run/firejail/mnt'',
      Sys (Mkdir ''/run/firejail/mnt/oroot'' 493),
      Sys (Chmod ''/run/firejail/mnt/oroot'' 493),
      Ext (ASSERT_PERMS ''/run/firejail/mnt/oroot'' 0 0 493),
      Sys (Mkdir ''/home/user/.firejail/keep'' 493),
      Sys (Mkdir ''/home/user/.firejail/keep/odiff'' 493),
      Sys (Chown ''/home/user/.firejail/keep/odiff'' 0 0),
      Sys (Chmod ''/home/user/.firejail/keep/odiff'' 493),
      Sys (Mkdir ''/home/user/.firejail/keep/owork'' 493),
      Sys (Chown ''/home/user/.firejail/keep/owork'' 0 0),
      Sys (Chmod ''/home/user/.firejail/keep/owork'' 493),
      Stderr (''Error: option --overlay= not available for kernels older than 3.18'' @ nl)]"

section \<open>How pieces of a run compose\<close>

lemmas demo_defs = demo_kernel_def demo_config_def demo_macros_def demo_files_def initial_def
  dir_stat_def file_stat_def demo_glob_def demo_basename_def demo_split_comma_def

lemmas step_defs = unless_stat_def when_stat_def sys_or_die_def sys_def ext_def emit_def
  dbg_def errExit_def nl_def S_ISDIR_def

lemmas staging_defs = fs_build_firejail_dir_def check_firejail_dir_def create_empty_dir_def
  create_empty_file_def create_dir_as_root_def

lemma adds_iff: "adds P s s' = (\<exists>evs. trace s' = trace s @ evs \<and> list_all P evs)"
  unfolding adds_def by (metis append_eq_conv_conj)

lemma frame_trace: "frame g \<Longrightarrow> g (s\<lparr>trace := t\<rparr>) = g s"
proof -
  assume "frame g"
  then have "g (s\<lparr>world := world s, trace := t\<rparr>) = g s"
    unfolding frame_def by blast
  then show ?thesis by simp
qed

lemma frame_world_trace: "frame g \<Longrightarrow> g (s\<lparr>world := w, trace := t\<rparr>) = g s"
  unfolding frame_def by blast

lemma keeps_refl: "keeps P g s s"
  by (simp add: keeps_def adds_iff)

lemma keeps_trans: "keeps P g s s1 \<Longrightarrow> keeps P g s1 s2 \<Longrightarrow> keeps P g s s2"
  by (auto simp: keeps_def adds_iff)

lemma keeps_mono: "keeps P g s s' \<Longrightarrow> (\<And>e. P e \<Longrightarrow> Q e) \<Longrightarrow> keeps Q g s s'"
  by (auto simp: keeps_def adds_iff list_all_iff)

lemma keeps_adds: "keeps P g s s' \<Longrightarrow> adds P s s'"
  by (simp add: keeps_def)

lemma keeps_emit: "frame g \<Longrightarrow> P e \<Longrightarrow> keeps P g s (emit e s)"
  by (simp add: keeps_def adds_iff emit_def frame_trace)

lemma keeps_and_then:
  "keeps P g s (state_of r) \<Longrightarrow> (\<And>s1. r = Return s1 \<Longrightarrow> keeps P g s1 (state_of (f s1)))
   \<Longrightarrow> keeps P g s (state_of (and_then r f))"
  by (cases r) (auto intro: keeps_trans)

lemma keeps_dbg: "frame g \<Longrightarrow> P (Stdout m) \<Longrightarrow> keeps P g s (dbg C m s)"
  by (simp add: dbg_def keeps_emit keeps_refl)

lemma keeps_sys: "frame g \<Longrightarrow> P (Sys c) \<Longrightarrow> keeps P g s (snd (sys K c s))"
  by (simp add: sys_def keeps_def adds_iff frame_world_trace)

lemma keeps_sys_or_die:
  "frame g \<Longrightarrow> P (Sys c) \<Longrightarrow> P (Perror m) \<Longrightarrow> keeps P g s (state_of (sys_or_die K c m s))"
  by (simp add: sys_or_die_def errExit_def sys_def emit_def keeps_def adds_iff
      frame_world_trace frame_trace)

lemma keeps_ext: "frame g \<Longrightarrow> P (Ext c) \<Longrightarrow> keeps P g s (state_of (ext K c s))"
  by (simp add: ext_def keeps_def adds_iff frame_world_trace split: option.splits)

lemma keeps_unless_stat:
  "(\<And>s. keeps P g s (state_of (f s))) \<Longrightarrow> keeps P g s (state_of (unless_stat K p f s))"
  by (simp add: unless_stat_def keeps_refl split: option.splits)

lemma keeps_when_stat:
  "(\<And>s. keeps P g s (state_of (f s))) \<Longrightarrow> keeps P g s (state_of (when_stat K p f s))"
  by (simp add: when_stat_def keeps_refl split: option.splits)

text \<open>
  The staging directory is rebuilt with \<^verbatim>\<open>stat\<close>, \<^verbatim>\<open>mkdir\<close>, \<^verbatim>\<open>chmod\<close> and \<^verbatim>\<open>fopen\<close> only: it
  mounts nothing and logs nothing, and it leaves the program's variables alone.
\<close>

lemma keeps_create_dir_as_root:
  "frame g \<Longrightarrow> (\<And>e. quiet e \<Longrightarrow> P e) \<Longrightarrow> keeps P g s (state_of (create_dir_as_root K C d m s))"
  unfolding create_dir_as_root_def
  by (intro keeps_and_then keeps_trans[OF keeps_dbg keeps_sys_or_die] keeps_sys_or_die keeps_ext)
     (auto simp: quiet_def)

lemma keeps_create_empty_dir:
  "frame g \<Longrightarrow> (\<And>e. quiet e \<Longrightarrow> P e) \<Longrightarrow> keeps P g s (state_of (create_empty_dir K C s))"
  unfolding create_empty_dir_def
  by (intro keeps_unless_stat keeps_and_then keeps_sys_or_die keeps_ext)
     (auto simp: quiet_def)

lemma keeps_create_empty_file:
  "frame g \<Longrightarrow> (\<And>e. quiet e \<Longrightarrow> P e) \<Longrightarrow> keeps P g s (state_of (create_empty_file K C s))"
  unfolding create_empty_file_def
  by (intro keeps_unless_stat keeps_and_then keeps_sys_or_die keeps_ext)
     (auto intro!: keeps_sys simp: quiet_def)

lemma keeps_check_firejail_dir:
  "frame g \<Longrightarrow> (\<And>e. quiet e \<Longrightarrow> P e) \<Longrightarrow> keeps P g s (state_of (check_firejail_dir K C s))"
  unfolding check_firejail_dir_def
  by (auto split: option.splits intro!: keeps_emit keeps_refl keeps_create_dir_as_root
      simp: quiet_def)

lemma keeps_fs_build_firejail_dir:
  "frame g \<Longrightarrow> (\<And>e. quiet e \<Longrightarrow> P e) \<Longrightarrow> keeps P g s (state_of (fs_build_firejail_dir K C s))"
  unfolding fs_build_firejail_dir_def
  by (intro keeps_and_then keeps_unless_stat keeps_create_dir_as_root keeps_check_firejail_dir
        keeps_create_empty_dir keeps_create_empty_file)

lemma frame_last_disable: "frame last_disable"
  by (simp add: frame_def)

lemma frame_tmpfs_mounted: "frame tmpfs_mounted"
  by (simp add: frame_def)

lemma demo_staging_present:
  "fs_build_firejail_dir demo_kernel demo_config (initial demo_files) = Return (initial demo_files)"
  by (simp add: demo_defs step_defs staging_defs)

section \<open>Denying a path that does not exist\<close>

lemma absent_resolve:
  "target_absent K filename (world s) \<Longrightarrow>
   \<exists>s'. resolve_and_modify K C op filename s = Return s' \<and> world s' = world s
        \<and> keeps quiet last_disable s s'"
  unfolding target_absent_def resolve_and_modify_def
  by (auto split: realpath_result.splits
      simp: keeps_refl dbg_def emit_def keeps_def adds_iff quiet_def)

text \<open>
  C9.  A denial (of any operation, in particular \<^verbatim>\<open>blacklist\<close> and \<^verbatim>\<open>blacklist-nolog\<close>) whose
  target does not exist is a no-op: given that the rebuild of the staging directory at the
  start of \<^verbatim>\<open>disable_file\<close> returned (in state \<open>s1\<close>), \<^verbatim>\<open>disable_file\<close> returns to its
  caller, the world is the one the rebuild left, everything added to the trace since the
  call is neither a mount system call nor a log entry, and the outcome flag says that
  nothing was disabled.
\<close>

theorem absent_target_is_noop:
  assumes "fs_build_firejail_dir K C (s\<lparr>last_disable := UNSUCCESSFUL\<rparr>) = Return s1"
    and "target_absent K filename (world s1)"
  shows "\<exists>s'. disable_file K C op filename s = Return s' \<and> world s' = world s1
           \<and> adds quiet s s' \<and> last_disable s' = UNSUCCESSFUL"
proof -
  have k: "keeps quiet last_disable (s\<lparr>last_disable := UNSUCCESSFUL\<rparr>) s1"
    using keeps_fs_build_firejail_dir[OF frame_last_disable, of quiet "s\<lparr>last_disable := UNSUCCESSFUL\<rparr>" K C]
      assms(1) by simp
  obtain s' where r: "resolve_and_modify K C op filename s1 = Return s'"
      "world s' = world s1" "keeps quiet last_disable s1 s'"
    using absent_resolve[OF assms(2)] by blast
  from k r(3) have "keeps quiet last_disable (s\<lparr>last_disable := UNSUCCESSFUL\<rparr>) s'"
    by (rule keeps_trans)
  then have "adds quiet s s' \<and> last_disable s' = UNSUCCESSFUL"
    by (simp add: keeps_def adds_iff)
  then show ?thesis using r assms(1) by (simp add: disable_file_def)
qed

theorem absent_target_is_noop_witness:
  "fs_build_firejail_dir demo_kernel demo_config ((initial demo_files)\<lparr>last_disable := UNSUCCESSFUL\<rparr>)
     = Return (initial demo_files)
   \<and> target_absent demo_kernel ''/home/user/.config/none'' (world (initial demo_files))
   \<and> (\<exists>s'. disable_file demo_kernel demo_config BLACKLIST_NOLOG ''/home/user/.config/none''
              (initial demo_files) = Return s'
          \<and> world s' = world (initial demo_files) \<and> adds quiet (initial demo_files) s'
          \<and> last_disable s' = UNSUCCESSFUL)"
proof -
  have a: "fs_build_firejail_dir demo_kernel demo_config
             ((initial demo_files)\<lparr>last_disable := UNSUCCESSFUL\<rparr>) = Return (initial demo_files)"
    using demo_staging_present by (simp add: initial_def)
  have b: "target_absent demo_kernel ''/home/user/.config/none'' (world (initial demo_files))"
    by (simp add: target_absent_def demo_defs)
  show ?thesis
    using absent_target_is_noop[OF a b, of BLACKLIST_NOLOG] a b by simp
qed

section \<open>The donor of a denial\<close>

lemma disable_file_resolved:
  assumes "fs_build_firejail_dir K C (s\<lparr>last_disable := UNSUCCESSFUL\<rparr>) = Return s1"
    and "k_realpath K filename (world s1) = Rp_ok fname"
    and "k_stat K fname (world s1) = Some x"
  shows "disable_file K C op filename s = modify_file K C op filename fname x s1"
  using assms by (simp add: disable_file_def resolve_and_modify_def)

lemma blacklist_mount_donor:
  "blacklist_mount K C op filename fname x s =
     (if bin_link_exempt K filename fname x s
      then Return (emit (Stderr (''Warning: '' @ filename
                                  @ '' directory link was not blacklisted'' @ nl)) s)
      else and_then (sys_or_die K (donor_mount (donor_for C x) fname) ''disable file''
                       (print_disable C op fname s))
             (\<lambda>s. Return (log_blacklist op fname (s\<lparr>last_disable := SUCCESSFUL\<rparr>))))"
  by (simp add: blacklist_mount_def donor_for_def)

text \<open>
  C6, as the code has it.  For a blacklist target that resolves to \<open>fname\<close> with \<^verbatim>\<open>stat\<close>
  snapshot \<open>x\<close>: unless the exemption for a symbolic link \<^verbatim>\<open>/bin\<close> or \<^verbatim>\<open>/usr/bin\<close> applies
  (then there is only a warning and nothing is mounted), the denial issues exactly one
  mount, the bind mount of \<open>donor_for C x\<close> over \<open>fname\<close>, and \<open>donor_for C x\<close> is the directory
  donor when the snapshot is a directory and the file donor otherwise.  The donor is a
  function of the snapshot alone: neither the operation nor the path as written enters it.
\<close>

theorem donor_by_snapshot_type:
  assumes "fs_build_firejail_dir K C (s\<lparr>last_disable := UNSUCCESSFUL\<rparr>) = Return s1"
    and "k_realpath K filename (world s1) = Rp_ok fname"
    and "k_stat K fname (world s1) = Some x"
    and "op = BLACKLIST_FILE \<or> op = BLACKLIST_NOLOG"
  shows "disable_file K C op filename s =
           (if bin_link_exempt K filename fname x s1
            then Return (emit (Stderr (''Warning: '' @ filename
                                        @ '' directory link was not blacklisted'' @ nl)) s1)
            else and_then (sys_or_die K (donor_mount (donor_for C x) fname) ''disable file''
                             (print_disable C op fname s1))
                   (\<lambda>s. Return (log_blacklist op fname (s\<lparr>last_disable := SUCCESSFUL\<rparr>))))
         \<and> donor_for C x = (if S_ISDIR (st_mode x) then RUN_RO_DIR (paths C)
                             else RUN_RO_FILE (paths C))"
  using assms(4) disable_file_resolved[OF assms(1-3), of op]
  by (auto simp: blacklist_mount_donor donor_for_def)

lemmas denial_defs = disable_file_def resolve_and_modify_def blacklist_mount_def
  bin_link_exempt_def print_disable_def log_blacklist_def donor_mount_def donor_for_def

lemma demo_staging_again:
  "fs_build_firejail_dir demo_kernel demo_config
     ((initial demo_files)\<lparr>last_disable := UNSUCCESSFUL\<rparr>) = Return (initial demo_files)"
  using demo_staging_present by (simp add: initial_def)

lemma demo_resolves:
  "map_of demo_files p = Some x \<Longrightarrow>
   k_realpath demo_kernel p (world (initial demo_files)) = Rp_ok p
   \<and> k_stat demo_kernel p (world (initial demo_files)) = Some x"
  by (simp add: demo_kernel_def initial_def)

lemma demo_ssh: "map_of demo_files ''/home/user/.ssh'' = Some (dir_stat 1000 1000)"
  by (simp add: demo_files_def)

lemma demo_notes: "map_of demo_files ''/home/user/notes'' = Some (file_stat 1000 1000)"
  by (simp add: demo_files_def)

lemma demo_sys_donor:
  "map_of w tgt = Some x \<Longrightarrow> k_sys demo_kernel (donor_mount donor tgt) w = (True, w)"
  by (simp add: demo_kernel_def donor_mount_def)

theorem donor_by_snapshot_type_witness:
  "disable_file demo_kernel demo_config BLACKLIST_FILE ''/home/user/.ssh'' (initial demo_files)
     = Return ((initial demo_files)
         \<lparr>trace := [Sys (donor_mount ''/run/firejail/firejail.ro.dir'' ''/home/user/.ssh''),
                    Logger2 ''blacklist'' ''/home/user/.ssh''],
          last_disable := SUCCESSFUL\<rparr>)
   \<and> disable_file demo_kernel demo_config BLACKLIST_NOLOG ''/home/user/notes'' (initial demo_files)
     = Return ((initial demo_files)
         \<lparr>trace := [Sys (donor_mount ''/run/firejail/firejail.ro.file'' ''/home/user/notes''),
                    Logger2 ''blacklist-nolog'' ''/home/user/notes''],
          last_disable := SUCCESSFUL\<rparr>)"
proof -
  note d = demo_resolves[OF demo_ssh]
  note f = demo_resolves[OF demo_notes]
  have ex: "\<not> bin_link_exempt demo_kernel p q x s" for p q x s
    by (simp add: bin_link_exempt_def demo_kernel_def)
  have w: "world (initial demo_files) = demo_files" "trace (initial demo_files) = []"
    by (simp_all add: initial_def)
  have dd: "donor_for demo_config (dir_stat 1000 1000) = ''/run/firejail/firejail.ro.dir''"
    "donor_for demo_config (file_stat 1000 1000) = ''/run/firejail/firejail.ro.file''"
    by (simp_all add: donor_for_def demo_config_def demo_macros_def dir_stat_def file_stat_def S_ISDIR_def)
  have pd: "print_disable demo_config op p s = s" for op p s
    by (simp add: print_disable_def demo_config_def)
  have "disable_file demo_kernel demo_config BLACKLIST_FILE ''/home/user/.ssh'' (initial demo_files)
     = Return ((initial demo_files)
         \<lparr>trace := [Sys (donor_mount ''/run/firejail/firejail.ro.dir'' ''/home/user/.ssh''),
                    Logger2 ''blacklist'' ''/home/user/.ssh''],
          last_disable := SUCCESSFUL\<rparr>)"
    using donor_by_snapshot_type[OF demo_staging_again d[THEN conjunct1] d[THEN conjunct2],
        of BLACKLIST_FILE]
    by (simp add: ex dd pd w sys_or_die_def sys_def demo_sys_donor[OF demo_ssh] log_blacklist_def
        emit_def)
  moreover have "disable_file demo_kernel demo_config BLACKLIST_NOLOG ''/home/user/notes''
       (initial demo_files)
     = Return ((initial demo_files)
         \<lparr>trace := [Sys (donor_mount ''/run/firejail/firejail.ro.file'' ''/home/user/notes''),
                    Logger2 ''blacklist-nolog'' ''/home/user/notes''],
          last_disable := SUCCESSFUL\<rparr>)"
    using donor_by_snapshot_type[OF demo_staging_again f[THEN conjunct1] f[THEN conjunct2],
        of BLACKLIST_NOLOG]
    by (simp add: ex dd pd w sys_or_die_def sys_def demo_sys_donor[OF demo_notes] log_blacklist_def
        emit_def)
  ultimately show ?thesis by simp
qed

lemma staging_same_kernel:
  assumes "k_sys K' = k_sys K" and "k_ext K' = k_ext K" and "k_stat K' = k_stat K"
  shows "fs_build_firejail_dir K' C s = fs_build_firejail_dir K C s"
  unfolding staging_defs unless_stat_def sys_or_die_def sys_def ext_def
  by (simp only: assms)

lemma link_staging_present:
  "fs_build_firejail_dir link_kernel demo_config
     ((initial demo_files)\<lparr>last_disable := UNSUCCESSFUL\<rparr>) = Return (initial demo_files)"
proof -
  have "fs_build_firejail_dir link_kernel demo_config s
          = fs_build_firejail_dir demo_kernel demo_config s" for s
    by (rule staging_same_kernel) (simp_all add: link_kernel_def)
  then show ?thesis using demo_staging_again by simp
qed

text \<open>
  The claim as stated fails where \<^verbatim>\<open>/bin\<close> is a symbolic link to the directory \<^verbatim>\<open>/usr/bin\<close>:
  the target resolves, exists and is a directory, and no donor is mounted over it.
\<close>

theorem donor_by_snapshot_type_counterexample:
  "k_realpath link_kernel ''/bin'' demo_files = Rp_ok ''/usr/bin''
   \<and> map_option (\<lambda>x. S_ISDIR (st_mode x)) (k_stat link_kernel ''/usr/bin'' demo_files) = Some True
   \<and> disable_file link_kernel demo_config BLACKLIST_FILE ''/bin'' (initial demo_files)
       = Return ((initial demo_files)
           \<lparr>trace := [Stderr (''Warning: /bin directory link was not blacklisted'' @ nl)]\<rparr>)
   \<and> \<not> list_ex is_mount
         (trace (state_of (disable_file link_kernel demo_config BLACKLIST_FILE ''/bin''
                             (initial demo_files))))"
proof -
  have u: "map_of demo_files ''/usr/bin'' = Some (dir_stat 0 0)"
    by (simp add: demo_files_def)
  have w: "world (initial demo_files) = demo_files" "trace (initial demo_files) = []"
    by (simp_all add: initial_def)
  have r: "k_realpath link_kernel ''/bin'' demo_files = Rp_ok ''/usr/bin''"
    "k_stat link_kernel ''/usr/bin'' demo_files = Some (dir_stat 0 0)"
    "x_is_link link_kernel ''/bin'' demo_files"
    using u by (simp_all add: link_kernel_def demo_kernel_def)
  have d: "S_ISDIR (st_mode (dir_stat 0 0))"
    by (simp add: dir_stat_def S_ISDIR_def)
  have "disable_file link_kernel demo_config BLACKLIST_FILE ''/bin'' (initial demo_files)
       = Return ((initial demo_files)
           \<lparr>trace := [Stderr (''Warning: /bin directory link was not blacklisted'' @ nl)]\<rparr>)"
    using link_staging_present r d
    by (simp add: disable_file_def resolve_and_modify_def blacklist_mount_def bin_link_exempt_def
        w emit_def)
  then show ?thesis using r d by simp
qed

section \<open>Replacing a directory by a tmpfs\<close>


lemma sys_or_die_returns:
  "sys_or_die K c m s = Return s' \<longleftrightarrow> fst (k_sys K c (world s)) \<and> s' = snd (sys K c s)"
  by (auto simp: sys_or_die_def sys_def errExit_def)







section \<open>Exceptions come before the denials they suppress\<close>

lemma scan_okay:
  "exception_scan K nb path = Okay_to_blacklist \<Longrightarrow> P \<in> set nb \<Longrightarrow>
   k_fnmatch K P path = Fnm_nomatch"
  by (induction nb) (auto split: fnmatch_result.splits)

lemma trapped_off:
  "exception_scan K nb path = Okay_to_blacklist \<Longrightarrow> P \<in> set nb \<Longrightarrow>
   trapped K P deny op path s = deny op path s"
  using scan_okay[of K nb path P] by (simp add: trapped_def)

lemma glob_loop_trapped:
  "P \<in> set nb \<Longrightarrow>
   glob_loop K C (trapped K P deny) op nb pathv s = glob_loop K C deny op nb pathv s"
proof (induction pathv arbitrary: s)
  case Nil
  show ?case by simp
next
  case (Cons path rest)
  have fe: "glob_loop K C (trapped K P deny) op nb rest = glob_loop K C deny op nb rest"
    using Cons by (intro ext) simp
  show ?case
  proof (cases "exception_scan K nb path")
    case Okay_to_blacklist
    then show ?thesis
      using Cons by (simp add: trapped_off fe)
  next
    case Excepted
    then show ?thesis using Cons by simp
  next
    case (Compare_failed p)
    then show ?thesis using Cons by simp
  qed
qed

lemma globbing_trapped:
  "P \<in> set nb \<Longrightarrow>
   globbing K C (trapped K P deny) op pattern nb s = globbing K C deny op pattern nb s"
  by (simp add: globbing_def glob_loop_trapped split: option.splits)

lemma glob_each_trapped:
  "P \<in> set nb \<Longrightarrow>
   glob_each K C (trapped K P deny) op nb patterns s = glob_each K C deny op nb patterns s"
proof (induction patterns arbitrary: s)
  case Nil
  show ?case by simp
next
  case (Cons pattern others)
  have "glob_each K C (trapped K P deny) op nb others = glob_each K C deny op nb others"
    using Cons by (intro ext) simp
  then show ?case using Cons.prems by (simp add: globbing_trapped)
qed

lemma apply_operation_trapped:
  "P \<in> set nb \<Longrightarrow>
   apply_operation K C (trapped K P deny) home op arg nb s
     = apply_operation K C deny home op arg nb s"
  by (simp add: apply_operation_def globbing_trapped glob_each_trapped split: option.splits)

lemma profile_loop_trapped:
  "P \<in> set nb \<Longrightarrow>
   profile_loop K C (trapped K P deny) home nb entries s = profile_loop K C deny home nb entries s"
proof (induction entries arbitrary: nb s)
  case Nil
  show ?case by simp
next
  case (Cons entry rest)
  have grow: "P \<in> set (nb @ names)" for names using Cons.prems by simp
  have fe: "profile_loop K C (trapped K P deny) home nb rest = profile_loop K C deny home nb rest"
    using Cons.IH[OF Cons.prems] by (intro ext) simp
  show ?case
    using Cons.IH[OF grow] Cons.IH[OF Cons.prems] Cons.prems
    by (simp add: apply_operation_trapped fe split: option.splits)
qed

lemma noblacklist_line:
  "\<not> ignored_line (''noblacklist '' @ pat) \<and> \<not> strncmp_eq (''noblacklist '' @ pat) ''bind '' 5
   \<and> strncmp_eq (''noblacklist '' @ pat) ''noblacklist '' 12"
  by (simp add: ignored_line_def strncmp_eq_def)

text \<open>
  C1.  A \<^verbatim>\<open>noblacklist\<close> directive met in any state of the pass (exception list \<open>nb\<close>, state
  \<open>s\<close>, whatever directives came before) and followed by any directives \<open>next\<close>, whose
  names \<open>names\<close> fit the array the source collects them in (they always do, except for a
  \<^verbatim>\<open>${PATH}\<close> line when there are more search directories than \<^verbatim>\<open>sizeof(char **)\<close>, where
  the behaviour of the source is undefined):
  \<^item> the directive itself issues no system call and writes nothing, it hands the state on
    unchanged and only appends its names to the exception list, so a denial that an earlier
    directive has applied stays as it is;
  \<^item> for each name \<open>P\<close> it appends, the rest of the pass is the same run with a trap on the
    denial of any path that \<^verbatim>\<open>fnmatch\<close> matches against \<open>P\<close>: \<^verbatim>\<open>disable_file\<close> is never called
    on such an expansion, for any later directive.
\<close>

theorem noblacklist_before_blacklist:
  assumes "noblacklist_names K home (''noblacklist '' @ pat) (world s) = Some names"
    and "P \<in> set names"
  shows "profile_loop K C (disable_file K C) home nb ((''noblacklist '' @ pat) # next) s
           = profile_loop K C (disable_file K C) home (nb @ names) next s
         \<and> profile_loop K C (disable_file K C) home nb ((''noblacklist '' @ pat) # next) s
           = profile_loop K C (trapped K P (disable_file K C)) home (nb @ names) next s"
proof -
  have "P \<in> set (nb @ names)"
    using assms(2) by simp
  then show ?thesis
    using noblacklist_line[of pat] assms(1) by (simp add: profile_loop_trapped)
qed

lemma demo_staging_any:
  "world s = demo_files \<Longrightarrow> fs_build_firejail_dir demo_kernel demo_config s = Return s"
  by (simp add: demo_kernel_def demo_config_def demo_macros_def demo_files_def dir_stat_def
      file_stat_def step_defs staging_defs)

lemma demo_blacklist:
  assumes "world s = demo_files" and "map_of demo_files p = Some x"
    and "op = BLACKLIST_FILE \<or> op = BLACKLIST_NOLOG"
  shows "disable_file demo_kernel demo_config op p s
           = Return (log_blacklist op p
                      (emit (Sys (donor_mount (donor_for demo_config x) p))
                         (s\<lparr>last_disable := SUCCESSFUL\<rparr>)))"
proof -
  have st: "fs_build_firejail_dir demo_kernel demo_config (s\<lparr>last_disable := UNSUCCESSFUL\<rparr>)
              = Return (s\<lparr>last_disable := UNSUCCESSFUL\<rparr>)"
    using assms(1) by (simp add: demo_staging_any)
  have rs: "k_realpath demo_kernel p demo_files = Rp_ok p" "k_stat demo_kernel p demo_files = Some x"
    using assms(2) by (simp_all add: demo_kernel_def)
  have ex: "\<not> bin_link_exempt demo_kernel p p x s'" for s'
    by (simp add: bin_link_exempt_def demo_kernel_def)
  have pd: "print_disable demo_config o' p s' = s'" for o' s'
    by (simp add: print_disable_def demo_config_def)
  have dm: "k_sys demo_kernel (donor_mount d p) demo_files = (True, demo_files)" for d
    using assms(2) by (simp add: demo_kernel_def donor_mount_def)
  have "disable_file demo_kernel demo_config op p s
          = blacklist_mount demo_kernel demo_config op p p x (s\<lparr>last_disable := UNSUCCESSFUL\<rparr>)"
    using assms(1,3) rs by (auto simp: disable_file_def st resolve_and_modify_def)
  also have "\<dots> = Return (log_blacklist op p
                      (emit (Sys (donor_mount (donor_for demo_config x) p))
                         (s\<lparr>last_disable := SUCCESSFUL\<rparr>)))"
    using assms(1)
    by (simp add: blacklist_mount_donor ex pd sys_or_die_def sys_def dm emit_def
        log_blacklist_def)
  finally show ?thesis .
qed

lemma demo_gnupg: "map_of demo_files ''/home/user/.gnupg'' = Some (dir_stat 1000 1000)"
  by (simp add: demo_files_def)

lemma demo_dir_donor: "donor_for demo_config (dir_stat u g) = ''/run/firejail/firejail.ro.dir''"
  by (simp add: donor_for_def demo_config_def demo_macros_def dir_stat_def S_ISDIR_def)

lemma demo_file_donor: "donor_for demo_config (file_stat u g) = ''/run/firejail/firejail.ro.file''"
  by (simp add: donor_for_def demo_config_def demo_macros_def file_stat_def S_ISDIR_def)

lemma demo_initial [simp]:
  "world (initial w) = w" "trace (initial w) = []"
  by (simp_all add: initial_def)

lemmas parse_defs = ignored_line_def strncmp_eq_def parse_operation_def noblacklist_names_def
  apply_operation_def globbing_def

lemma and_then_Return: "and_then r Return = r"
  by (cases r) simp_all

lemma loops_done:
  "glob_loop K C deny op nb [] = Return"
  "glob_each K C deny op nb [] = Return"
  "profile_loop K C deny home nb [] = Return"
  by (intro ext, simp)+

lemmas loop_ends = and_then_Return loops_done

lemma demo_dotfiles:
  "profile_loop demo_kernel demo_config deny ''/home/user'' [''/home/user/.ssh'']
     [''blacklist /home/user/.*''] s
   = deny BLACKLIST_FILE ''/home/user/.gnupg'' s"
  by (simp add: parse_defs demo_kernel_def demo_glob_def demo_basename_def dbg_def
      demo_config_def loop_ends)

lemma demo_noblacklist_names:
  "noblacklist_names demo_kernel home ''noblacklist /home/user/.ssh'' w
     = Some [''/home/user/.ssh'']"
  "noblacklist_names demo_kernel home ''noblacklist /home/user/.gnupg'' w
     = Some [''/home/user/.gnupg'']"
  "noblacklist_names demo_kernel home ''noblacklist ${PATH}/ssh'' w
     = Some [''/bin/ssh'', ''/usr/bin/ssh'']"
  by (simp_all add: noblacklist_names_def strncmp_eq_def demo_kernel_def)

lemma demo_gnupg_denied:
  "disable_file demo_kernel demo_config BLACKLIST_FILE ''/home/user/.gnupg'' (initial demo_files)
     = Return only_gnupg_denied"
  using demo_blacklist[OF _ demo_gnupg, of "initial demo_files" BLACKLIST_FILE]
  by (simp add: demo_dir_donor log_blacklist_def emit_def only_gnupg_denied_def)

theorem noblacklist_before_blacklist_witness:
  "noblacklist_names demo_kernel ''/home/user''
       (''noblacklist '' @ ''/home/user/.ssh'') (world (initial demo_files))
     = Some [''/home/user/.ssh'']
   \<and> profile_loop demo_kernel demo_config (disable_file demo_kernel demo_config) ''/home/user'' []
         [''noblacklist /home/user/.ssh'', ''blacklist /home/user/.*''] (initial demo_files)
       = Return only_gnupg_denied
   \<and> profile_loop demo_kernel demo_config
         (trapped demo_kernel ''/home/user/.ssh'' (disable_file demo_kernel demo_config))
         ''/home/user'' [''/home/user/.ssh''] [''blacklist /home/user/.*''] (initial demo_files)
       = Return only_gnupg_denied
   \<and> profile_loop demo_kernel demo_config (disable_file demo_kernel demo_config) ''/home/user'' []
         [''noblacklist /home/user/.gnupg''] only_gnupg_denied
       = Return only_gnupg_denied"
proof -
  have m: "noblacklist_names demo_kernel ''/home/user''
             (''noblacklist '' @ ''/home/user/.ssh'') (world (initial demo_files))
           = Some [''/home/user/.ssh'']"
    using demo_noblacklist_names(1) by simp
  have g: "noblacklist_names demo_kernel ''/home/user''
             (''noblacklist '' @ ''/home/user/.gnupg'') (world only_gnupg_denied)
           = Some [''/home/user/.gnupg'']"
    using demo_noblacklist_names(2) by simp
  have later: "profile_loop demo_kernel demo_config (disable_file demo_kernel demo_config)
                 ''/home/user'' [] [''noblacklist /home/user/.gnupg''] only_gnupg_denied
               = Return only_gnupg_denied"
    using noblacklist_before_blacklist[OF g, of "''/home/user/.gnupg''" demo_config "[]" "[]"]
    by (simp add: loop_ends del: profile_loop.simps)
  have tr: "trapped demo_kernel ''/home/user/.ssh'' deny BLACKLIST_FILE ''/home/user/.gnupg'' s
              = deny BLACKLIST_FILE ''/home/user/.gnupg'' s" for deny and s :: "files st"
    by (simp add: trapped_def demo_kernel_def)
  have first: "profile_loop demo_kernel demo_config (disable_file demo_kernel demo_config)
                 ''/home/user'' [] [''noblacklist /home/user/.ssh'', ''blacklist /home/user/.*'']
                 (initial demo_files)
               = Return only_gnupg_denied"
    using noblacklist_before_blacklist[OF m, of "''/home/user/.ssh''" demo_config "[]"
        "[''blacklist /home/user/.*'']"]
    by (simp add: demo_dotfiles demo_gnupg_denied del: profile_loop.simps)
  show ?thesis
    using m later first
    by (simp add: demo_dotfiles tr demo_gnupg_denied del: profile_loop.simps)
qed

section \<open>A line that is not a directive\<close>

lemma invalid_line_step:
  "\<not> recognized entry \<Longrightarrow>
   profile_loop K C deny home nb (entry # rest) s
     = profile_loop K C deny home nb rest
         (emit (Stderr (''Error: invalid profile line '' @ entry @ nl)) s)"
  by (cases "parse_operation entry") (auto simp: recognized_def)

text \<open>
  C2, as the code has it.  A line in none of the recognised forms is reported on standard
  error and skipped; the loop goes on with the next directive, in a state that differs only
  by the message.
\<close>

theorem unrecognized_line_is_skipped:
  assumes "\<not> recognized entry"
  shows "profile_loop K C deny home nb (entry # rest) s
           = profile_loop K C deny home nb rest
               (emit (Stderr (''Error: invalid profile line '' @ entry @ nl)) s)"
  using assms by (rule invalid_line_step)

lemma demo_notes_denied:
  "world s = demo_files \<Longrightarrow>
   profile_loop demo_kernel demo_config (disable_file demo_kernel demo_config) ''/home/user'' []
     [''blacklist /home/user/notes''] s
   = Return (s\<lparr>trace := trace s
                  @ [Sys (donor_mount ''/run/firejail/firejail.ro.file'' ''/home/user/notes''),
                     Logger2 ''blacklist'' ''/home/user/notes''],
               last_disable := SUCCESSFUL\<rparr>)"
proof -
  assume w: "world s = demo_files"
  have "profile_loop demo_kernel demo_config (disable_file demo_kernel demo_config) ''/home/user'' []
     [''blacklist /home/user/notes''] s
     = disable_file demo_kernel demo_config BLACKLIST_FILE ''/home/user/notes'' s"
    by (simp add: parse_defs demo_kernel_def demo_glob_def demo_basename_def loop_ends)
  then show ?thesis
    using demo_blacklist[OF w demo_notes, of BLACKLIST_FILE]
    by (simp add: demo_file_donor log_blacklist_def emit_def)
qed

theorem unrecognized_line_is_skipped_witness:
  "\<not> recognized ''frobnicate /etc''
   \<and> fs_blacklist demo_kernel demo_config [''frobnicate /etc'', ''blacklist /home/user/notes'']
       (initial demo_files)
     = Return ((initial demo_files)
         \<lparr>trace := [Stderr (''Error: invalid profile line frobnicate /etc'' @ nl),
                    Sys (donor_mount ''/run/firejail/firejail.ro.file'' ''/home/user/notes''),
                    Logger2 ''blacklist'' ''/home/user/notes''],
          last_disable := SUCCESSFUL\<rparr>)"
proof -
  have n: "\<not> recognized ''frobnicate /etc''"
    by (simp add: recognized_def parse_defs)
  show ?thesis
    using unrecognized_line_is_skipped[OF n, of demo_kernel demo_config
        "disable_file demo_kernel demo_config" "''/home/user''" "[]"
        "[''blacklist /home/user/notes'']" "initial demo_files"] n
    by (simp add: fs_blacklist_def demo_config_def demo_notes_denied[unfolded demo_config_def]
        emit_def del: profile_loop.simps)
qed

text \<open>
  The claim as stated fails: the misspelt line is not fatal, the run goes on and the next
  directive is applied.
\<close>

theorem unrecognized_line_is_skipped_counterexample:
  "\<not> recognized ''readonly /etc''
   \<and> returns (fs_blacklist demo_kernel demo_config [''readonly /etc'', ''blacklist /home/user/notes'']
                (initial demo_files))
   \<and> trace (state_of (fs_blacklist demo_kernel demo_config
                         [''readonly /etc'', ''blacklist /home/user/notes''] (initial demo_files)))
       = [Stderr (''Error: invalid profile line readonly /etc'' @ nl),
          Sys (donor_mount ''/run/firejail/firejail.ro.file'' ''/home/user/notes''),
          Logger2 ''blacklist'' ''/home/user/notes'']"
proof -
  have n: "\<not> recognized ''readonly /etc''"
    by (simp add: recognized_def parse_defs)
  have h: "homedir demo_config = Some ''/home/user''"
    by (simp add: demo_config_def)
  have "fs_blacklist demo_kernel demo_config [''readonly /etc'', ''blacklist /home/user/notes'']
          (initial demo_files)
        = profile_loop demo_kernel demo_config (disable_file demo_kernel demo_config) ''/home/user''
            [] [''blacklist /home/user/notes'']
            (emit (Stderr (''Error: invalid profile line readonly /etc'' @ nl)) (initial demo_files))"
    by (simp add: fs_blacklist_def h invalid_line_step[OF n] del: profile_loop.simps)
  then show ?thesis
    using n by (simp add: demo_notes_denied emit_def del: profile_loop.simps)
qed

section \<open>Joining as root\<close>

lemma keeps_and_then_same:
  assumes "keeps P g s (state_of r)"
    and "\<And>s1. r = Return s1 \<Longrightarrow> g s1 = g s \<Longrightarrow> keeps P g s1 (state_of (f s1))"
  shows "keeps P g s (state_of (and_then r f))"
proof (cases r)
  case (Return s1)
  then have a: "keeps P g s s1" using assms(1) by simp
  then have "g s1 = g s" by (simp add: keeps_def)
  from assms(2)[OF Return this] a show ?thesis
    using Return by (auto intro: keeps_trans)
qed (use assms(1) in auto)

lemma keeps_if:
  "(c \<Longrightarrow> keeps P g s (state_of a)) \<Longrightarrow> (\<not> c \<Longrightarrow> keeps P g s (state_of b)) \<Longrightarrow>
   keeps P g s (state_of (if c then a else b))"
  by simp

lemma keeps_Return: "keeps P g s (state_of (Return s))"
  by (simp add: keeps_refl)

lemma frame_join_context: "frame join_context"
  by (simp add: frame_def join_context_def)

lemma no_context_same: "join_context s1 = join_context s \<Longrightarrow> no_context s1 = no_context s"
  by (auto simp: no_context_def join_context_def)

lemma keeps_enter_namespace:
  "frame g \<Longrightarrow> P (Sys (Join_namespace pid type)) \<Longrightarrow>
   keeps P g s (state_of (enter_namespace K pid type s))"
  by (simp add: enter_namespace_def keeps_sys)

lemma keeps_check_join_privileges:
  "frame g \<Longrightarrow> (\<And>m. P (Stderr m)) \<Longrightarrow> keeps P g s (state_of (check_join_privileges K pid s))"
  by (simp add: check_join_privileges_def keeps_emit keeps_refl)

lemma sys_cfg_cgroup: "cfg_cgroup (snd (sys K c s)) = cfg_cgroup s"
  by (simp add: sys_def)

lemma extract_context_root:
  "\<forall>w. k_getuid K w = 0 \<Longrightarrow>
   extract_context K C pid s
     = (case cfg_cgroup s of
          None \<Rightarrow> Return (snd (sys K Seteuid_root s))
        | Some g \<Rightarrow> ext K (Set_cgroup g) (snd (sys K Seteuid_root s)))"
  by (simp add: extract_context_def sys_cfg_cgroup)

lemma keeps_extract_context_root:
  assumes "\<forall>w. k_getuid K w = 0"
  shows "keeps (\<lambda>e. True) join_context s (state_of (extract_context K C pid s))"
proof -
  have k1: "keeps (\<lambda>e. True) join_context s (snd (sys K Seteuid_root s))"
    by (simp add: keeps_sys frame_join_context)
  have k2: "keeps (\<lambda>e. True) join_context s' (state_of (ext K c s'))" for c s'
    by (simp add: keeps_ext frame_join_context)
  show ?thesis
    unfolding extract_context_root[OF assms]
    by (cases "cfg_cgroup s") (auto intro: k1 keeps_trans[OF k1 k2])
qed

lemma quiet_extract_context_root:
  assumes "\<forall>w. k_getuid K w = 0" and "no_context s"
  shows "keeps (\<lambda>e. \<not> restriction e) join_context s (state_of (extract_context K C pid s))"
  using assms(2)
  by (simp add: extract_context_root[OF assms(1)] no_context_def keeps_sys frame_join_context)

lemma keeps_join_namespaces:
  assumes "\<And>e. \<not> restriction e \<Longrightarrow> P e"
  shows "keeps P join_context s (state_of (join_namespaces K C pid s))"
  unfolding join_namespaces_def
  by (intro keeps_if keeps_and_then keeps_enter_namespace frame_join_context assms) simp_all

lemma keeps_chdir_home:
  assumes "\<And>e. \<not> restriction e \<Longrightarrow> P e"
  shows "keeps P join_context s (state_of (chdir_home K C s))"
proof -
  have a: "keeps P join_context s' (state_of (sys_or_die K (Chdir d) m s'))" for s' d m
    by (simp add: keeps_sys_or_die frame_join_context assms)
  have b: "keeps P join_context s' (state_of (case homedir C of None \<Rightarrow> Return s'
             | Some h \<Rightarrow> when_stat K h (sys_or_die K (Chdir h) ''chdir'') s'))" for s'
    by (cases "homedir C") (simp_all add: keeps_refl keeps_when_stat a)
  show ?thesis
    unfolding chdir_home_def by (intro keeps_and_then a b)
qed

lemma keeps_enter_user_namespace:
  assumes "\<And>e. \<not> restriction e \<Longrightarrow> P e" and "(\<forall>e. P e) \<or> no_context s"
  shows "keeps P join_context s (state_of (enter_user_namespace K C s))"
  using assms(2)
proof
  assume all: "\<forall>e. P e"
  show ?thesis
    unfolding enter_user_namespace_def
    by (intro keeps_if keeps_and_then keeps_ext keeps_Return
          keeps_trans[OF keeps_dbg keeps_enter_namespace] frame_join_context)
       (simp_all add: all)
next
  assume "no_context s"
  then show ?thesis
    by (simp add: enter_user_namespace_def no_context_def keeps_ext frame_join_context assms(1))
qed

lemma keeps_apply_context_root:
  assumes "\<forall>w. k_getuid K w = 0" and "\<And>e. \<not> restriction e \<Longrightarrow> P e"
    and "(\<forall>e. P e) \<or> no_context s"
  shows "keeps P join_context s (state_of (apply_context K C s))"
proof -
  define ok where "ok = (\<lambda>s' :: 'a st. (\<forall>e. P e) \<or> no_context s')"
  have step: "ok s1 \<Longrightarrow> join_context s2 = join_context s1 \<Longrightarrow> ok s2" for s1 s2
    by (auto simp: ok_def no_context_def join_context_def)
  have seq: "keeps P join_context s' (state_of (and_then r h))"
    if "ok s'" and "keeps P join_context s' (state_of r)"
      and "\<And>s1. ok s1 \<Longrightarrow> keeps P join_context s1 (state_of (h s1))" for s' r h
    using that by (intro keeps_and_then_same) (auto intro: step)
  have q: "keeps P join_context s' (state_of (sys_or_die K (Setenv a b) m s'))" for s' a b m
    by (simp add: keeps_sys_or_die frame_join_context assms(2))
  have cpu: "ok s' \<Longrightarrow>
     keeps P join_context s' (state_of (if cfg_cpus s' \<noteq> 0 then ext K Set_cpu_affinity s'
                                          else Return s'))" for s'
    by (auto simp: ok_def no_context_def keeps_refl keeps_ext frame_join_context)
  have cap: "ok s' \<Longrightarrow>
     keeps P join_context s' (state_of (if apply_caps s' then ext K (Caps_set (caps s')) s'
                                          else Return s'))" for s'
    by (auto simp: ok_def no_context_def keeps_refl keeps_ext frame_join_context)
  have pfl: "keeps P join_context s'
      (state_of (if k_getuid K (world s') \<noteq> 0
                 then ext K (Protocol_filter_load (RUN_PROTOCOL_CFG (paths C))) s' else Return s'))"
    for s'
    using assms(1) by (simp add: keeps_refl)
  have pf: "keeps P join_context s'
      (state_of (if cfg_protocol C \<noteq> None then ext K Protocol_filter s' else Return s'))" for s'
    by (simp add: keeps_ext keeps_refl frame_join_context assms(2))
  have sec: "ok s' \<Longrightarrow>
     keeps P join_context s' (state_of (if apply_seccomp s' then ext K Seccomp_set s'
                                          else Return s'))" for s'
    by (auto simp: ok_def no_context_def keeps_refl keeps_ext frame_join_context)
  have e8: "ok s' \<Longrightarrow> keeps P join_context s' (state_of (enter_user_namespace K C s'))" for s'
    unfolding ok_def by (rule keeps_enter_user_namespace[OF assms(2)])
  have e7: "ok s' \<Longrightarrow> keeps P join_context s'
      (state_of (and_then (sys_or_die K (Setenv ''container'' ''firejail'') ''setenv'' s')
                   (enter_user_namespace K C)))" for s'
    by (rule seq[OF _ q e8])
  have e6: "ok s' \<Longrightarrow> keeps P join_context s'
      (state_of (and_then (sys_or_die K (Setenv ''QT_X11_NO_MITSHM'' ''1'') ''setenv'' s') (\<lambda>s.
                 and_then (sys_or_die K (Setenv ''container'' ''firejail'') ''setenv'' s)
                   (enter_user_namespace K C))))" for s'
    by (rule seq[OF _ q e7])
  have e5: "ok s' \<Longrightarrow> keeps P join_context s'
      (state_of (and_then (if apply_seccomp s' then ext K Seccomp_set s' else Return s') (\<lambda>s.
                 and_then (sys_or_die K (Setenv ''QT_X11_NO_MITSHM'' ''1'') ''setenv'' s) (\<lambda>s.
                 and_then (sys_or_die K (Setenv ''container'' ''firejail'') ''setenv'' s)
                   (enter_user_namespace K C)))))" for s'
    by (rule seq[OF _ sec e6])
  have e4: "ok s' \<Longrightarrow> keeps P join_context s'
      (state_of (and_then (if cfg_protocol C \<noteq> None then ext K Protocol_filter s' else Return s')
                (\<lambda>s.
                 and_then (if apply_seccomp s then ext K Seccomp_set s else Return s) (\<lambda>s.
                 and_then (sys_or_die K (Setenv ''QT_X11_NO_MITSHM'' ''1'') ''setenv'' s) (\<lambda>s.
                 and_then (sys_or_die K (Setenv ''container'' ''firejail'') ''setenv'' s)
                   (enter_user_namespace K C))))))" for s'
    by (rule seq[OF _ pf e5])
  have e3: "ok s' \<Longrightarrow> keeps P join_context s'
      (state_of (and_then (if k_getuid K (world s') \<noteq> 0
                           then ext K (Protocol_filter_load (RUN_PROTOCOL_CFG (paths C))) s'
                           else Return s') (\<lambda>s.
                 and_then (if cfg_protocol C \<noteq> None then ext K Protocol_filter s else Return s)
                (\<lambda>s.
                 and_then (if apply_seccomp s then ext K Seccomp_set s else Return s) (\<lambda>s.
                 and_then (sys_or_die K (Setenv ''QT_X11_NO_MITSHM'' ''1'') ''setenv'' s) (\<lambda>s.
                 and_then (sys_or_die K (Setenv ''container'' ''firejail'') ''setenv'' s)
                   (enter_user_namespace K C)))))))" for s'
    by (rule seq[OF _ pfl e4])
  have e2: "ok s' \<Longrightarrow> keeps P join_context s'
      (state_of (and_then (if apply_caps s' then ext K (Caps_set (caps s')) s' else Return s') (\<lambda>s.
                 and_then (if k_getuid K (world s) \<noteq> 0
                           then ext K (Protocol_filter_load (RUN_PROTOCOL_CFG (paths C))) s
                           else Return s) (\<lambda>s.
                 and_then (if cfg_protocol C \<noteq> None then ext K Protocol_filter s else Return s)
                (\<lambda>s.
                 and_then (if apply_seccomp s then ext K Seccomp_set s else Return s) (\<lambda>s.
                 and_then (sys_or_die K (Setenv ''QT_X11_NO_MITSHM'' ''1'') ''setenv'' s) (\<lambda>s.
                 and_then (sys_or_die K (Setenv ''container'' ''firejail'') ''setenv'' s)
                   (enter_user_namespace K C))))))))" for s'
    by (rule seq[OF _ cap e3])
  have oks: "ok s" using assms(3) by (simp add: ok_def)
  show ?thesis
    unfolding apply_context_def by (rule seq[OF oks cpu[OF oks] e2])
qed

lemma keeps_prompt_and_nice:
  assumes "\<And>e. \<not> restriction e \<Longrightarrow> P e"
  shows "keeps P join_context s (state_of (prompt_and_nice K C s))"
proof -
  have a: "keeps P join_context s'
      (state_of (if k_getenv K ''FIREJAIL_PROMPT'' (world s') = Some ''yes''
                 then sys_or_die K (Setenv ''PROMPT_COMMAND'' prompt_command) ''setenv'' s'
                 else Return s'))" for s'
    by (simp add: keeps_sys_or_die keeps_refl frame_join_context assms)
  have n: "keeps P join_context s' (snd (sys K (Nice v) s'))" for s' v
    by (simp add: keeps_sys frame_join_context assms)
  have w: "keeps P join_context s' (emit (Stderr m) (snd (sys K (Nice v) s')))" for s' v m
    by (rule keeps_trans[OF n[of s' v]]) (simp add: keeps_emit frame_join_context assms)
  show ?thesis
    unfolding prompt_and_nice_def
    by (rule keeps_and_then[OF a]) (simp add: n w keeps_refl)
qed

lemma keeps_choose_shell:
  assumes "\<And>e. \<not> restriction e \<Longrightarrow> P e"
  shows "keeps P join_context s (state_of (choose_shell K s))"
proof -
  have u: "keeps P join_context s (s\<lparr>cfg_shell := v\<rparr>)" for v
    by (simp add: keeps_def adds_iff join_context_def)
  have e: "keeps P join_context s (emit (Stderr m) (s\<lparr>cfg_shell := v\<rparr>))" for v m
    by (simp add: keeps_def adds_iff join_context_def emit_def assms)
  have r: "keeps P join_context s
             (s\<lparr>cfg_shell := v, cfg_command_line := a, cfg_window_title := b\<rparr>)" for v a b
    by (simp add: keeps_def adds_iff join_context_def)
  show ?thesis
    by (simp add: choose_shell_def Let_def keeps_refl e r split: option.splits)
qed

lemma keeps_choose_cwd:
  assumes "\<And>e. \<not> restriction e \<Longrightarrow> P e"
  shows "keeps P join_context s (state_of (choose_cwd K C s))"
proof (cases "cfg_cwd C")
  case None
  then show ?thesis by (simp add: choose_cwd_def keeps_chdir_home[OF assms])
next
  case (Some d)
  have c: "keeps P join_context s (snd (sys K (Chdir d) s))"
    by (simp add: keeps_sys frame_join_context assms)
  show ?thesis
    using Some c keeps_trans[OF c keeps_chdir_home[OF assms]]
    by (simp add: choose_cwd_def)
qed

lemma keeps_join_child_root:
  assumes "\<forall>w. k_getuid K w = 0" and "\<And>e. \<not> restriction e \<Longrightarrow> P e"
    and "(\<forall>e. P e) \<or> no_context s"
  shows "keeps P join_context (s :: 'w st) (state_of (join_child K C pid s))"
proof -
  define s1 where "s1 = (if \<not> arg_join_network C
                then (if fst (sys K (Chroot (proc_root pid)) s)
                      then emit (Stdout (''changing root to '' @ proc_root pid @ nl))
                             (snd (sys K (Chroot (proc_root pid)) s))
                      else snd (sys K (Chroot (proc_root pid)) s))
                else s)"
  define s2 where "s2 = snd (sys K Prctl_pdeathsig_sigkill s1)"
  have c: "keeps P join_context s (snd (sys K (Chroot (proc_root pid)) s))"
    by (simp add: keeps_sys frame_join_context assms(2))
  have k1: "keeps P join_context s s1"
    unfolding s1_def
    by (auto intro: c keeps_refl keeps_trans[OF c keeps_emit] simp: frame_join_context assms(2))
  have k2: "keeps P join_context s s2"
    unfolding s2_def
    by (rule keeps_trans[OF k1]) (simp add: keeps_sys frame_join_context assms(2))
  have ok: "join_context s' = join_context s \<Longrightarrow> (\<forall>e. P e) \<or> no_context s'"
    for s' :: "'w st"
    using assms(3) by (auto simp: no_context_def join_context_def)
  have fin: "keeps P join_context s' (state_of (and_then (ext K Start_application s') Exec))"
    for s'
    by (rule keeps_and_then) (simp_all add: keeps_ext frame_join_context assms(2) keeps_refl)
  have tail: "keeps P join_context s'
     (state_of (and_then (prompt_and_nice K C s') (\<lambda>s.
                and_then (choose_shell K s) (\<lambda>s.
                and_then (choose_cwd K C s) (\<lambda>s.
                and_then (ext K Start_application s) Exec)))))" for s'
    by (intro keeps_and_then keeps_prompt_and_nice keeps_choose_shell keeps_choose_cwd fin assms(2))
  have body: "keeps P join_context s2
     (state_of (and_then (chdir_home K C s2) (\<lambda>s.
                and_then (apply_context K C s) (\<lambda>s.
                and_then (prompt_and_nice K C s) (\<lambda>s.
                and_then (choose_shell K s) (\<lambda>s.
                and_then (choose_cwd K C s) (\<lambda>s.
                and_then (ext K Start_application s) Exec)))))))"
  proof (rule keeps_and_then_same[OF keeps_chdir_home[OF assms(2)]])
    fix s3 :: "'w st" assume "join_context s3 = join_context s2"
    then have "join_context s3 = join_context s" using k2 by (simp add: keeps_def)
    then have "(\<forall>e. P e) \<or> no_context s3" using ok by blast
    then show "keeps P join_context s3
      (state_of (and_then (apply_context K C s3) (\<lambda>s.
                and_then (prompt_and_nice K C s) (\<lambda>s.
                and_then (choose_shell K s) (\<lambda>s.
                and_then (choose_cwd K C s) (\<lambda>s.
                and_then (ext K Start_application s) Exec))))))"
      by (intro keeps_and_then keeps_apply_context_root[OF assms(1,2)] tail)
  qed
  have "join_child K C pid s =
     and_then (chdir_home K C s2) (\<lambda>s.
                and_then (apply_context K C s) (\<lambda>s.
                and_then (prompt_and_nice K C s) (\<lambda>s.
                and_then (choose_shell K s) (\<lambda>s.
                and_then (choose_cwd K C s) (\<lambda>s.
                and_then (ext K Start_application s) Exec)))))"
    by (simp add: join_child_def s1_def s2_def Let_def)
  then show ?thesis using keeps_trans[OF k2 body] by simp
qed

lemma keeps_join_parent:
  assumes "\<And>e. \<not> restriction e \<Longrightarrow> P e"
  shows "keeps P join_context s (state_of (join_parent K child s))"
proof -
  have a: "keeps P join_context s (snd (sys K Signal_sigterm s))"
    by (simp add: keeps_sys frame_join_context assms)
  have b: "keeps P join_context s' (snd (sys K (Waitpid child) s'))" for s'
    by (simp add: keeps_sys frame_join_context assms)
  have c: "keeps P join_context s' (emit Ctflush s')" for s'
    by (simp add: keeps_emit frame_join_context assms)
  show ?thesis
    unfolding join_parent_def using keeps_trans[OF keeps_trans[OF a b] c] by simp
qed

lemma keeps_join_fork_root:
  assumes "\<forall>w. k_getuid K w = 0" and "\<And>e. \<not> restriction e \<Longrightarrow> P e"
    and "(\<forall>e. P e) \<or> no_context s"
  shows "keeps P join_context (s :: 'w st) (state_of (join_fork K C pid s))"
proof -
  define s1 where "s1 = snd (sys K Fork s)"
  have f: "keeps P join_context s s1"
    by (simp add: s1_def keeps_sys frame_join_context assms(2))
  then have "join_context s1 = join_context s" by (simp add: keeps_def)
  then have ok: "(\<forall>e. P e) \<or> no_context s1"
    using assms(3) by (auto simp: no_context_def join_context_def)
  have e: "keeps P join_context s1 (state_of (errExit ''fork'' s1))"
    by (simp add: errExit_def keeps_emit frame_join_context assms(2))
  have "keeps P join_context s1 (state_of (join_fork K C pid s))"
    using e keeps_join_child_root[OF assms(1,2) ok, where C = C and pid = pid]
      keeps_join_parent[OF assms(2), where s = s1 and K = K]
    by (simp add: join_fork_def Let_def s1_def)
  then show ?thesis by (rule keeps_trans[OF f])
qed

lemma keeps_join_sandbox_root:
  assumes "\<forall>w. k_getuid K w = 0" and "\<And>e. \<not> restriction e \<Longrightarrow> P e"
    and "(\<forall>e. P e) \<or> no_context s"
  shows "keeps P join_context (s :: 'w st) (state_of (join_sandbox K C pid s))"
proof -
  have ok: "join_context s' = join_context s \<Longrightarrow> (\<forall>e. P e) \<or> no_context s'"
    for s' :: "'w st"
    using assms(3) by (auto simp: no_context_def join_context_def)
  have ex: "keeps P join_context s' (state_of (extract_context K C pid s'))"
    if "(\<forall>e. P e) \<or> no_context s'" for s' :: "'w st"
    using that
  proof
    assume "\<forall>e. P e"
    then show ?thesis
      using keeps_mono[OF keeps_extract_context_root[OF assms(1)]] by blast
  next
    assume n: "no_context s'"
    show ?thesis
      by (rule keeps_mono[OF quiet_extract_context_root[OF assms(1) n]]) (rule assms(2))
  qed
  show ?thesis
    unfolding join_sandbox_def
  proof (rule keeps_and_then_same[OF keeps_check_join_privileges[OF frame_join_context]])
    show "P (Stderr m)" for m by (simp add: assms(2))
  next
    fix s1 :: "'w st" assume j1: "join_context s1 = join_context s"
    show "keeps P join_context s1
            (state_of (and_then (extract_context K C pid s1) (\<lambda>s.
                       and_then (join_namespaces K C pid s) (join_fork K C pid))))"
    proof (rule keeps_and_then_same[OF ex[OF ok[OF j1]]])
      fix s2 :: "'w st" assume j2: "join_context s2 = join_context s1"
      show "keeps P join_context s2
              (state_of (and_then (join_namespaces K C pid s2) (join_fork K C pid)))"
      proof (rule keeps_and_then_same[OF keeps_join_namespaces[OF assms(2)]])
        fix s3 :: "'w st" assume "join_context s3 = join_context s2"
        then have "join_context s3 = join_context s" using j1 j2 by simp
        then have o3: "(\<forall>e. P e) \<or> no_context s3" by (rule ok)
        show "keeps P join_context s3 (state_of (join_fork K C pid s3))"
          by (rule keeps_join_fork_root[OF assms(1) _ o3]) (rule assms(2))
      qed
    qed
  qed
qed

lemma keeps_extract_command:
  assumes "\<And>e. \<not> restriction e \<Longrightarrow> P e"
  shows "keeps P join_context s (state_of (extract_command K C argv index s))"
proof -
  have u: "keeps P join_context s' (s'\<lparr>arg_doubledash := True\<rparr>)" for s'
    by (simp add: keeps_def adds_iff join_context_def)
  have e: "keeps P join_context s' (emit (Stderr m) s')" for s' m
    by (simp add: keeps_emit frame_join_context assms)
  have b: "keeps P join_context s'
      (state_of (and_then (ext K (Build_cmdline argv i) s') (\<lambda>s.
         Return (dbg C m (s\<lparr>cfg_command_line := a, cfg_window_title := w\<rparr>)))))" for s' i m a w
  proof (rule keeps_and_then)
    show "keeps P join_context s' (state_of (ext K (Build_cmdline argv i) s'))"
      by (simp add: keeps_ext frame_join_context assms)
    show "keeps P join_context s1
            (state_of (Return (dbg C m (s1\<lparr>cfg_command_line := a, cfg_window_title := w\<rparr>))))"
      for s1
      by (simp add: keeps_def adds_iff join_context_def dbg_def emit_def assms)
  qed
  have rest: "keeps P join_context s' (state_of
       (if index \<ge> length argv then Return s'
       else
         (let dashes = (argv ! index = ''--'');
              s1 = (if dashes then s'\<lparr>arg_doubledash := True\<rparr> else s');
              i = (if dashes then index + 1 else index)
          in if i \<ge> length argv then Return s1
             else if \<not> arg_doubledash s1 \<and> take 1 (argv ! i) = ''-''
             then Exit 1 (emit (Stderr (''Error: invalid option '' @ argv ! i
                                        @ '' after --join'' @ nl)) s1)
             else
               and_then (ext K (Build_cmdline argv i) s1) (\<lambda>s.
                 Return (dbg C (''Extracted command #'' @ fst (x_built_cmdline K argv i)
                                @ ''#'' @ nl)
                           (s\<lparr>cfg_command_line := Some (fst (x_built_cmdline K argv i)),
                              cfg_window_title := Some (snd (x_built_cmdline K argv i))\<rparr>))))))"
    for s'
    using u[of s'] keeps_trans[OF u[of s'] e] keeps_trans[OF u[of s'] b] e[of s'] b[of s']
    by (simp add: Let_def keeps_refl)
  show ?thesis
    unfolding extract_command_def
    by (rule keeps_and_then[OF keeps_ext rest]) (simp_all add: frame_join_context assms)
qed

lemma keeps_switch_pid:
  assumes "\<And>e. \<not> restriction e \<Longrightarrow> P e"
  shows "keeps P join_context s (switch_pid K pid s)"
proof -
  have a: "keeps P join_context s (after_comm K s)"
    unfolding after_comm_def
    by (rule keeps_trans[OF keeps_sys keeps_sys]) (simp_all add: frame_join_context assms)
  have b: "keeps P join_context s (emit (Stdout m) (after_comm K s))" for m
    by (rule keeps_trans[OF a]) (simp add: keeps_emit frame_join_context assms)
  show ?thesis
    by (simp add: switch_pid_def a b split: option.splits)
qed

lemma keeps_join_root:
  assumes "\<forall>w. k_getuid K w = 0" and "\<And>e. \<not> restriction e \<Longrightarrow> P e"
    and "(\<forall>e. P e) \<or> no_context s"
  shows "keeps P join_context (s :: 'w st) (state_of (join K C pid argv index s))"
proof -
  have ok: "join_context s' = join_context s \<Longrightarrow> (\<forall>e. P e) \<or> no_context s'"
    for s' :: "'w st"
    using assms(3) by (auto simp: no_context_def join_context_def)
  show ?thesis
    unfolding join_def
  proof (rule keeps_and_then_same[OF keeps_ext[OF frame_join_context]])
    show "P (Ext EUID_ASSERT)" by (simp add: assms(2))
  next
    fix s1 :: "'w st" assume j1: "join_context s1 = join_context s"
    show "keeps P join_context s1
            (state_of (and_then (extract_command K C argv index s1) (\<lambda>s.
                join_sandbox K C (sandbox_pid K pid s) (switch_pid K pid s))))"
    proof (rule keeps_and_then_same[OF keeps_extract_command[OF assms(2)]])
      fix s2 :: "'w st" assume j2: "join_context s2 = join_context s1"
      have sw: "keeps P join_context s2 (switch_pid K pid s2)"
        by (rule keeps_switch_pid[OF assms(2)])
      then have "join_context (switch_pid K pid s2) = join_context s"
        using j1 j2 by (simp add: keeps_def)
      then have o2: "(\<forall>e. P e) \<or> no_context (switch_pid K pid s2)" by (rule ok)
      have "keeps P join_context (switch_pid K pid s2)
              (state_of (join_sandbox K C (sandbox_pid K pid s2) (switch_pid K pid s2)))"
        by (rule keeps_join_sandbox_root[OF assms(1) _ o2]) (rule assms(2))
      then show "keeps P join_context s2
              (state_of (join_sandbox K C (sandbox_pid K pid s2) (switch_pid K pid s2)))"
        by (rule keeps_trans[OF sw])
    qed
  qed
qed

text \<open>
  C10.  When the user who joins has uid 0 (whatever the state of the world), the whole of
  \<^verbatim>\<open>join\<close>, in the parent and in the child, leaves the capability mask, the seccomp flag, the
  cpu set, the cgroup, the supplementary-groups flag and the user-namespace flag as they
  were on entry: nothing of the target is read into them.  If on entry none of them is set
  (the caller configured none for itself), the run contains no restriction event: no cpu or
  cgroup file is loaded, no cgroup, cpu affinity, capability filter or seccomp filter is
  set, no user namespace is entered, and \<^verbatim>\<open>drop_privs\<close> is not asked to drop the groups.
\<close>

theorem root_join_skips_context:
  assumes "\<forall>w. k_getuid K w = 0"
  shows "join_context (state_of (join K C pid argv index s)) = join_context s
         \<and> (no_context s \<longrightarrow>
              adds (\<lambda>e. \<not> restriction e) s (state_of (join K C pid argv index s)))"
proof -
  have "keeps (\<lambda>e. True) join_context s (state_of (join K C pid argv index s))"
    by (rule keeps_join_root[OF assms]) simp_all
  moreover have "no_context s \<Longrightarrow>
      keeps (\<lambda>e. \<not> restriction e) join_context s (state_of (join K C pid argv index s))"
    by (rule keeps_join_root[OF assms]) simp_all
  ultimately show ?thesis by (auto simp: keeps_def)
qed

lemmas join_defs = join_def extract_command_def join_sandbox_def check_join_privileges_def
  extract_context_def extract_caps_seccomp_def extract_cpu_def extract_cgroup_def
  extract_nogroups_def extract_user_namespace_def join_namespaces_def enter_namespace_def
  join_fork_def join_child_def join_parent_def chdir_home_def apply_context_def
  enter_user_namespace_def prompt_and_nice_def choose_shell_def choose_cwd_def
  sandbox_pid_def switch_pid_def as_root_comm_def after_comm_def proc_root_def
  string_of_int_def strncmp_eq_def Let_def

lemma text_100: "string_of_nat 100 = ''100''"
  by code_simp

lemma demo_join_parent:
  "join demo_kernel demo_config 100 [] 0 (initial demo_files)
     = Exit 0 ((initial demo_files)
         \<lparr>trace := [Ext EUID_ASSERT, Ext EUID_ASSERT, Sys Seteuid_root, Sys Seteuid_user,
                    Sys Seteuid_root,
                    Sys (Join_namespace 100 ''ipc''), Sys (Join_namespace 100 ''net''),
                    Sys (Join_namespace 100 ''pid''), Sys (Join_namespace 100 ''uts''),
                    Sys (Join_namespace 100 ''mnt''), Sys Fork, Sys Signal_sigterm,
                    Sys (Waitpid 4321), Ctflush],
          apply_caps := True, caps := 274877906943, apply_seccomp := True\<rparr>)"
  by (simp add: join_defs step_defs demo_defs text_100 del: string_of_nat.simps)

theorem root_join_skips_context_witness:
  "(\<forall>w. k_getuid root_child_kernel w = 0)
   \<and> no_context (initial demo_files)
   \<and> join_context (state_of (join root_child_kernel demo_config 100 [] 0 (initial demo_files)))
       = join_context (initial demo_files)
   \<and> adds (\<lambda>e. \<not> restriction e) (initial demo_files)
        (state_of (join root_child_kernel demo_config 100 [] 0 (initial demo_files)))
   \<and> join root_child_kernel demo_config 100 [] 0 (initial demo_files)
       = Exec ((initial demo_files)
           \<lparr>trace := [Ext EUID_ASSERT, Ext EUID_ASSERT, Sys Seteuid_root, Sys Seteuid_user,
                      Sys Seteuid_root,
                      Sys (Join_namespace 100 ''ipc''), Sys (Join_namespace 100 ''net''),
                      Sys (Join_namespace 100 ''pid''), Sys (Join_namespace 100 ''uts''),
                      Sys (Join_namespace 100 ''mnt''), Sys Fork,
                      Sys (Chroot ''/proc/100/root''),
                      Stdout (''changing root to /proc/100/root'' @ nl),
                      Sys Prctl_pdeathsig_sigkill, Sys (Chdir ''/''), Sys (Chdir ''/home/user''),
                      Sys (Setenv ''QT_X11_NO_MITSHM'' ''1''),
                      Sys (Setenv ''container'' ''firejail''), Ext (Drop_privs False),
                      Sys (Chdir ''/''), Sys (Chdir ''/home/user''), Ext Start_application],
            cfg_command_line := Some ''/bin/bash'', cfg_window_title := Some ''/bin/bash'',
            cfg_shell := Some ''/bin/bash''\<rparr>)"
proof -
  have u: "\<forall>w. k_getuid root_child_kernel w = 0"
    by (simp add: root_child_kernel_def demo_kernel_def)
  have n: "no_context (initial demo_files)"
    by (simp add: no_context_def initial_def)
  have r: "join root_child_kernel demo_config 100 [] 0 (initial demo_files)
       = Exec ((initial demo_files)
           \<lparr>trace := [Ext EUID_ASSERT, Ext EUID_ASSERT, Sys Seteuid_root, Sys Seteuid_user,
                      Sys Seteuid_root,
                      Sys (Join_namespace 100 ''ipc''), Sys (Join_namespace 100 ''net''),
                      Sys (Join_namespace 100 ''pid''), Sys (Join_namespace 100 ''uts''),
                      Sys (Join_namespace 100 ''mnt''), Sys Fork,
                      Sys (Chroot ''/proc/100/root''),
                      Stdout (''changing root to /proc/100/root'' @ nl),
                      Sys Prctl_pdeathsig_sigkill, Sys (Chdir ''/''), Sys (Chdir ''/home/user''),
                      Sys (Setenv ''QT_X11_NO_MITSHM'' ''1''),
                      Sys (Setenv ''container'' ''firejail''), Ext (Drop_privs False),
                      Sys (Chdir ''/''), Sys (Chdir ''/home/user''), Ext Start_application],
            cfg_command_line := Some ''/bin/bash'', cfg_window_title := Some ''/bin/bash'',
            cfg_shell := Some ''/bin/bash''\<rparr>)"
    by (simp add: join_defs step_defs root_child_kernel_def demo_defs text_100
        del: string_of_nat.simps)
  show ?thesis
    using root_join_skips_context[OF u, of demo_config 100 "[]" 0 "initial demo_files"] u n r
    by simp
qed

section \<open>The parent of a join\<close>

lemma join_sandbox_split:
  "join_sandbox K C pid t = and_then (before_fork K C pid t) (join_fork K C pid)"
proof -
  have "and_then (and_then r f) h = and_then r (\<lambda>s. and_then (f s) h)"
    for r :: "'a st outcome" and f h
    by (cases r) simp_all
  then show ?thesis
    by (simp add: join_sandbox_def before_fork_def)
qed

lemma join_fork_parent:
  "0 < k_fork K (world s) \<Longrightarrow>
   join_fork K C pid s
     = Exit 0 (emit Ctflush (snd (sys K (Waitpid (k_fork K (world s)))
                                   (snd (sys K Signal_sigterm (snd (sys K Fork s)))))))"
  by (simp add: join_fork_def join_parent_def Let_def)

text \<open>
  C4, as the code has it.  In a join that reaches the fork (the steps before it returned, in
  state \<open>s\<close>) and is followed in the parent (\<^verbatim>\<open>fork\<close> returned a positive process id): the
  parent installs the handler, waits for the child, flushes the buffered output and exits
  with code 0.  The status pointer of \<^verbatim>\<open>waitpid\<close> is \<^verbatim>\<open>NULL\<close>, so the exit code does not depend
  on how the child ended.  The handler itself flushes and exits with the signal number.
\<close>

theorem parent_exits_zero:
  assumes "ext K EUID_ASSERT s0 = Return s1"
    and "extract_command K C argv index s1 = Return s2"
    and "before_fork K C (sandbox_pid K pid s2) (switch_pid K pid s2) = Return s"
    and "0 < k_fork K (world s)"
  shows "join K C pid argv index s0
           = Exit 0 (emit Ctflush (snd (sys K (Waitpid (k_fork K (world s)))
                                         (snd (sys K Signal_sigterm (snd (sys K Fork s)))))))
         \<and> signal_handler sig u = Exit sig (emit Ctflush u)"
  using assms
  by (simp add: join_def join_sandbox_split join_fork_parent signal_handler_def)

lemma demo_join_steps:
  "ext demo_kernel EUID_ASSERT (initial demo_files) = Return demo_join_entered"
  "extract_command demo_kernel demo_config [] 0 demo_join_entered = Return demo_join_command"
  "before_fork demo_kernel demo_config (sandbox_pid demo_kernel 100 demo_join_command)
     (switch_pid demo_kernel 100 demo_join_command) = Return demo_join_before_fork"
  "k_fork demo_kernel (world demo_join_before_fork) = 4321"
  by (simp_all add: demo_join_entered_def demo_join_command_def demo_join_before_fork_def
      before_fork_def join_defs step_defs demo_defs text_100 del: string_of_nat.simps)

theorem parent_exits_zero_witness:
  "ext demo_kernel EUID_ASSERT (initial demo_files) = Return demo_join_entered
   \<and> extract_command demo_kernel demo_config [] 0 demo_join_entered = Return demo_join_command
   \<and> before_fork demo_kernel demo_config (sandbox_pid demo_kernel 100 demo_join_command)
        (switch_pid demo_kernel 100 demo_join_command) = Return demo_join_before_fork
   \<and> 0 < k_fork demo_kernel (world demo_join_before_fork)
   \<and> join demo_kernel demo_config 100 [] 0 (initial demo_files)
       = Exit 0 (demo_join_before_fork
           \<lparr>trace := trace demo_join_before_fork
                      @ [Sys Fork, Sys Signal_sigterm, Sys (Waitpid 4321), Ctflush]\<rparr>)
   \<and> signal_handler 15 demo_join_before_fork
       = Exit 15 (demo_join_before_fork\<lparr>trace := trace demo_join_before_fork @ [Ctflush]\<rparr>)"
proof -
  have p: "0 < k_fork demo_kernel (world demo_join_before_fork)"
    by (simp add: demo_join_steps)
  have w: "k_sys demo_kernel c (world demo_join_before_fork) = (True, world demo_join_before_fork)"
    if "c = Fork \<or> c = Signal_sigterm \<or> c = Waitpid 4321" for c
    using that by (auto simp: demo_kernel_def)
  show ?thesis
    using parent_exits_zero[OF demo_join_steps(1,2,3) p, of 15 demo_join_before_fork]
      demo_join_steps p
    by (simp add: sys_def emit_def w)
qed

text \<open>
  The claim as stated fails: the child ends with status 7 and the parent exits with 0.
\<close>

theorem parent_exits_zero_counterexample:
  "k_fork demo_kernel demo_files = 4321
   \<and> k_child_status demo_kernel 4321 demo_files = 7
   \<and> join demo_kernel demo_config 100 [] 0 (initial demo_files)
       = Exit 0 ((initial demo_files)
           \<lparr>trace := [Ext EUID_ASSERT, Ext EUID_ASSERT, Sys Seteuid_root, Sys Seteuid_user,
                      Sys Seteuid_root,
                      Sys (Join_namespace 100 ''ipc''), Sys (Join_namespace 100 ''net''),
                      Sys (Join_namespace 100 ''pid''), Sys (Join_namespace 100 ''uts''),
                      Sys (Join_namespace 100 ''mnt''), Sys Fork, Sys Signal_sigterm,
                      Sys (Waitpid 4321), Ctflush],
            apply_caps := True, caps := 274877906943, apply_seccomp := True\<rparr>)"
  using demo_join_parent by (simp add: demo_kernel_def)

section \<open>Permission errors\<close>








section \<open>What the mount code can add to the trace\<close>

lemma landmark_create_dir_as_root:
  "frame g \<Longrightarrow> (\<And>e. \<not> landmark e \<Longrightarrow> P e) \<Longrightarrow> keeps P g s (state_of (create_dir_as_root K C d m s))"
  unfolding create_dir_as_root_def
  by (intro keeps_and_then keeps_trans[OF keeps_dbg keeps_sys_or_die] keeps_sys_or_die keeps_ext)
     simp_all

lemma landmark_create_empty_dir:
  "frame g \<Longrightarrow> (\<And>e. \<not> landmark e \<Longrightarrow> P e) \<Longrightarrow> keeps P g s (state_of (create_empty_dir K C s))"
  unfolding create_empty_dir_def
  by (intro keeps_unless_stat keeps_and_then keeps_sys_or_die keeps_ext) simp_all

lemma landmark_create_empty_file:
  "frame g \<Longrightarrow> (\<And>e. \<not> landmark e \<Longrightarrow> P e) \<Longrightarrow> keeps P g s (state_of (create_empty_file K C s))"
  unfolding create_empty_file_def
  by (intro keeps_unless_stat keeps_and_then keeps_sys_or_die keeps_ext)
     (auto intro!: keeps_sys)

lemma landmark_check_firejail_dir:
  "frame g \<Longrightarrow> (\<And>e. \<not> landmark e \<Longrightarrow> P e) \<Longrightarrow> keeps P g s (state_of (check_firejail_dir K C s))"
  unfolding check_firejail_dir_def
  by (auto split: option.splits intro!: keeps_emit keeps_refl landmark_create_dir_as_root)

lemma landmark_fs_build_firejail_dir:
  "frame g \<Longrightarrow> (\<And>e. \<not> landmark e \<Longrightarrow> P e) \<Longrightarrow> keeps P g s (state_of (fs_build_firejail_dir K C s))"
  unfolding fs_build_firejail_dir_def
  by (intro keeps_and_then keeps_unless_stat landmark_create_dir_as_root landmark_check_firejail_dir
        landmark_create_empty_dir landmark_create_empty_file)

lemma keeps_self_bind_remount:
  assumes "\<And>e. \<not> landmark e \<Longrightarrow> P e"
  shows "keeps P tmpfs_mounted s
           (state_of (and_then (sys_or_die K (self_bind dir) m1 s) (\<lambda>s.
                      and_then (sys_or_die K (Mount None dir None flags None) m2 s) (\<lambda>s.
                      Return (emit (Logger2 what dir) s)))))"
  by (intro keeps_and_then keeps_sys_or_die)
     (simp_all add: frame_tmpfs_mounted assms self_bind_def keeps_emit)

lemma keeps_fs_rdonly:
  assumes "\<And>e. \<not> landmark e \<Longrightarrow> P e"
  shows "keeps P tmpfs_mounted s (state_of (fs_rdonly K dir s))"
  by (simp add: fs_rdonly_def keeps_refl keeps_self_bind_remount[where P = P, OF assms]
      split: option.splits)

lemma keeps_fs_noexec:
  assumes "\<And>e. \<not> landmark e \<Longrightarrow> P e"
  shows "keeps P tmpfs_mounted s (state_of (fs_noexec K dir s))"
  by (simp add: fs_noexec_def keeps_refl keeps_self_bind_remount[where P = P, OF assms]
      split: option.splits)

lemma keeps_fs_rdwr:
  assumes "\<And>e. \<not> landmark e \<Longrightarrow> P e"
  shows "keeps P tmpfs_mounted s (state_of (fs_rdwr K dir s))"
  by (simp add: fs_rdwr_def keeps_refl keeps_emit frame_tmpfs_mounted assms
      keeps_self_bind_remount[where P = P, OF assms] split: option.splits)

lemma keeps_last_disable:
  "keeps P tmpfs_mounted s (s\<lparr>last_disable := v\<rparr>)"
  by (simp add: keeps_def adds_iff)

lemma keeps_log_blacklist:
  assumes "\<And>e. \<not> landmark e \<Longrightarrow> P e"
  shows "keeps P tmpfs_mounted s (log_blacklist op name s)"
  by (simp add: log_blacklist_def keeps_emit frame_tmpfs_mounted assms)

lemma keeps_print_disable:
  assumes "\<And>e. \<not> landmark e \<Longrightarrow> P e"
  shows "keeps P tmpfs_mounted s (print_disable C op fname s)"
proof -
  have e: "keeps P tmpfs_mounted s' (emit (Stdout m) s')" for s' :: "'a st" and m
    by (simp add: keeps_emit frame_tmpfs_mounted assms)
  show ?thesis
    using e keeps_trans[OF e e] by (simp add: print_disable_def keeps_refl)
qed

lemma keeps_blacklist_mount:
  assumes "\<And>e. \<not> landmark e \<Longrightarrow> P e"
  shows "keeps P tmpfs_mounted s (state_of (blacklist_mount K C op filename fname x s))"
proof -
  have p: "keeps P tmpfs_mounted s (print_disable C op fname s)"
    by (rule keeps_print_disable[where P = P, OF assms])
  have q: "keeps P tmpfs_mounted (print_disable C op fname s)
             (state_of (sys_or_die K (donor_mount d fname) ''disable file''
                          (print_disable C op fname s)))" for d
    by (simp add: keeps_sys_or_die frame_tmpfs_mounted assms donor_mount_def)
  have m: "keeps P tmpfs_mounted s
             (state_of (sys_or_die K (donor_mount d fname) ''disable file''
                          (print_disable C op fname s)))" for d
    by (rule keeps_trans[OF p q])
  have l: "keeps P tmpfs_mounted s'
             (state_of (Return (log_blacklist op fname (s'\<lparr>last_disable := SUCCESSFUL\<rparr>))))"
    for s' :: "'a st"
    using keeps_trans[OF keeps_last_disable keeps_log_blacklist[where P = P, OF assms]] by simp
  show ?thesis
    unfolding blacklist_mount_donor
    by (intro keeps_if keeps_and_then m l)
       (simp add: keeps_emit frame_tmpfs_mounted assms)
qed

lemma keeps_tmpfs_mount:
  assumes "\<And>e. \<not> landmark e \<Longrightarrow> P e"
  shows "keeps P tmpfs_mounted s (state_of (tmpfs_mount K C fname x s))"
proof -
  have l: "keeps P tmpfs_mounted s'
             (state_of (Return (emit (Logger2 ''tmpfs'' fname) (s'\<lparr>last_disable := SUCCESSFUL\<rparr>))))"
    for s' :: "'a st"
    by (simp add: keeps_def adds_iff emit_def assms)
  define s1 where "s1 = dbg C (''Mounting tmpfs on '' @ fname @ nl) s"
  have d: "keeps P tmpfs_mounted s s1"
    by (simp add: s1_def keeps_dbg frame_tmpfs_mounted assms)
  have q: "keeps P tmpfs_mounted s1 (state_of (sys_or_die K (tmpfs_over fname) ''mounting tmpfs'' s1))"
    by (simp add: keeps_sys_or_die frame_tmpfs_mounted assms tmpfs_over_def)
  have m: "keeps P tmpfs_mounted s
             (state_of (sys_or_die K (tmpfs_over fname) ''mounting tmpfs''
                          (dbg C (''Mounting tmpfs on '' @ fname @ nl) s)))"
    using keeps_trans[OF d q] by (simp add: s1_def)
  show ?thesis
    unfolding tmpfs_mount_def tmpfs_over_def[symmetric]
    by (intro keeps_if keeps_and_then m l keeps_sys_or_die)
       (simp_all add: keeps_emit frame_tmpfs_mounted assms)
qed

lemma keeps_force_mount:
  assumes "\<And>e. \<not> landmark e \<Longrightarrow> P e"
  shows "keeps P tmpfs_mounted s (state_of (force_mount K C op filename s))"
proof -
  define s1 where "s1 = dbg C (''Debug: no access to file '' @ filename @ '', forcing mount'' @ nl) s"
  define r1 where "r1 = sys K (donor_mount (RUN_RO_DIR (paths C)) filename) s1"
  define r2 where "r2 = sys K (donor_mount (RUN_RO_FILE (paths C)) filename) (snd r1)"
  define s2 where "s2 = (if fst r1 then mark_if True (snd r1) else mark_if (fst r2) (snd r2))"
  have k1: "keeps P tmpfs_mounted s s1"
    by (simp add: s1_def keeps_dbg frame_tmpfs_mounted assms)
  have k2: "keeps P tmpfs_mounted s1 (snd r1)"
    by (simp add: r1_def keeps_sys frame_tmpfs_mounted assms donor_mount_def)
  have k3: "keeps P tmpfs_mounted (snd r1) (snd r2)"
    by (simp add: r2_def keeps_sys frame_tmpfs_mounted assms donor_mount_def)
  have mk: "keeps P tmpfs_mounted t (mark_if b t)" for b and t :: "'a st"
    by (simp add: mark_if_def keeps_refl keeps_last_disable)
  have k4: "keeps P tmpfs_mounted s s2"
    unfolding s2_def
    using keeps_trans[OF keeps_trans[OF k1 k2] mk]
      keeps_trans[OF keeps_trans[OF keeps_trans[OF k1 k2] k3] mk]
    by simp
  have d: "keeps P tmpfs_mounted s2 (dbg C m s2)" for m
    by (simp add: keeps_dbg frame_tmpfs_mounted assms)
  have fin: "keeps P tmpfs_mounted s2
      (state_of (if last_disable s2 = SUCCESSFUL
         then Return (log_blacklist op filename (dbg C (''Disable '' @ filename @ nl) s2))
         else Return (dbg C (''Warning (blacklisting): '' @ filename
                              @ '' is an invalid file, skipping...'' @ nl) s2)))"
    using d keeps_trans[OF d keeps_log_blacklist[where P = P, OF assms]] by simp
  have "force_mount K C op filename s =
      (if last_disable s2 = SUCCESSFUL
         then Return (log_blacklist op filename (dbg C (''Disable '' @ filename @ nl) s2))
         else Return (dbg C (''Warning (blacklisting): '' @ filename
                              @ '' is an invalid file, skipping...'' @ nl) s2))"
    by (simp add: force_mount_def Let_def s1_def r1_def r2_def s2_def)
  then show ?thesis using keeps_trans[OF k4 fin] by simp
qed

lemma keeps_modify_file:
  assumes "\<And>e. \<not> landmark e \<Longrightarrow> P e"
  shows "keeps P tmpfs_mounted s (state_of (modify_file K C op filename fname x s))"
proof -
  have d: "keeps P tmpfs_mounted s (dbg C m s)" for m
    by (simp add: keeps_dbg frame_tmpfs_mounted assms)
  show ?thesis
    by (cases op)
       (simp_all add: keeps_blacklist_mount[where P = P, OF assms] keeps_tmpfs_mount[where P = P, OF assms]
          keeps_trans[OF d keeps_fs_rdonly[where P = P, OF assms]] keeps_trans[OF d keeps_fs_rdwr[where P = P, OF assms]]
          keeps_trans[OF d keeps_fs_noexec[where P = P, OF assms]])
qed

lemma keeps_resolve_and_modify:
  assumes "\<And>e. \<not> landmark e \<Longrightarrow> P e"
  shows "keeps P tmpfs_mounted s (state_of (resolve_and_modify K C op filename s))"
  by (simp add: resolve_and_modify_def keeps_refl keeps_force_mount[where P = P, OF assms]
      keeps_modify_file[where P = P, OF assms] keeps_dbg frame_tmpfs_mounted assms
      split: realpath_result.splits option.splits)

lemma keeps_disable_file:
  assumes "\<And>e. \<not> landmark e \<Longrightarrow> P e"
  shows "keeps P tmpfs_mounted s (state_of (disable_file K C op filename s))"
proof -
  have a: "keeps P tmpfs_mounted (s\<lparr>last_disable := UNSUCCESSFUL\<rparr>)
             (state_of (and_then (fs_build_firejail_dir K C (s\<lparr>last_disable := UNSUCCESSFUL\<rparr>))
                          (resolve_and_modify K C op filename)))"
    by (intro keeps_and_then landmark_fs_build_firejail_dir[where P = P, OF frame_tmpfs_mounted assms]
          keeps_resolve_and_modify[where P = P, OF assms])
  show ?thesis
    unfolding disable_file_def by (rule keeps_trans[OF keeps_last_disable a])
qed

lemma keeps_disable_config:
  assumes "\<And>e. \<not> landmark e \<Longrightarrow> P e"
  shows "keeps P tmpfs_mounted s (state_of (disable_config K C s))"
  unfolding disable_config_def
  by (intro keeps_and_then keeps_when_stat keeps_disable_file assms)

lemma keeps_update_var_and_users:
  assumes "\<And>e. \<not> landmark e \<Longrightarrow> P e"
  shows "keeps P tmpfs_mounted s (state_of (update_var_and_users K C s))"
  unfolding update_var_and_users_def
  by (intro keeps_and_then keeps_if keeps_ext keeps_Return keeps_disable_config
        frame_tmpfs_mounted assms) simp_all

section \<open>The staging mount and its flag\<close>

lemma adds_keeps_unit: "adds P s s' = keeps P (\<lambda>s. ()) s s'"
  by (simp add: keeps_def)

lemma frame_unit: "frame (\<lambda>s. ())"
  by (simp add: frame_def)

lemma adds_trans: "adds P s s1 \<Longrightarrow> adds P s1 s2 \<Longrightarrow> adds P s s2"
  unfolding adds_keeps_unit by (rule keeps_trans)

lemma adds_and_then:
  "adds P s (state_of r) \<Longrightarrow> (\<And>s1. r = Return s1 \<Longrightarrow> adds P s1 (state_of (f s1)))
   \<Longrightarrow> adds P s (state_of (and_then r f))"
  unfolding adds_keeps_unit by (rule keeps_and_then)

lemma and_then_ReturnE:
  assumes "and_then r f = Return s'"
  obtains s1 where "r = Return s1" and "f s1 = Return s'"
  using assms by (cases r) simp_all

lemma returns_iff: "returns r \<longleftrightarrow> r = Return (state_of r)"
  by (cases r) simp_all

lemma grows:
  "keeps (\<lambda>e. True) g s (state_of r) \<Longrightarrow> r = Return s' \<Longrightarrow> \<exists>evs. trace s' = trace s @ evs"
  by (auto simp: keeps_def adds_iff)

lemma news:
  "keeps P g s (state_of r) \<Longrightarrow> r = Return s'
   \<Longrightarrow> \<exists>evs. trace s' = trace s @ evs \<and> list_all P evs \<and> g s' = g s"
  by (auto simp: keeps_def adds_iff)

lemma keeps_mnt_prefix:
  assumes "frame g" and "\<And>e. quiet e \<Longrightarrow> P e"
  shows "keeps P g s
           (state_of (and_then (fs_build_firejail_dir K C s)
                        (unless_stat K (RUN_MNT_DIR (paths C))
                           (create_dir_as_root K C (RUN_MNT_DIR (paths C)) 493))))"
  by (intro keeps_and_then keeps_unless_stat keeps_fs_build_firejail_dir
        keeps_create_dir_as_root assms)

lemma landmark_mnt_prefix:
  assumes "frame g" and "\<And>e. \<not> landmark e \<Longrightarrow> P e"
  shows "keeps P g s
           (state_of (and_then (fs_build_firejail_dir K C s)
                        (unless_stat K (RUN_MNT_DIR (paths C))
                           (create_dir_as_root K C (RUN_MNT_DIR (paths C)) 493))))"
  by (intro keeps_and_then keeps_unless_stat landmark_fs_build_firejail_dir
        landmark_create_dir_as_root assms)

lemma fs_build_mnt_dir_split:
  "fs_build_mnt_dir K C s =
     and_then (and_then (fs_build_firejail_dir K C s)
                 (unless_stat K (RUN_MNT_DIR (paths C))
                    (create_dir_as_root K C (RUN_MNT_DIR (paths C)) 493))) (\<lambda>s.
     if \<not> tmpfs_mounted s then
       and_then (sys_or_die K (mnt_tmpfs C) ''mounting /run/firejail/mnt''
                   (dbg C (''Mounting tmpfs on '' @ RUN_MNT_DIR (paths C) @ '' directory'' @ nl) s))
         (\<lambda>s. Return (emit (Logger2 ''tmpfs'' (RUN_MNT_DIR (paths C))) (s\<lparr>tmpfs_mounted := True\<rparr>)))
     else Return s)"
  unfolding fs_build_mnt_dir_def by (cases "fs_build_firejail_dir K C s") simp_all

lemma adds_fs_build_mnt_dir:
  assumes "\<And>e. \<not> landmark e \<Longrightarrow> P e" and "P (Sys (mnt_tmpfs C))"
  shows "adds P s (state_of (fs_build_mnt_dir K C s))"
proof -
  define s0 where "s0 = (\<lambda>s1 :: 'a st.
     dbg C (''Mounting tmpfs on '' @ RUN_MNT_DIR (paths C) @ '' directory'' @ nl) s1)"
  have d: "adds P s1 (s0 s1)" for s1
    unfolding adds_keeps_unit s0_def by (simp add: keeps_dbg frame_unit assms)
  have m: "adds P (s0 s1) (state_of (sys_or_die K (mnt_tmpfs C) x (s0 s1)))" for x s1
    unfolding adds_keeps_unit by (simp add: keeps_sys_or_die frame_unit assms)
  have a: "adds P s1 (state_of (sys_or_die K (mnt_tmpfs C) x (s0 s1)))" for x s1
    by (rule adds_trans[OF d m])
  have b: "adds P s3 (emit (Logger2 ''tmpfs'' d) (s3\<lparr>tmpfs_mounted := True\<rparr>))"
    for d and s3 :: "'a st"
    by (simp add: adds_iff emit_def assms)
  have c: "adds P s1
      (state_of (if \<not> tmpfs_mounted s1 then
       and_then (sys_or_die K (mnt_tmpfs C) ''mounting /run/firejail/mnt'' (s0 s1))
         (\<lambda>s. Return (emit (Logger2 ''tmpfs'' (RUN_MNT_DIR (paths C))) (s\<lparr>tmpfs_mounted := True\<rparr>)))
     else Return s1))" for s1 :: "'a st"
  proof (cases "tmpfs_mounted s1")
    case True
    then show ?thesis by (simp add: adds_iff)
  next
    case False
    then show ?thesis
      using adds_and_then[OF a, where f = "\<lambda>s. Return (emit (Logger2 ''tmpfs'' (RUN_MNT_DIR (paths C)))
                                                    (s\<lparr>tmpfs_mounted := True\<rparr>))"]
      by (simp add: b)
  qed
  have p: "adds P s
             (state_of (and_then (fs_build_firejail_dir K C s)
                          (unless_stat K (RUN_MNT_DIR (paths C))
                             (create_dir_as_root K C (RUN_MNT_DIR (paths C)) 493))))"
    by (rule keeps_adds, rule landmark_mnt_prefix[OF frame_unit]) (rule assms(1))
  show ?thesis
    unfolding fs_build_mnt_dir_split using adds_and_then[OF p c] unfolding s0_def .
qed

lemma fs_build_mnt_dir_flag:
  assumes "fs_build_mnt_dir K C s = Return s'"
  shows "tmpfs_mounted s'"
  using assms unfolding fs_build_mnt_dir_split
  by (elim and_then_ReturnE) (auto simp: emit_def split: if_splits elim!: and_then_ReturnE)

lemma fs_build_mnt_dir_again:
  assumes "tmpfs_mounted s"
  shows "keeps quiet tmpfs_mounted s (state_of (fs_build_mnt_dir K C s))"
  unfolding fs_build_mnt_dir_split
  by (rule keeps_and_then_same[OF keeps_mnt_prefix[OF frame_tmpfs_mounted]])
     (simp_all add: assms keeps_refl)

lemma fs_build_mnt_dir_kept:
  assumes "tmpfs_mounted s" and "\<And>e. \<not> landmark e \<Longrightarrow> P e"
  shows "keeps P tmpfs_mounted s (state_of (fs_build_mnt_dir K C s))"
proof -
  have p: "keeps P tmpfs_mounted s
             (state_of (and_then (fs_build_firejail_dir K C s)
                          (unless_stat K (RUN_MNT_DIR (paths C))
                             (create_dir_as_root K C (RUN_MNT_DIR (paths C)) 493))))"
    by (rule landmark_mnt_prefix[OF frame_tmpfs_mounted]) (rule assms(2))
  show ?thesis
    unfolding fs_build_mnt_dir_split
    by (rule keeps_and_then_same[OF p]) (simp_all add: assms(1) keeps_refl)
qed

lemma fs_build_mnt_dir_remount:
  assumes "\<not> tmpfs_mounted s" and "fs_build_mnt_dir K C s = Return s'"
  shows "\<exists>evs. trace s' = trace s @ evs @ [Sys (mnt_tmpfs C), Logger2 ''tmpfs'' (RUN_MNT_DIR (paths C))]"
proof -
  from assms(2) obtain s1 where
    p: "and_then (fs_build_firejail_dir K C s)
          (unless_stat K (RUN_MNT_DIR (paths C))
             (create_dir_as_root K C (RUN_MNT_DIR (paths C)) 493)) = Return s1"
    and r: "(if \<not> tmpfs_mounted s1 then
       and_then (sys_or_die K (mnt_tmpfs C) ''mounting /run/firejail/mnt''
                   (dbg C (''Mounting tmpfs on '' @ RUN_MNT_DIR (paths C) @ '' directory'' @ nl) s1))
         (\<lambda>s. Return (emit (Logger2 ''tmpfs'' (RUN_MNT_DIR (paths C))) (s\<lparr>tmpfs_mounted := True\<rparr>)))
     else Return s1) = Return s'"
    using and_then_ReturnE[OF assms(2)[unfolded fs_build_mnt_dir_split]] by blast
  have k: "keeps (\<lambda>e. True) tmpfs_mounted s s1"
    using keeps_mnt_prefix[where P = "\<lambda>e. True" and g = tmpfs_mounted and s = s and K = K and C = C]
    by (simp add: p frame_tmpfs_mounted)
  then obtain evs where e: "trace s1 = trace s @ evs" and f: "\<not> tmpfs_mounted s1"
    using assms(1) by (auto simp: keeps_def adds_iff)
  from r f obtain s2 where
    m: "sys_or_die K (mnt_tmpfs C) ''mounting /run/firejail/mnt''
          (dbg C (''Mounting tmpfs on '' @ RUN_MNT_DIR (paths C) @ '' directory'' @ nl) s1) = Return s2"
    and l: "s' = emit (Logger2 ''tmpfs'' (RUN_MNT_DIR (paths C))) (s2\<lparr>tmpfs_mounted := True\<rparr>)"
    by (auto elim!: and_then_ReturnE)
  from m have "\<exists>d. trace s2 = trace s1 @ d @ [Sys (mnt_tmpfs C)]"
    by (auto simp: sys_or_die_returns sys_def dbg_def emit_def)
  then show ?thesis using e l by (auto simp: emit_def)
qed

section \<open>What the overlay composer can add to the trace\<close>

lemma keeps_layer_dir:
  assumes "frame g" and "\<And>e. \<not> landmark e \<Longrightarrow> P e"
  shows "keeps P g s (state_of (layer_dir K dir m s))"
  unfolding layer_dir_def
  by (intro keeps_and_then keeps_unless_stat keeps_sys_or_die assms) simp_all

lemma keeps_overlay_keep_dir:
  assumes "frame g" and "\<And>e. \<not> landmark e \<Longrightarrow> P e"
  shows "keeps P g s (state_of (overlay_keep_dir K C s))"
proof -
  have m: "keeps P g s (snd (sys K (Mkdir (overlay_dir C) 493) s))"
    by (simp add: keeps_sys assms)
  have e: "keeps P g t (emit (Stderr x) t)" for x and t :: "'a st"
    by (simp add: keeps_emit assms)
  show ?thesis
    using m e keeps_trans[OF m e]
    by (simp add: overlay_keep_dir_def keeps_refl split: option.splits)
qed

lemma keeps_overlay_dirs:
  assumes "frame g" and "\<And>e. \<not> landmark e \<Longrightarrow> P e"
  shows "keeps P g s (state_of (overlay_dirs K C s))"
  unfolding overlay_dirs_def
  by (intro keeps_and_then keeps_sys_or_die keeps_ext keeps_overlay_keep_dir keeps_layer_dir)
     (simp_all add: assms)

lemma keeps_overlay_home:
  assumes "frame g" and "\<And>e. \<not> landmark e \<Longrightarrow> P e"
    and "P (Sys (home_overlay_mount C))"
  shows "keeps P g s (state_of (overlay_home K C s))"
proof -
  have d: "keeps P g t (dbg C x t)" for x and t :: "'a st"
    by (simp add: keeps_dbg assms)
  have b: "keeps P g t
      (state_of (unless_stat K p (\<lambda>s.
           and_then (layer_dir K (overlay_basedir C @ ''/hdiff'') 511 s) (\<lambda>s.
           and_then (layer_dir K (overlay_basedir C @ ''/hwork'') 511 s) (\<lambda>s.
           and_then (sys_or_die K (home_overlay_mount C)
                       ''mounting overlayfs for mounted home directory'' s) (\<lambda>s.
           Return (emit (Stdout (''OverlayFS for /home configured in '' @ overlay_basedir C
                                 @ '' directory'' @ nl)) s))))) t))" for p and t :: "'a st"
    by (intro keeps_unless_stat keeps_and_then keeps_layer_dir keeps_sys_or_die)
       (simp_all add: keeps_emit assms)
  show ?thesis
    unfolding overlay_home_def Let_def
    by (rule keeps_trans[OF keeps_trans[OF d d] b])
qed

lemma keeps_overlay_mount:
  assumes "frame g" and "\<And>e. \<not> landmark e \<Longrightarrow> P e"
    and "\<not> oldkernel \<Longrightarrow> P (Sys (modern_overlay_mount C)) \<and> P (Sys (home_overlay_mount C))"
    and "oldkernel \<Longrightarrow> \<not> arg_overlay_keep C \<Longrightarrow> P (Sys (legacy_overlay_mount C))"
  shows "keeps P g s (state_of (overlay_mount K C oldkernel s))"
proof -
  define s1 where "s1 = dbg C (''Mounting OverlayFS'' @ nl) s"
  have d: "keeps P g s s1"
    by (simp add: s1_def keeps_dbg assms)
  have r: "keeps P g s1
      (state_of (if oldkernel then
        if arg_overlay_keep C
        then Exit 1 (emit (Stderr (''Error: option --overlay= not available for kernels older than 3.18''
                                   @ nl)) s1)
        else sys_or_die K (legacy_overlay_mount C) ''mounting overlayfs'' s1
      else
        and_then (sys_or_die K (modern_overlay_mount C) ''mounting overlayfs'' s1)
          (overlay_home K C)))"
    by (intro keeps_if keeps_and_then keeps_sys_or_die keeps_overlay_home)
       (simp_all add: keeps_emit assms)
  have eq: "overlay_mount K C oldkernel s =
      (if oldkernel then
        if arg_overlay_keep C
        then Exit 1 (emit (Stderr (''Error: option --overlay= not available for kernels older than 3.18''
                                   @ nl)) s1)
        else sys_or_die K (legacy_overlay_mount C) ''mounting overlayfs'' s1
      else
        and_then (sys_or_die K (modern_overlay_mount C) ''mounting overlayfs'' s1)
          (overlay_home K C))"
    by (simp add: overlay_mount_def Let_def s1_def)
  show ?thesis
    unfolding eq by (rule keeps_trans[OF d r])
qed

lemma keeps_overlay_binds:
  assumes "frame g" and "\<And>e. \<not> landmark e \<Longrightarrow> P e"
  shows "keeps P g s (state_of (overlay_binds K C s))"
proof -
  have d: "keeps P g t (dbg C x t)" for x and t :: "'a st"
    by (simp add: keeps_dbg assms)
  have e: "keeps P g t (emit (Logger x) t)" for x and t :: "'a st"
    by (simp add: keeps_emit assms)
  have w: "keeps P g t (emit (Stderr x) t)" for x and t :: "'a st"
    by (simp add: keeps_emit assms)
  have m: "keeps P g t (state_of (sys_or_die K (Mount a b None fl None) x t))"
    for a b fl x and t :: "'a st"
    by (simp add: keeps_sys_or_die assms)
  have y: "keeps P g t (snd (sys K (Mount a b None fl None) t))" for a b fl and t :: "'a st"
    by (simp add: keeps_sys assms)
  have x11: "keeps P g t
      (state_of (let r = sys K (Mount (Some ''/tmp/.X11-unix'') (overlay_oroot C @ ''/tmp/.X11-unix'') None
                          [MS_BIND, MS_REC] None)
                   (dbg C (''Mounting /tmp/.X11-unix'' @ nl) t)
         in if fst r then Return (emit (Logger ''whitelist /tmp/.X11-unix'') (snd r))
            else Return (emit (Stderr (''Warning: cannot mount /tmp/.X11-unix in overlay'' @ nl))
                           (snd r))))" for t :: "'a st"
    using keeps_trans[OF keeps_trans[OF d y] e] keeps_trans[OF keeps_trans[OF d y] w]
    by (simp add: Let_def)
  show ?thesis
    unfolding overlay_binds_def
    by (intro keeps_and_then keeps_trans[OF d m] keeps_trans[OF keeps_trans[OF e d] m]
          keeps_trans[OF e keeps_when_stat] x11)
qed

lemma keeps_overlay_enter:
  assumes "\<And>e. \<not> landmark e \<Longrightarrow> P e" and "P (Sys (Chroot (overlay_oroot C)))"
  shows "keeps P tmpfs_mounted s (state_of (overlay_enter K C s))"
proof -
  have e: "keeps P tmpfs_mounted s
             (emit (Stdout (''OverlayFS configured in '' @ overlay_basedir C @ '' directory'' @ nl)) s)"
    by (simp add: keeps_emit frame_tmpfs_mounted assms)
  have u: "keeps P tmpfs_mounted t (state_of (update_var_and_users K C t))" for t
    by (rule keeps_update_var_and_users) (rule assms(1))
  show ?thesis
    unfolding overlay_enter_def
    by (intro keeps_and_then keeps_trans[OF e keeps_overlay_binds] keeps_sys_or_die u)
       (simp_all add: frame_tmpfs_mounted assms)
qed

lemma keeps_overlay_after:
  assumes "\<And>e. \<not> landmark e \<Longrightarrow> P e" and "P (Sys (Chroot (overlay_oroot C)))"
    and "\<not> oldkernel \<Longrightarrow> P (Sys (modern_overlay_mount C)) \<and> P (Sys (home_overlay_mount C))"
    and "oldkernel \<Longrightarrow> \<not> arg_overlay_keep C \<Longrightarrow> P (Sys (legacy_overlay_mount C))"
  shows "keeps P tmpfs_mounted s
           (state_of (and_then (overlay_mount K C oldkernel s) (overlay_enter K C)))"
  by (intro keeps_and_then keeps_overlay_mount keeps_overlay_enter)
     (use assms in \<open>simp_all add: frame_tmpfs_mounted\<close>)

lemma adds_overlay_prepare:
  assumes "\<And>e. \<not> landmark e \<Longrightarrow> P e" and "P (Sys (mnt_tmpfs C))"
  shows "adds P s (state_of (overlay_prepare K C s))"
proof -
  have a: "adds P s (state_of (fs_build_mnt_dir K C s))"
    by (rule adds_fs_build_mnt_dir) (use assms in simp_all)
  have b: "adds P t (state_of (overlay_dirs K C t))" for t
    by (rule keeps_adds, rule keeps_overlay_dirs[OF frame_unit]) (rule assms(1))
  show ?thesis
    unfolding overlay_prepare_def by (rule adds_and_then[OF a b])
qed

lemma keeps_overlay_prepare_mounted:
  assumes "tmpfs_mounted s" and "\<And>e. \<not> landmark e \<Longrightarrow> P e"
  shows "keeps P tmpfs_mounted s (state_of (overlay_prepare K C s))"
proof -
  have a: "keeps P tmpfs_mounted s (state_of (fs_build_mnt_dir K C s))"
    by (rule fs_build_mnt_dir_kept[OF assms(1)]) (rule assms(2))
  have b: "keeps P tmpfs_mounted t (state_of (overlay_dirs K C t))" for t
    by (rule keeps_overlay_dirs[OF frame_tmpfs_mounted]) (rule assms(2))
  show ?thesis
    unfolding overlay_prepare_def by (rule keeps_and_then[OF a b])
qed

lemma overlay_prepare_flag:
  assumes "overlay_prepare K C s = Return s'"
  shows "tmpfs_mounted s'"
proof -
  from assms obtain s1 where a: "fs_build_mnt_dir K C s = Return s1"
    and b: "overlay_dirs K C s1 = Return s'"
    unfolding overlay_prepare_def by (rule and_then_ReturnE)
  have "keeps (\<lambda>e. True) tmpfs_mounted s1 (state_of (overlay_dirs K C s1))"
    by (rule keeps_overlay_dirs[OF frame_tmpfs_mounted]) simp
  then show ?thesis
    using fs_build_mnt_dir_flag[OF a] by (simp add: b keeps_def)
qed

lemma adds_overlay_compose:
  assumes "\<And>e. \<not> landmark e \<Longrightarrow> P e" and "P (Sys (mnt_tmpfs C))"
    and "P (Sys (Chroot (overlay_oroot C)))"
    and "\<not> oldkernel \<Longrightarrow> P (Sys (modern_overlay_mount C)) \<and> P (Sys (home_overlay_mount C))"
    and "oldkernel \<Longrightarrow> \<not> arg_overlay_keep C \<Longrightarrow> P (Sys (legacy_overlay_mount C))"
  shows "adds P s (state_of (overlay_compose K C oldkernel s))"
proof -
  have a: "adds P s (state_of (overlay_prepare K C s))"
    by (rule adds_overlay_prepare) (use assms in simp_all)
  have b: "adds P t (state_of (and_then (overlay_mount K C oldkernel t) (overlay_enter K C)))"
    for t
    by (rule keeps_adds, rule keeps_overlay_after) (use assms in simp_all)
  show ?thesis
    unfolding overlay_compose_def by (rule adds_and_then[OF a b])
qed

lemma keeps_overlay_compose_mounted:
  assumes "tmpfs_mounted s" and "\<And>e. \<not> landmark e \<Longrightarrow> P e"
    and "P (Sys (Chroot (overlay_oroot C)))"
    and "\<not> oldkernel \<Longrightarrow> P (Sys (modern_overlay_mount C)) \<and> P (Sys (home_overlay_mount C))"
    and "oldkernel \<Longrightarrow> \<not> arg_overlay_keep C \<Longrightarrow> P (Sys (legacy_overlay_mount C))"
  shows "keeps P tmpfs_mounted s (state_of (overlay_compose K C oldkernel s))"
proof -
  have a: "keeps P tmpfs_mounted s (state_of (overlay_prepare K C s))"
    by (rule keeps_overlay_prepare_mounted[OF assms(1)]) (rule assms(2))
  have b: "keeps P tmpfs_mounted t
             (state_of (and_then (overlay_mount K C oldkernel t) (overlay_enter K C)))" for t
    by (rule keeps_overlay_after) (use assms in simp_all)
  show ?thesis
    unfolding overlay_compose_def by (rule keeps_and_then[OF a b])
qed

section \<open>Which overlay driver a kernel release gets\<close>

lemma scan_releases:
  "scan_version ''3.18.0'' = Some (3, 18)"
  "scan_version ''3.10.0'' = Some (3, 10)"
  "scan_version ''2.6.32'' = Some (2, 6)"
  by (simp_all add: scan_version_def scan_d_def scan_unsigned_def decimal_def is_digit_def
      is_space_def digit_val_def to_c_int_def strtol_range_def)

lemma digit_no_space: "is_digit c \<Longrightarrow> \<not> is_space c \<and> c \<noteq> CHR ''-'' \<and> c \<noteq> CHR ''+''"
  by (auto simp: is_digit_def is_space_def)

lemma scan_d_digits:
  assumes "a \<noteq> []" and "list_all is_digit a" and "rest = [] \<or> \<not> is_digit (hd rest)"
  shows "scan_d (a @ rest) = Some (to_c_int (strtol_range (decimal a)), rest)"
proof -
  obtain c cs where a: "a = c # cs" using assms(1) by (cases a) auto
  have c: "is_digit c" using assms(2) a by simp
  have tw: "takeWhile is_digit (a @ rest) = a"
    using assms(2,3) by (cases rest) (auto simp: list_all_iff takeWhile_append2)
  have dw: "dropWhile is_digit (a @ rest) = rest"
    using assms(2,3) by (cases rest) (auto simp: list_all_iff dropWhile_append2)
  have sp: "dropWhile is_space (a @ rest) = a @ rest"
    using digit_no_space[OF c] by (simp add: a)
  have "scan_signed (a @ rest) = scan_unsigned (a @ rest)"
    using digit_no_space[OF c] by (simp add: a)
  then show ?thesis
    using assms(1) by (simp add: scan_d_def sp scan_unsigned_def tw dw)
qed

lemma scan_version_prefix:
  assumes "a \<noteq> []" and "list_all is_digit a" and "b \<noteq> []" and "list_all is_digit b"
    and "rest = [] \<or> \<not> is_digit (hd rest)"
  shows "scan_version (a @ ''.'' @ b @ rest)
           = Some (to_c_int (strtol_range (decimal a)), to_c_int (strtol_range (decimal b)))"
proof -
  have d: "\<not> is_digit (hd (''.'' @ b @ rest))"
    by (simp add: is_digit_def)
  have 1: "scan_d (a @ ''.'' @ b @ rest)
             = Some (to_c_int (strtol_range (decimal a)), ''.'' @ b @ rest)"
    using scan_d_digits[OF assms(1,2), of "''.'' @ b @ rest"] d by simp
  have 2: "scan_d (b @ rest) = Some (to_c_int (strtol_range (decimal b)), rest)"
    by (rule scan_d_digits[OF assms(3,4,5)])
  show ?thesis
    unfolding scan_version_def 1 using 2 by simp
qed

lemma overlayfs_by_release:
  assumes "k_uname K (world s) = Some (release, version)"
    and "scan_version release = Some (major, minor)"
  shows "fs_overlayfs K C s =
     (if major < 3
      then Exit 1 (emit (Stderr (''Error: minimum kernel version required 3.x'' @ nl))
                     (dbg C (''Linux kernel version '' @ string_of_int major @ ''.''
                             @ string_of_int minor @ nl) s))
      else overlay_compose K C (major = 3 \<and> minor < 18)
             (dbg C (''Linux kernel version '' @ string_of_int major @ ''.''
                     @ string_of_int minor @ nl) s))"
  by (simp add: fs_overlayfs_def assms)

lemma mem_drop_more: "e \<in> set (drop (n + k) xs) \<Longrightarrow> e \<in> set (drop n xs)"
  using set_drop_subset_set_drop[of n "n + k" xs] by auto

lemma overlay_is_landmark: "overlay_mount_event e \<Longrightarrow> landmark e"
  by (cases e rule: landmark.cases) auto

lemma chroot_is_landmark: "is_chroot e \<Longrightarrow> landmark e"
  by (cases e rule: landmark.cases) simp_all

lemma overlay_mount_returns:
  assumes "overlay_mount K C oldkernel s = Return s'"
  shows "\<exists>a b. trace s' = trace s @ a
            @ Sys (if oldkernel then legacy_overlay_mount C else modern_overlay_mount C) # b"
proof (cases oldkernel)
  case True
  with assms have "sys_or_die K (legacy_overlay_mount C) ''mounting overlayfs''
                     (dbg C (''Mounting OverlayFS'' @ nl) s) = Return s'"
    by (simp add: overlay_mount_def Let_def split: if_splits)
  then have "\<exists>a. trace s' = trace s @ a @ [Sys (legacy_overlay_mount C)]"
    by (auto simp: sys_or_die_returns sys_def dbg_def emit_def)
  with True show ?thesis by auto
next
  case False
  with assms obtain s1 where
    m: "sys_or_die K (modern_overlay_mount C) ''mounting overlayfs''
          (dbg C (''Mounting OverlayFS'' @ nl) s) = Return s1"
    and h: "overlay_home K C s1 = Return s'"
    by (auto simp: overlay_mount_def Let_def elim!: and_then_ReturnE)
  from m have a: "\<exists>a. trace s1 = trace s @ a @ [Sys (modern_overlay_mount C)]"
    by (auto simp: sys_or_die_returns sys_def dbg_def emit_def)
  have "keeps (\<lambda>e. True) (\<lambda>s. ()) s1 (state_of (overlay_home K C s1))"
    by (rule keeps_overlay_home) (simp_all add: frame_unit)
  from grows[OF this h] obtain b where b: "trace s' = trace s1 @ b"
    by blast
  from a obtain a' where a': "trace s1 = trace s @ a' @ [Sys (modern_overlay_mount C)]"
    by blast
  have "trace s' = trace s @ a' @ Sys (modern_overlay_mount C) # b"
    by (simp add: a' b)
  with False show ?thesis by auto
qed

lemma overlay_compose_returns:
  assumes "overlay_compose K C oldkernel s = Return s'"
  shows "tmpfs_mounted s'
    \<and> Sys (if oldkernel then legacy_overlay_mount C else modern_overlay_mount C)
         \<in> set (drop (length (trace s)) (trace s'))"
proof -
  from assms obtain s1 s2 where a1: "overlay_prepare K C s = Return s1"
    and a2: "overlay_mount K C oldkernel s1 = Return s2"
    and a3: "overlay_enter K C s2 = Return s'"
    unfolding overlay_compose_def by (elim and_then_ReturnE) (rule that; assumption)
  have "adds (\<lambda>e. True) s (state_of (overlay_prepare K C s))"
    by (rule adds_overlay_prepare) simp_all
  then obtain x where x: "trace s1 = trace s @ x"
    by (auto simp: a1 adds_iff)
  from overlay_mount_returns[OF a2] obtain a b where
    y: "trace s2 = trace s1 @ a
          @ Sys (if oldkernel then legacy_overlay_mount C else modern_overlay_mount C) # b"
    by blast
  have k1: "keeps (\<lambda>e. True) tmpfs_mounted s1 (state_of (overlay_mount K C oldkernel s1))"
    by (rule keeps_overlay_mount) (simp_all add: frame_tmpfs_mounted)
  have k2: "keeps (\<lambda>e. True) tmpfs_mounted s2 (state_of (overlay_enter K C s2))"
    by (rule keeps_overlay_enter) simp_all
  from news[OF k2 a3] obtain z where z: "trace s' = trace s2 @ z"
    and f2: "tmpfs_mounted s' = tmpfs_mounted s2"
    by blast
  from news[OF k1 a2] have f1: "tmpfs_mounted s2 = tmpfs_mounted s1"
    by blast
  show ?thesis
    using overlay_prepare_flag[OF a1] by (simp add: x y z f1 f2)
qed

lemma ordinary_and_then:
  "ordinary r \<Longrightarrow> (\<And>s. ordinary (f s)) \<Longrightarrow> ordinary (and_then r f)"
  by (cases r) simp_all

lemma fatal_and_then:
  "ordinary r \<Longrightarrow> (\<And>s. fatal (f s)) \<Longrightarrow> fatal (and_then r f)"
  by (cases r) simp_all

lemma ordinary_sys_or_die: "ordinary (sys_or_die K c m s)"
  by (simp add: sys_or_die_def errExit_def)

lemma ordinary_ext: "ordinary (ext K c s)"
  by (simp add: ext_def split: option.splits)

lemma ordinary_unless_stat: "(\<And>s. ordinary (f s)) \<Longrightarrow> ordinary (unless_stat K p f s)"
  by (simp add: unless_stat_def split: option.splits)

lemma ordinary_create_dir_as_root: "ordinary (create_dir_as_root K C d m s)"
  unfolding create_dir_as_root_def
  by (intro ordinary_and_then ordinary_sys_or_die ordinary_ext)

lemma ordinary_fs_build_firejail_dir: "ordinary (fs_build_firejail_dir K C s)"
proof -
  have a: "ordinary (check_firejail_dir K C t)" for t
    by (simp add: check_firejail_dir_def ordinary_create_dir_as_root split: option.splits)
  have b: "ordinary (create_empty_dir K C t)" for t
    unfolding create_empty_dir_def
    by (intro ordinary_unless_stat ordinary_and_then ordinary_sys_or_die ordinary_ext
          ordinary_create_dir_as_root)
  have c: "ordinary (create_empty_file K C t)" for t
    unfolding create_empty_file_def
    by (intro ordinary_unless_stat ordinary_and_then ordinary_sys_or_die ordinary_ext
          ordinary_create_dir_as_root) (simp_all add: ordinary_ext ordinary_sys_or_die)
  show ?thesis
    unfolding fs_build_firejail_dir_def
    by (intro ordinary_and_then ordinary_unless_stat ordinary_create_dir_as_root a b c)
qed

lemma ordinary_fs_build_mnt_dir: "ordinary (fs_build_mnt_dir K C s)"
  unfolding fs_build_mnt_dir_def
  by (intro ordinary_and_then ordinary_unless_stat ordinary_create_dir_as_root
        ordinary_fs_build_firejail_dir)
     (simp add: ordinary_and_then ordinary_sys_or_die)

lemma ordinary_layer_dir: "ordinary (layer_dir K d m s)"
  unfolding layer_dir_def
  by (intro ordinary_and_then ordinary_unless_stat ordinary_sys_or_die)

lemma ordinary_overlay_keep_dir: "ordinary (overlay_keep_dir K C s)"
  by (simp add: overlay_keep_dir_def split: option.splits)

lemma ordinary_overlay_prepare: "ordinary (overlay_prepare K C s)"
  unfolding overlay_prepare_def overlay_dirs_def
  by (intro ordinary_and_then ordinary_fs_build_mnt_dir ordinary_sys_or_die ordinary_ext
        ordinary_overlay_keep_dir ordinary_layer_dir)

lemma overlay_compose_keep:
  assumes "arg_overlay_keep C"
  shows "overlay_compose K C True s =
     and_then (overlay_prepare K C s) (\<lambda>s1.
       Exit 1 (emit (Stderr (''Error: option --overlay= not available for kernels older than 3.18''
                             @ nl))
                 (dbg C (''Mounting OverlayFS'' @ nl) s1)))"
  by (simp add: overlay_compose_def overlay_mount_def Let_def assms)

text \<open>
  C8.  \<^verbatim>\<open>fs_overlayfs\<close> reads major and minor from the start of the kernel release string with
  \<^verbatim>\<open>sscanf("%d.%d")\<close> into two C \<^verbatim>\<open>int\<close>s: digits, a dot, digits, and anything after them that is
  not a digit, give the two numbers as a C \<^verbatim>\<open>int\<close> holds them; \<^verbatim>\<open>3.18.0\<close> gives 3 and 18,
  \<^verbatim>\<open>3.10.0\<close> gives 3 and 10.  When the conversion fails the run exits with code 1 after the
  error message.  For major and minor as read:
  \<^item> major below 3: exit with code 1 after the error message, before any system call;
  \<^item> 3.18 or later: the only overlay-type mounts are the one of the modern driver on the
    overlay root (type \<^verbatim>\<open>overlay\<close>, options \<^verbatim>\<open>lowerdir\<close>, \<^verbatim>\<open>upperdir\<close> and \<^verbatim>\<open>workdir\<close>) and the one
    for a separate home, and a run that returns has issued the first;
  \<^item> 3.0 to 3.17 without a kept overlay: the only overlay-type mount is the one of the legacy
    driver (type \<^verbatim>\<open>overlayfs\<close>, options \<^verbatim>\<open>lowerdir\<close> and \<^verbatim>\<open>upperdir\<close> only), issued by every
    run that returns;
  \<^item> 3.0 to 3.17 with a kept overlay: the run is the preparation (the staging bootstrap,
    which mounts the staging tmpfs when it is not mounted yet, and the overlay directories)
    followed, when the preparation returns, by an exit with code 1 after the error message;
    it always ends in an exit and issues no overlay-type mount.
\<close>

theorem kernel_release_selects_driver:
  assumes "k_uname K (world s) = Some (release, version)"
  shows
    "scan_version ''3.18.0'' = Some (3, 18) \<and> scan_version ''3.10.0'' = Some (3, 10)
     \<and> (\<forall>a b rest. a \<noteq> [] \<and> list_all is_digit a \<and> b \<noteq> [] \<and> list_all is_digit b
            \<and> (rest = [] \<or> \<not> is_digit (hd rest))
          \<longrightarrow> scan_version (a @ ''.'' @ b @ rest)
                = Some (to_c_int (strtol_range (decimal a)), to_c_int (strtol_range (decimal b))))
     \<and> (scan_version release = None \<longrightarrow>
          fs_overlayfs K C s
          = Exit 1 (emit (Stderr (''Error: cannot extract Linux kernel version: '' @ version @ nl)) s))
     \<and> (\<forall>major minor. scan_version release = Some (major, minor) \<longrightarrow>
          (major < 3 \<longrightarrow>
             fs_overlayfs K C s
             = Exit 1 (emit (Stderr (''Error: minimum kernel version required 3.x'' @ nl))
                         (dbg C (''Linux kernel version '' @ string_of_int major @ ''.''
                                 @ string_of_int minor @ nl) s)))
        \<and> (3 \<le> major \<and> \<not> (major = 3 \<and> minor < 18) \<longrightarrow>
             adds (\<lambda>e. overlay_mount_event e
                     \<longrightarrow> e = Sys (modern_overlay_mount C) \<or> e = Sys (home_overlay_mount C))
               s (state_of (fs_overlayfs K C s))
             \<and> (returns (fs_overlayfs K C s)
                  \<longrightarrow> Sys (modern_overlay_mount C)
                        \<in> set (drop (length (trace s)) (trace (state_of (fs_overlayfs K C s))))))
        \<and> (major = 3 \<and> minor < 18 \<and> \<not> arg_overlay_keep C \<longrightarrow>
             adds (\<lambda>e. overlay_mount_event e \<longrightarrow> e = Sys (legacy_overlay_mount C))
               s (state_of (fs_overlayfs K C s))
             \<and> (returns (fs_overlayfs K C s)
                  \<longrightarrow> Sys (legacy_overlay_mount C)
                        \<in> set (drop (length (trace s)) (trace (state_of (fs_overlayfs K C s))))))
        \<and> (major = 3 \<and> minor < 18 \<and> arg_overlay_keep C \<longrightarrow>
             fs_overlayfs K C s
             = and_then (overlay_prepare K C
                           (dbg C (''Linux kernel version '' @ string_of_int major @ ''.''
                                   @ string_of_int minor @ nl) s))
                 (\<lambda>s1. Exit 1
                    (emit (Stderr (''Error: option --overlay= not available for kernels older than 3.18''
                                   @ nl))
                       (dbg C (''Mounting OverlayFS'' @ nl) s1)))
             \<and> ordinary (overlay_prepare K C
                           (dbg C (''Linux kernel version '' @ string_of_int major @ ''.''
                                   @ string_of_int minor @ nl) s))
             \<and> fatal (fs_overlayfs K C s)
             \<and> adds (\<lambda>e. \<not> overlay_mount_event e) s (state_of (fs_overlayfs K C s))))"
proof -
  have parse: "\<forall>a b rest. a \<noteq> [] \<and> list_all is_digit a \<and> b \<noteq> [] \<and> list_all is_digit b
            \<and> (rest = [] \<or> \<not> is_digit (hd rest))
          \<longrightarrow> scan_version (a @ ''.'' @ b @ rest)
                = Some (to_c_int (strtol_range (decimal a)), to_c_int (strtol_range (decimal b)))"
    using scan_version_prefix by blast
  have none: "scan_version release = None \<longrightarrow>
          fs_overlayfs K C s
          = Exit 1 (emit (Stderr (''Error: cannot extract Linux kernel version: '' @ version @ nl)) s)"
    by (simp add: fs_overlayfs_def assms)
  have sel: "(major < 3 \<longrightarrow>
             fs_overlayfs K C s
             = Exit 1 (emit (Stderr (''Error: minimum kernel version required 3.x'' @ nl))
                         (dbg C (''Linux kernel version '' @ string_of_int major @ ''.''
                                 @ string_of_int minor @ nl) s)))
        \<and> (3 \<le> major \<and> \<not> (major = 3 \<and> minor < 18) \<longrightarrow>
             adds (\<lambda>e. overlay_mount_event e
                     \<longrightarrow> e = Sys (modern_overlay_mount C) \<or> e = Sys (home_overlay_mount C))
               s (state_of (fs_overlayfs K C s))
             \<and> (returns (fs_overlayfs K C s)
                  \<longrightarrow> Sys (modern_overlay_mount C)
                        \<in> set (drop (length (trace s)) (trace (state_of (fs_overlayfs K C s))))))
        \<and> (major = 3 \<and> minor < 18 \<and> \<not> arg_overlay_keep C \<longrightarrow>
             adds (\<lambda>e. overlay_mount_event e \<longrightarrow> e = Sys (legacy_overlay_mount C))
               s (state_of (fs_overlayfs K C s))
             \<and> (returns (fs_overlayfs K C s)
                  \<longrightarrow> Sys (legacy_overlay_mount C)
                        \<in> set (drop (length (trace s)) (trace (state_of (fs_overlayfs K C s))))))
        \<and> (major = 3 \<and> minor < 18 \<and> arg_overlay_keep C \<longrightarrow>
             fs_overlayfs K C s
             = and_then (overlay_prepare K C
                           (dbg C (''Linux kernel version '' @ string_of_int major @ ''.''
                                   @ string_of_int minor @ nl) s))
                 (\<lambda>s1. Exit 1
                    (emit (Stderr (''Error: option --overlay= not available for kernels older than 3.18''
                                   @ nl))
                       (dbg C (''Mounting OverlayFS'' @ nl) s1)))
             \<and> ordinary (overlay_prepare K C
                           (dbg C (''Linux kernel version '' @ string_of_int major @ ''.''
                                   @ string_of_int minor @ nl) s))
             \<and> fatal (fs_overlayfs K C s)
             \<and> adds (\<lambda>e. \<not> overlay_mount_event e) s (state_of (fs_overlayfs K C s)))"
    if sv: "scan_version release = Some (major, minor)" for major minor
  proof -
    define s0 where "s0 = dbg C (''Linux kernel version '' @ string_of_int major @ ''.''
                                 @ string_of_int minor @ nl) s"
    note by_release = overlayfs_by_release[OF assms sv, of C, folded s0_def]
    have d: "adds P s s0" if "\<And>e. \<not> landmark e \<Longrightarrow> P e" for P
      using that by (simp add: s0_def dbg_def emit_def adds_iff)
    have len: "\<exists>evs. trace s0 = trace s @ evs"
      by (simp add: s0_def dbg_def emit_def)
    have low: "major < 3 \<longrightarrow>
             fs_overlayfs K C s
             = Exit 1 (emit (Stderr (''Error: minimum kernel version required 3.x'' @ nl)) s0)"
      using by_release by simp
    have modern: "adds (\<lambda>e. overlay_mount_event e
                     \<longrightarrow> e = Sys (modern_overlay_mount C) \<or> e = Sys (home_overlay_mount C))
               s (state_of (fs_overlayfs K C s))
             \<and> (returns (fs_overlayfs K C s)
                  \<longrightarrow> Sys (modern_overlay_mount C)
                        \<in> set (drop (length (trace s)) (trace (state_of (fs_overlayfs K C s)))))"
      if c: "3 \<le> major \<and> \<not> (major = 3 \<and> minor < 18)"
    proof -
      have eq: "fs_overlayfs K C s = overlay_compose K C False s0"
        using by_release c by auto
      have a: "adds (\<lambda>e. overlay_mount_event e
                     \<longrightarrow> e = Sys (modern_overlay_mount C) \<or> e = Sys (home_overlay_mount C))
               s0 (state_of (overlay_compose K C False s0))"
        by (rule adds_overlay_compose) (use overlay_is_landmark in \<open>auto simp: mnt_tmpfs_def\<close>)
      have b: "Sys (modern_overlay_mount C)
                 \<in> set (drop (length (trace s)) (trace (state_of (fs_overlayfs K C s))))"
        if "returns (fs_overlayfs K C s)"
      proof -
        have "overlay_compose K C False s0 = Return (state_of (fs_overlayfs K C s))"
          using that returns_iff[of "fs_overlayfs K C s"] by (simp add: eq)
        from overlay_compose_returns[OF this] len show ?thesis
          by (auto dest: mem_drop_more)
      qed
      have d': "adds (\<lambda>e. overlay_mount_event e
                     \<longrightarrow> e = Sys (modern_overlay_mount C) \<or> e = Sys (home_overlay_mount C))
                  s s0"
        by (rule d) (use overlay_is_landmark in blast)
      show ?thesis
        using adds_trans[OF d' a] b by (simp add: eq)
    qed
    have legacy: "adds (\<lambda>e. overlay_mount_event e \<longrightarrow> e = Sys (legacy_overlay_mount C))
               s (state_of (fs_overlayfs K C s))
             \<and> (returns (fs_overlayfs K C s)
                  \<longrightarrow> Sys (legacy_overlay_mount C)
                        \<in> set (drop (length (trace s)) (trace (state_of (fs_overlayfs K C s)))))"
      if c: "major = 3 \<and> minor < 18 \<and> \<not> arg_overlay_keep C"
    proof -
      have eq: "fs_overlayfs K C s = overlay_compose K C True s0"
        using by_release c by auto
      have a: "adds (\<lambda>e. overlay_mount_event e \<longrightarrow> e = Sys (legacy_overlay_mount C))
               s0 (state_of (overlay_compose K C True s0))"
        by (rule adds_overlay_compose) (use overlay_is_landmark in \<open>auto simp: mnt_tmpfs_def\<close>)
      have b: "Sys (legacy_overlay_mount C)
                 \<in> set (drop (length (trace s)) (trace (state_of (fs_overlayfs K C s))))"
        if "returns (fs_overlayfs K C s)"
      proof -
        have "overlay_compose K C True s0 = Return (state_of (fs_overlayfs K C s))"
          using that returns_iff[of "fs_overlayfs K C s"] by (simp add: eq)
        from overlay_compose_returns[OF this] len show ?thesis
          by (auto dest: mem_drop_more)
      qed
      have d': "adds (\<lambda>e. overlay_mount_event e \<longrightarrow> e = Sys (legacy_overlay_mount C)) s s0"
        by (rule d) (use overlay_is_landmark in blast)
      show ?thesis
        using adds_trans[OF d' a] b by (simp add: eq)
    qed
    have keep: "fs_overlayfs K C s
             = and_then (overlay_prepare K C s0)
                 (\<lambda>s1. Exit 1
                    (emit (Stderr (''Error: option --overlay= not available for kernels older than 3.18''
                                   @ nl))
                       (dbg C (''Mounting OverlayFS'' @ nl) s1)))
             \<and> ordinary (overlay_prepare K C s0)
             \<and> fatal (fs_overlayfs K C s)
             \<and> adds (\<lambda>e. \<not> overlay_mount_event e) s (state_of (fs_overlayfs K C s))"
      if c: "major = 3 \<and> minor < 18 \<and> arg_overlay_keep C"
    proof -
      have eq: "fs_overlayfs K C s = overlay_compose K C True s0"
        using by_release c by auto
      have k: "arg_overlay_keep C" using c by simp
      have a: "adds (\<lambda>e. \<not> overlay_mount_event e) s0 (state_of (overlay_compose K C True s0))"
        by (rule adds_overlay_compose) (use k overlay_is_landmark in \<open>auto simp: mnt_tmpfs_def\<close>)
      have f: "fatal (overlay_compose K C True s0)"
        unfolding overlay_compose_keep[OF k]
        by (rule fatal_and_then[OF ordinary_overlay_prepare]) simp
      have d': "adds (\<lambda>e. \<not> overlay_mount_event e) s s0"
        by (rule d) (use overlay_is_landmark in blast)
      show ?thesis
        using adds_trans[OF d' a] f ordinary_overlay_prepare[of K C s0] overlay_compose_keep[OF k, of K s0]
        by (simp add: eq)
    qed
    show ?thesis
      using low modern legacy keep unfolding s0_def by blast
  qed
  show ?thesis
    using scan_releases(1,2) parse none sel by blast
qed

lemma calm_staging:
  assumes "world s = demo_files" and "paths C = demo_macros" and "\<not> arg_debug C"
  shows "fs_build_firejail_dir (calm_kernel\<lparr>k_uname := u\<rparr>) C s = Return s"
  using assms
  by (simp add: calm_kernel_def demo_kernel_def demo_macros_def demo_files_def
      dir_stat_def file_stat_def step_defs staging_defs)

lemma calm_mnt:
  assumes "world s = demo_files" and "paths C = demo_macros" and "\<not> arg_debug C"
  shows "fs_build_mnt_dir (calm_kernel\<lparr>k_uname := u\<rparr>) C s =
     (if tmpfs_mounted s then Return s
      else Return (s\<lparr>trace := trace s @ [Sys (mnt_tmpfs C),
                                        Logger2 ''tmpfs'' ''/run/firejail/mnt''],
                    tmpfs_mounted := True\<rparr>))"
  unfolding fs_build_mnt_dir_def calm_staging[OF assms]
  using assms
  by (simp add: calm_kernel_def demo_kernel_def demo_macros_def demo_files_def step_defs)

lemmas overlay_defs = overlay_compose_def overlay_prepare_def overlay_dirs_def overlay_enter_def
  layer_dir_def overlay_oroot_def overlay_basedir_def
  overlay_keep_dir_def legacy_overlay_mount_def modern_overlay_mount_def home_overlay_mount_def
  overlay_home_def overlay_mount_def overlay_binds_def update_var_and_users_def homedir_text_def
  mnt_tmpfs_def Let_def

lemma demo_paths:
  "paths demo_config = demo_macros" "\<not> arg_debug demo_config"
  "paths keep_config = demo_macros" "\<not> arg_debug keep_config"
  by (simp_all add: demo_config_def keep_config_def)

lemma calm_first:
  assumes "paths C = demo_macros" and "\<not> arg_debug C"
  shows "fs_build_mnt_dir (calm_kernel\<lparr>k_uname := u\<rparr>) C (initial demo_files)
     = Return ((initial demo_files)
         \<lparr>trace := [Sys (mnt_tmpfs C), Logger2 ''tmpfs'' ''/run/firejail/mnt''],
          tmpfs_mounted := True\<rparr>)"
  using calm_mnt[of "initial demo_files" C u] assms by (simp add: initial_def)

lemma calm_compose:
  "overlay_compose (calm_kernel\<lparr>k_uname := u\<rparr>) demo_config oldkernel (initial demo_files)
   = Return ((initial demo_files)
       \<lparr>trace := (if oldkernel then legacy_run else modern_run), tmpfs_mounted := True\<rparr>)"
  unfolding overlay_compose_def overlay_prepare_def calm_first[OF demo_paths(1,2)]
  by (simp add: overlay_defs calm_kernel_def demo_kernel_def demo_config_def demo_macros_def
      demo_files_def step_defs initial_def legacy_run_def modern_run_def overlay_prepared_def
      overlay_entered_def)

lemma calm_keep_prepare:
  "and_then (overlay_prepare (calm_kernel\<lparr>k_uname := u\<rparr>) keep_config (initial demo_files))
     (\<lambda>s1. Exit 1
        (emit (Stderr (''Error: option --overlay= not available for kernels older than 3.18''
                       @ nl))
           (dbg keep_config (''Mounting OverlayFS'' @ nl) s1)))
   = Exit 1 ((initial demo_files)\<lparr>trace := keep_refused_run, tmpfs_mounted := True\<rparr>)"
  unfolding overlay_prepare_def calm_first[OF demo_paths(3,4)]
  by (simp add: overlay_defs calm_kernel_def demo_kernel_def demo_config_def keep_config_def
      demo_macros_def demo_files_def step_defs initial_def keep_refused_run_def)

lemma calm_uname:
  "k_uname calm_kernel (world (initial demo_files)) = Some (''3.18.0'', ''#1 SMP'')"
  "k_uname legacy_kernel (world (initial demo_files)) = Some (''3.10.0'', ''#1 SMP'')"
  "k_uname ancient_kernel (world (initial demo_files)) = Some (''2.6.32'', ''#1 SMP'')"
  by (simp_all add: calm_kernel_def demo_kernel_def legacy_kernel_def ancient_kernel_def)

lemma demo_quiet: "dbg demo_config m t = t" "dbg keep_config m t = t"
  by (simp_all add: dbg_def demo_config_def keep_config_def)

lemma calm_overlay:
  "fs_overlayfs calm_kernel demo_config (initial demo_files)
   = Return ((initial demo_files)\<lparr>trace := modern_run, tmpfs_mounted := True\<rparr>)"
  using calm_compose[of "k_uname calm_kernel" False]
  by (simp add: overlayfs_by_release[OF calm_uname(1) scan_releases(1)] demo_quiet)

lemma legacy_overlay:
  "fs_overlayfs legacy_kernel demo_config (initial demo_files)
   = Return ((initial demo_files)\<lparr>trace := legacy_run, tmpfs_mounted := True\<rparr>)"
proof -
  have e: "fs_overlayfs legacy_kernel demo_config (initial demo_files)
           = overlay_compose legacy_kernel demo_config True (initial demo_files)"
    by (simp add: overlayfs_by_release[OF calm_uname(2) scan_releases(2)] demo_quiet)
  show ?thesis
    unfolding e using calm_compose[of "\<lambda>w. Some (''3.10.0'', ''#1 SMP'')" True]
    by (simp add: legacy_kernel_def)
qed

lemma legacy_keep_refused:
  "fs_overlayfs legacy_kernel keep_config (initial demo_files)
   = Exit 1 ((initial demo_files)\<lparr>trace := keep_refused_run, tmpfs_mounted := True\<rparr>)"
proof -
  have k: "arg_overlay_keep keep_config"
    by (simp add: keep_config_def)
  have e: "fs_overlayfs legacy_kernel keep_config (initial demo_files)
           = overlay_compose legacy_kernel keep_config True (initial demo_files)"
    by (simp add: overlayfs_by_release[OF calm_uname(2) scan_releases(2)] demo_quiet)
  have "overlay_compose legacy_kernel keep_config True (initial demo_files)
          = Exit 1 ((initial demo_files)\<lparr>trace := keep_refused_run, tmpfs_mounted := True\<rparr>)"
    unfolding overlay_compose_keep[OF k] legacy_kernel_def by (rule calm_keep_prepare)
  then show ?thesis
    by (simp only: e)
qed

theorem kernel_release_selects_driver_witness:
  "k_uname calm_kernel (world (initial demo_files)) = Some (''3.18.0'', ''#1 SMP'')
   \<and> returns (fs_overlayfs calm_kernel demo_config (initial demo_files))
   \<and> Sys (Mount (Some ''overlay'') ''/run/firejail/mnt/oroot'' (Some ''overlay'') [MS_MGC_VAL]
            (Some ''lowerdir=/,upperdir=/run/firejail/mnt/odiff,workdir=/run/firejail/mnt/owork''))
       \<in> set (trace (state_of (fs_overlayfs calm_kernel demo_config (initial demo_files))))
   \<and> k_uname legacy_kernel (world (initial demo_files)) = Some (''3.10.0'', ''#1 SMP'')
   \<and> \<not> arg_overlay_keep demo_config
   \<and> returns (fs_overlayfs legacy_kernel demo_config (initial demo_files))
   \<and> Sys (Mount (Some ''overlayfs'') ''/run/firejail/mnt/oroot'' (Some ''overlayfs'') [MS_MGC_VAL]
            (Some ''lowerdir=/,upperdir=/run/firejail/mnt/odiff''))
       \<in> set (trace (state_of (fs_overlayfs legacy_kernel demo_config (initial demo_files))))
   \<and> arg_overlay_keep keep_config
   \<and> fatal (fs_overlayfs legacy_kernel keep_config (initial demo_files))
   \<and> list_all (\<lambda>e. \<not> overlay_mount_event e)
        (trace (state_of (fs_overlayfs legacy_kernel keep_config (initial demo_files))))
   \<and> k_uname ancient_kernel (world (initial demo_files)) = Some (''2.6.32'', ''#1 SMP'')
   \<and> scan_version ''2.6.32'' = Some (2, 6)
   \<and> fs_overlayfs ancient_kernel demo_config (initial demo_files)
       = Exit 1 ((initial demo_files)
           \<lparr>trace := [Stderr (''Error: minimum kernel version required 3.x'' @ nl)]\<rparr>)
   \<and> scan_version ''4294967298.0-rc1'' = Some (2, 0)"
proof -
  note u1 = calm_uname(1) and u2 = calm_uname(2) and u3 = calm_uname(3)
  have c: "\<not> arg_overlay_keep demo_config" "arg_overlay_keep keep_config"
    "\<not> arg_debug demo_config"
    by (simp_all add: demo_config_def keep_config_def)
  have p1: "returns (fs_overlayfs calm_kernel demo_config (initial demo_files))"
    by (simp add: calm_overlay)
  have p2: "returns (fs_overlayfs legacy_kernel demo_config (initial demo_files))"
    by (simp add: legacy_overlay)
  have m1: "modern_overlay_mount demo_config
     = Mount (Some ''overlay'') ''/run/firejail/mnt/oroot'' (Some ''overlay'') [MS_MGC_VAL]
         (Some ''lowerdir=/,upperdir=/run/firejail/mnt/odiff,workdir=/run/firejail/mnt/owork'')"
    by (simp add: modern_overlay_mount_def overlay_oroot_def overlay_basedir_def demo_config_def
        demo_macros_def)
  have m2: "legacy_overlay_mount demo_config
     = Mount (Some ''overlayfs'') ''/run/firejail/mnt/oroot'' (Some ''overlayfs'') [MS_MGC_VAL]
         (Some ''lowerdir=/,upperdir=/run/firejail/mnt/odiff'')"
    by (simp add: legacy_overlay_mount_def overlay_oroot_def overlay_basedir_def demo_config_def
        demo_macros_def)
  have t1: "Sys (modern_overlay_mount demo_config)
       \<in> set (trace (state_of (fs_overlayfs calm_kernel demo_config (initial demo_files))))"
    using kernel_release_selects_driver[OF u1, of demo_config] p1
    by (simp add: scan_releases)
  have t2: "Sys (legacy_overlay_mount demo_config)
       \<in> set (trace (state_of (fs_overlayfs legacy_kernel demo_config (initial demo_files))))"
    using kernel_release_selects_driver[OF u2, of demo_config] p2 c
    by (simp add: scan_releases)
  have t3: "fatal (fs_overlayfs legacy_kernel keep_config (initial demo_files))
     \<and> list_all (\<lambda>e. \<not> overlay_mount_event e)
        (trace (state_of (fs_overlayfs legacy_kernel keep_config (initial demo_files))))"
  proof -
    from kernel_release_selects_driver[OF u2, of keep_config]
    have "\<forall>major minor. scan_version ''3.10.0'' = Some (major, minor) \<longrightarrow>
            (major = 3 \<and> minor < 18 \<and> arg_overlay_keep keep_config \<longrightarrow>
               fatal (fs_overlayfs legacy_kernel keep_config (initial demo_files))
               \<and> adds (\<lambda>e. \<not> overlay_mount_event e) (initial demo_files)
                     (state_of (fs_overlayfs legacy_kernel keep_config (initial demo_files))))"
      by blast
    then show ?thesis
      using c(2) by (simp add: scan_releases adds_def)
  qed
  have t4: "fs_overlayfs ancient_kernel demo_config (initial demo_files)
       = Exit 1 ((initial demo_files)
           \<lparr>trace := [Stderr (''Error: minimum kernel version required 3.x'' @ nl)]\<rparr>)"
    using kernel_release_selects_driver[OF u3, of demo_config] c
    by (simp add: scan_releases dbg_def emit_def)
  have dg: "list_all is_digit ''4294967298''" "list_all is_digit ''0''"
    "\<not> is_digit (hd ''-rc1'')"
    by (simp_all add: is_digit_def)
  have dv: "to_c_int (strtol_range (decimal ''4294967298'')) = 2"
    "to_c_int (strtol_range (decimal ''0'')) = 0"
    by (simp_all add: decimal_def digit_val_def to_c_int_def strtol_range_def)
  have "scan_version (''4294967298'' @ ''.'' @ ''0'' @ ''-rc1'')
          = Some (to_c_int (strtol_range (decimal ''4294967298'')),
                  to_c_int (strtol_range (decimal ''0'')))"
    using kernel_release_selects_driver[OF u1, of demo_config] dg by blast
  then have t5: "scan_version ''4294967298.0-rc1'' = Some (2, 0)"
    by (simp add: dv)
  show ?thesis
    using u1 u2 u3 c p1 p2 t1 t2 t3 t4 t5 by (simp only: m1 m2 scan_releases simp_thms)
qed

theorem kernel_release_selects_driver_counterexample:
  "k_uname legacy_kernel (world (initial demo_files)) = Some (''3.10.0'', ''#1 SMP'')
   \<and> arg_overlay_keep keep_config
   \<and> fs_overlayfs legacy_kernel keep_config (initial demo_files)
       = Exit 1 ((initial demo_files)\<lparr>trace := keep_refused_run, tmpfs_mounted := True\<rparr>)
   \<and> keep_refused_run ! 0
       = Sys (Mount (Some ''tmpfs'') ''/run/firejail/mnt'' (Some ''tmpfs'')
                [MS_NOSUID, MS_STRICTATIME, MS_REC] (Some ''mode=755,gid=0''))
   \<and> keep_refused_run ! 5 = Sys (Mkdir ''/home/user/.firejail/keep'' 493)
   \<and> last keep_refused_run
       = Stderr (''Error: option --overlay= not available for kernels older than 3.18'' @ nl)"
  using calm_uname(2) legacy_keep_refused by (simp add: keep_config_def keep_refused_run_def)

section \<open>The staging mount after a change of root\<close>

lemma grows_chroot_prepare:
  assumes "chroot_prepare K C rootdir s = Return s'"
  shows "\<exists>evs. trace s' = trace s @ evs"
proof -
  from assms obtain s1 s2 where
    a: "sys_or_die K (Mount (Some ''/dev'') (rootdir @ ''/dev'') None [MS_BIND, MS_REC] None)
          ''mounting /dev'' (dbg C (''Mounting /dev on '' @ rootdir @ ''/dev'' @ nl) s) = Return s1"
    and b: "(case k_getenv K ''FIREJAIL_X11'' (world s1) of
          None \<Rightarrow> Return s1
        | Some v \<Rightarrow>
            sys_or_die K (Mount (Some ''/tmp/.X11-unix'') (rootdir @ ''/tmp/.X11-unix'') None
                            [MS_BIND, MS_REC] None)
              ''mounting /tmp/.X11-unix''
              (dbg C (''Mounting /tmp/.X11-unix on '' @ rootdir @ ''/tmp/.X11-unix'' @ nl)
                 (s1\<lparr>mask_x11_abstract_socket := True\<rparr>))) = Return s2"
    and c: "(let s1 = (if \<not> x_is_dir K (rootdir @ ''/run'') (world s2)
                then snd (sys K (Chown (rootdir @ ''/run'') 0 0)
                            (snd (sys K (Mkdir (rootdir @ ''/run'') 493) s2)))
                else s2);
          s2 = dbg C (''Updating /etc/resolv.conf in '' @ rootdir @ ''/etc/resolv.conf'' @ nl) s1
      in if x_is_link K (rootdir @ ''/etc/resolv.conf'') (world s2)
         then Exit 1 (emit (Stderr (''Error: invalid '' @ rootdir @ ''/etc/resolv.conf''
                                    @ '' file'' @ nl)) s2)
         else
           (let r = sys K (Copy_file ''/etc/resolv.conf'' (rootdir @ ''/etc/resolv.conf'') 0 0 420) s2
            in if fst r then Return (snd r)
               else Return (emit (Stderr (''Warning: /etc/resolv.conf not initialized'' @ nl))
                              (snd r)))) = Return s'"
    unfolding chroot_prepare_def by (elim and_then_ReturnE) (rule that; assumption)
  from a have g1: "\<exists>evs. trace s1 = trace s @ evs"
    by (auto simp: sys_or_die_returns sys_def dbg_def emit_def)
  from b have g2: "\<exists>evs. trace s2 = trace s1 @ evs"
    by (auto simp: sys_or_die_returns sys_def dbg_def emit_def split: option.splits)
  from c have g3: "\<exists>evs. trace s' = trace s2 @ evs"
    by (auto simp: Let_def sys_def dbg_def emit_def split: if_splits)
  from g1 g2 g3 show ?thesis by auto
qed

lemma remount_returns:
  assumes "fs_build_remount_mnt_dir K C s = Return s'"
  shows "(\<exists>evs. trace s' = trace s @ evs
                   @ [Sys (mnt_tmpfs C), Logger2 ''tmpfs'' (RUN_MNT_DIR (paths C))])
         \<and> tmpfs_mounted s'"
  using fs_build_mnt_dir_remount[of "s\<lparr>tmpfs_mounted := False\<rparr>" K C s']
    fs_build_mnt_dir_flag[of K C "s\<lparr>tmpfs_mounted := False\<rparr>" s'] assms
  by (simp add: fs_build_remount_mnt_dir_def)

lemma chroot_returns:
  assumes "fs_chroot K C rootdir s = Return s'"
  shows "(\<exists>pre post. drop (length (trace s)) (trace s') = pre @ Sys (Chroot rootdir) # post
                      \<and> Sys (mnt_tmpfs C) \<in> set post)
         \<and> tmpfs_mounted s'"
proof -
  from assms obtain s1 s2 s3 where
    p: "(if x_checkcfg_chroot_desktop K (world s) then chroot_prepare K C rootdir s
         else Return s) = Return s1"
    and c: "sys_or_die K (Chroot rootdir) ''chroot''
              (dbg C (''Chrooting into '' @ rootdir @ nl) s1) = Return s2"
    and r: "fs_build_remount_mnt_dir K C s2 = Return s3"
    and u: "(if x_checkcfg_chroot_desktop K (world s3) then update_var_and_users K C s3
             else Return s3) = Return s'"
    unfolding fs_chroot_def by (elim and_then_ReturnE) (rule that; assumption)
  from p obtain a where a: "trace s1 = trace s @ a"
    using grows_chroot_prepare[of K C rootdir s s1] by (auto split: if_splits)
  from c have "\<exists>d. trace s2 = trace s1 @ d @ [Sys (Chroot rootdir)]"
    by (auto simp: sys_or_die_returns sys_def dbg_def emit_def)
  then obtain d where d: "trace s2 = trace s1 @ d @ [Sys (Chroot rootdir)]"
    by blast
  from remount_returns[OF r] obtain evs where
    m: "trace s3 = trace s2 @ evs @ [Sys (mnt_tmpfs C), Logger2 ''tmpfs'' (RUN_MNT_DIR (paths C))]"
    and f: "tmpfs_mounted s3"
    by blast
  have k: "keeps (\<lambda>e. True) tmpfs_mounted s3 s'"
  proof (cases "x_checkcfg_chroot_desktop K (world s3)")
    case True
    have "keeps (\<lambda>e. True) tmpfs_mounted s3 (state_of (update_var_and_users K C s3))"
      by (rule keeps_update_var_and_users) simp
    with True u show ?thesis by simp
  next
    case False
    with u show ?thesis by (simp add: keeps_refl)
  qed
  then obtain z where z: "trace s' = trace s3 @ z" and f': "tmpfs_mounted s'"
    using f by (auto simp: keeps_def adds_iff)
  have "drop (length (trace s)) (trace s')
        = (a @ d) @ Sys (Chroot rootdir)
          # (evs @ [Sys (mnt_tmpfs C), Logger2 ''tmpfs'' (RUN_MNT_DIR (paths C))] @ z)"
    by (simp add: a d m z)
  moreover have "Sys (mnt_tmpfs C)
        \<in> set (evs @ [Sys (mnt_tmpfs C), Logger2 ''tmpfs'' (RUN_MNT_DIR (paths C))] @ z)"
    by simp
  ultimately show ?thesis using f' by blast
qed

lemma overlayfs_returnsE:
  assumes "fs_overlayfs K C u = Return u'"
  obtains old m where "overlay_compose K C old (dbg C m u) = Return u'"
  using assms
  by (auto simp: fs_overlayfs_def errExit_def split: option.splits prod.splits if_splits)

lemma after_marker:
  assumes "list_all (\<lambda>e. \<not> is_chroot e) A" and "list_all (\<lambda>e. e \<noteq> m) B"
    and "A @ B = pre @ Sys (Chroot d) # post"
  shows "m \<notin> set post"
proof -
  from assms(3) obtain us where
    "(A = pre @ us \<and> us @ B = Sys (Chroot d) # post)
     \<or> (A @ us = pre \<and> B = us @ Sys (Chroot d) # post)"
    by (auto simp: append_eq_append_conv2)
  then show ?thesis
  proof
    assume c: "A = pre @ us \<and> us @ B = Sys (Chroot d) # post"
    show ?thesis
    proof (cases us)
      case Nil
      with c assms(2) show ?thesis by (auto simp: list_all_iff)
    next
      case (Cons x xs)
      with c have "Sys (Chroot d) \<in> set A" by auto
      with assms(1) show ?thesis by (auto simp: list_all_iff)
    qed
  next
    assume "A @ us = pre \<and> B = us @ Sys (Chroot d) # post"
    with assms(2) show ?thesis by (auto simp: list_all_iff)
  qed
qed

lemma overlay_after_chroot:
  assumes "overlay_compose K C oldkernel s0 = Return s'"
    and "adds (\<lambda>e. \<not> is_chroot e) s s0"
  shows "(\<exists>pre post. drop (length (trace s)) (trace s')
                        = pre @ Sys (Chroot (overlay_oroot C)) # post)
         \<and> (\<forall>pre d post. drop (length (trace s)) (trace s') = pre @ Sys (Chroot d) # post
               \<longrightarrow> Sys (mnt_tmpfs C) \<notin> set post)"
proof -
  from assms(1) obtain s1 s2 where a1: "overlay_prepare K C s0 = Return s1"
    and a2: "overlay_mount K C oldkernel s1 = Return s2"
    and a3: "overlay_enter K C s2 = Return s'"
    unfolding overlay_compose_def by (elim and_then_ReturnE) (rule that; assumption)
  have "adds (\<lambda>e. \<not> is_chroot e) s0 (state_of (overlay_prepare K C s0))"
    by (rule adds_overlay_prepare) (use chroot_is_landmark in \<open>auto simp: mnt_tmpfs_def\<close>)
  from adds_trans[OF assms(2) this] obtain A where
    A: "trace s1 = trace s @ A" "list_all (\<lambda>e. \<not> is_chroot e) A"
    by (auto simp: a1 adds_iff)
  have "keeps (\<lambda>e. e \<noteq> Sys (mnt_tmpfs C)) tmpfs_mounted s1
          (state_of (and_then (overlay_mount K C oldkernel s1) (overlay_enter K C)))"
    by (rule keeps_overlay_after)
       (auto simp: mnt_tmpfs_def modern_overlay_mount_def home_overlay_mount_def
          legacy_overlay_mount_def)
  then obtain B where B: "trace s' = trace s1 @ B" "list_all (\<lambda>e. e \<noteq> Sys (mnt_tmpfs C)) B"
    by (auto simp: a2 a3 keeps_def adds_iff)
  from a3 obtain s3 s4 where
    b1: "overlay_binds K C
           (emit (Stdout (''OverlayFS configured in '' @ overlay_basedir C
                          @ '' directory'' @ nl)) s2) = Return s3"
    and b2: "sys_or_die K (Chroot (overlay_oroot C)) ''chroot'' s3 = Return s4"
    and b3: "update_var_and_users K C s4 = Return s'"
    unfolding overlay_enter_def by (elim and_then_ReturnE) (rule that; assumption)
  have k1: "keeps (\<lambda>e. True) tmpfs_mounted s1 (state_of (overlay_mount K C oldkernel s1))"
    by (rule keeps_overlay_mount) (simp_all add: frame_tmpfs_mounted)
  from grows[OF k1 a2] obtain y2 where y2: "trace s2 = trace s1 @ y2"
    by blast
  have "\<exists>evs. trace s3 = trace s2 @ evs"
    using grows[OF keeps_overlay_binds[OF frame_unit] b1] by (auto simp: emit_def)
  then obtain y3 where y3: "trace s3 = trace s2 @ y3"
    by blast
  from b2 have y4: "trace s4 = trace s3 @ [Sys (Chroot (overlay_oroot C))]"
    by (auto simp: sys_or_die_returns sys_def)
  have k5: "keeps (\<lambda>e. True) tmpfs_mounted s4 (state_of (update_var_and_users K C s4))"
    by (rule keeps_update_var_and_users) simp
  from grows[OF k5 b3] obtain z where z: "trace s' = trace s4 @ z"
    by blast
  have ex: "drop (length (trace s)) (trace s')
              = (A @ y2 @ y3) @ Sys (Chroot (overlay_oroot C)) # z"
    by (simp add: A y2 y3 y4 z)
  have all: "Sys (mnt_tmpfs C) \<notin> set post"
    if "drop (length (trace s)) (trace s') = pre @ Sys (Chroot d) # post" for pre d post
  proof -
    have "A @ B = pre @ Sys (Chroot d) # post"
      using that by (simp add: A B)
    from after_marker[OF A(2) B(2) this] show ?thesis .
  qed
  show ?thesis
    using ex all by blast
qed

lemma overlay_mounted_no_mount:
  assumes "overlay_compose K C oldkernel s0 = Return s'" and "tmpfs_mounted s0"
  shows "Sys (mnt_tmpfs C) \<notin> set (drop (length (trace s0)) (trace s'))"
proof -
  have "keeps (\<lambda>e. e \<noteq> Sys (mnt_tmpfs C)) tmpfs_mounted s0
          (state_of (overlay_compose K C oldkernel s0))"
    by (rule keeps_overlay_compose_mounted[OF assms(2)])
       (auto simp: mnt_tmpfs_def modern_overlay_mount_def home_overlay_mount_def
          legacy_overlay_mount_def)
  then show ?thesis
    by (auto simp: assms(1) keeps_def adds_iff list_all_iff)
qed

lemma overlayfs_returns:
  assumes "fs_overlayfs K C u = Return u'"
  shows "(\<exists>pre post. drop (length (trace u)) (trace u')
                        = pre @ Sys (Chroot (overlay_oroot C)) # post)
         \<and> (\<forall>pre d post. drop (length (trace u)) (trace u') = pre @ Sys (Chroot d) # post
               \<longrightarrow> Sys (mnt_tmpfs C) \<notin> set post)
         \<and> (tmpfs_mounted u
               \<longrightarrow> Sys (mnt_tmpfs C) \<notin> set (drop (length (trace u)) (trace u')))
         \<and> tmpfs_mounted u'"
proof -
  from assms obtain old m where c: "overlay_compose K C old (dbg C m u) = Return u'"
    by (rule overlayfs_returnsE)
  have d: "adds (\<lambda>e. \<not> is_chroot e) u (dbg C m u)"
    by (simp add: dbg_def emit_def adds_iff)
  have f: "tmpfs_mounted (dbg C m u) = tmpfs_mounted u"
    by (simp add: dbg_def emit_def)
  have none: "Sys (mnt_tmpfs C) \<notin> set (drop (length (trace u)) (trace u'))" if "tmpfs_mounted u"
  proof -
    have a: "Sys (mnt_tmpfs C) \<notin> set (drop (length (trace (dbg C m u))) (trace u'))"
      using overlay_mounted_no_mount[OF c] that f by simp
    have "adds (\<lambda>e. True) (dbg C m u) (state_of (overlay_compose K C old (dbg C m u)))"
      by (rule adds_overlay_compose) simp_all
    then obtain x where x: "trace u' = trace (dbg C m u) @ x"
      by (auto simp: c adds_iff)
    show ?thesis
      using a x by (auto simp: dbg_def emit_def mnt_tmpfs_def split: if_splits)
  qed
  show ?thesis
    using overlay_after_chroot[OF c d] none overlay_compose_returns[OF c] by blast
qed

text \<open>
  C5.  \<^verbatim>\<open>fs_build_remount_mnt_dir\<close> clears the flag and calls the staging bootstrap, so when it
  returns a new tmpfs has just been mounted on the working-mount area and the flag is set
  again.  \<^verbatim>\<open>fs_chroot\<close> calls it right after its \<^verbatim>\<open>chroot\<close>: in a run that returns, a mount
  of the staging tmpfs follows the \<^verbatim>\<open>chroot\<close> in the trace, whatever the flag was on entry.
  \<^verbatim>\<open>fs_overlayfs\<close> does not invalidate the flag: a run that returns has changed root to the
  overlay root, no mount of the staging tmpfs follows a \<^verbatim>\<open>chroot\<close> in its trace, with the flag
  set on entry it mounts no staging tmpfs at all, the flag is set when it returns, and the
  next call of \<^verbatim>\<open>fs_build_mnt_dir\<close> mounts nothing and logs nothing.
\<close>

theorem chroot_remounts_overlay_does_not:
  "(fs_build_remount_mnt_dir K C s = Return s' \<longrightarrow>
      (\<exists>evs. trace s' = trace s @ evs
                @ [Sys (mnt_tmpfs C), Logger2 ''tmpfs'' (RUN_MNT_DIR (paths C))])
      \<and> tmpfs_mounted s')
   \<and> (fs_chroot K C rootdir t = Return t' \<longrightarrow>
      (\<exists>pre post. drop (length (trace t)) (trace t') = pre @ Sys (Chroot rootdir) # post
                   \<and> Sys (mnt_tmpfs C) \<in> set post)
      \<and> tmpfs_mounted t')
   \<and> (fs_overlayfs K C u = Return u' \<longrightarrow>
      (\<exists>pre post. drop (length (trace u)) (trace u')
                     = pre @ Sys (Chroot (overlay_oroot C)) # post)
      \<and> (\<forall>pre d post. drop (length (trace u)) (trace u') = pre @ Sys (Chroot d) # post
            \<longrightarrow> Sys (mnt_tmpfs C) \<notin> set post)
      \<and> (tmpfs_mounted u
            \<longrightarrow> Sys (mnt_tmpfs C) \<notin> set (drop (length (trace u)) (trace u')))
      \<and> tmpfs_mounted u'
      \<and> keeps quiet tmpfs_mounted u' (state_of (fs_build_mnt_dir K C u')))"
proof -
  have a: "fs_build_remount_mnt_dir K C s = Return s' \<longrightarrow>
      (\<exists>evs. trace s' = trace s @ evs
                @ [Sys (mnt_tmpfs C), Logger2 ''tmpfs'' (RUN_MNT_DIR (paths C))])
      \<and> tmpfs_mounted s'"
    using remount_returns[of K C s s'] by blast
  have b: "fs_chroot K C rootdir t = Return t' \<longrightarrow>
      (\<exists>pre post. drop (length (trace t)) (trace t') = pre @ Sys (Chroot rootdir) # post
                   \<and> Sys (mnt_tmpfs C) \<in> set post)
      \<and> tmpfs_mounted t'"
    using chroot_returns[of K C rootdir t t'] by blast
  have c: "(\<exists>pre post. drop (length (trace u)) (trace u')
                     = pre @ Sys (Chroot (overlay_oroot C)) # post)
      \<and> (\<forall>pre d post. drop (length (trace u)) (trace u') = pre @ Sys (Chroot d) # post
            \<longrightarrow> Sys (mnt_tmpfs C) \<notin> set post)
      \<and> (tmpfs_mounted u
            \<longrightarrow> Sys (mnt_tmpfs C) \<notin> set (drop (length (trace u)) (trace u')))
      \<and> tmpfs_mounted u'
      \<and> keeps quiet tmpfs_mounted u' (state_of (fs_build_mnt_dir K C u'))"
    if r: "fs_overlayfs K C u = Return u'"
  proof -
    note o = overlayfs_returns[OF r]
    have "tmpfs_mounted u'" using o by blast
    from fs_build_mnt_dir_again[OF this] o show ?thesis by blast
  qed
  show ?thesis
    using a b c by blast
qed

lemma calm_self: "calm_kernel\<lparr>k_uname := k_uname calm_kernel\<rparr> = calm_kernel"
  by simp

lemma calm_remount:
  "fs_build_remount_mnt_dir calm_kernel demo_config (initial demo_files)
   = Return ((initial demo_files)
       \<lparr>trace := [Sys (mnt_tmpfs demo_config), Logger2 ''tmpfs'' ''/run/firejail/mnt''],
        tmpfs_mounted := True\<rparr>)"
  using calm_mnt[of "(initial demo_files)\<lparr>tmpfs_mounted := False\<rparr>" demo_config
      "k_uname calm_kernel"]
  by (simp add: fs_build_remount_mnt_dir_def calm_self demo_paths)

lemma calm_chroot:
  "fs_chroot calm_kernel demo_config ''/srv/jail'' (initial demo_files)
   = Return ((initial demo_files)\<lparr>trace := chroot_run, tmpfs_mounted := True\<rparr>)"
proof -
  define s2 where "s2 = (initial demo_files)
     \<lparr>trace := [Sys (Mount (Some ''/dev'') ''/srv/jail/dev'' None [MS_BIND, MS_REC] None),
                Sys (Mkdir ''/srv/jail/run'' 493),
                Sys (Chown ''/srv/jail/run'' 0 0),
                Sys (Copy_file ''/etc/resolv.conf'' ''/srv/jail/etc/resolv.conf'' 0 0 420),
                Sys (Chroot ''/srv/jail'')]\<rparr>"
  have w: "world s2 = demo_files"
    by (simp add: s2_def)
  have r: "fs_build_remount_mnt_dir calm_kernel demo_config s2
     = Return (s2\<lparr>trace := trace s2 @ [Sys (mnt_tmpfs demo_config),
                                         Logger2 ''tmpfs'' ''/run/firejail/mnt''],
                  tmpfs_mounted := True\<rparr>)"
    using calm_mnt[of "s2\<lparr>tmpfs_mounted := False\<rparr>" demo_config "k_uname calm_kernel"] w
    by (simp add: fs_build_remount_mnt_dir_def calm_self demo_paths)
  have p: "and_then (if x_checkcfg_chroot_desktop calm_kernel (world (initial demo_files))
                     then chroot_prepare calm_kernel demo_config ''/srv/jail'' (initial demo_files)
                     else Return (initial demo_files))
             (\<lambda>s. sys_or_die calm_kernel (Chroot ''/srv/jail'') ''chroot''
                    (dbg demo_config (''Chrooting into '' @ ''/srv/jail'' @ nl) s))
           = Return s2"
    by (simp add: chroot_prepare_def calm_kernel_def demo_kernel_def demo_config_def step_defs
        Let_def s2_def initial_def demo_files_def)
  have split: "fs_chroot calm_kernel demo_config ''/srv/jail'' (initial demo_files)
     = and_then (and_then (if x_checkcfg_chroot_desktop calm_kernel (world (initial demo_files))
                     then chroot_prepare calm_kernel demo_config ''/srv/jail'' (initial demo_files)
                     else Return (initial demo_files))
             (\<lambda>s. sys_or_die calm_kernel (Chroot ''/srv/jail'') ''chroot''
                    (dbg demo_config (''Chrooting into '' @ ''/srv/jail'' @ nl) s)))
          (\<lambda>s. and_then (fs_build_remount_mnt_dir calm_kernel demo_config s) (\<lambda>s.
             if x_checkcfg_chroot_desktop calm_kernel (world s)
             then update_var_and_users calm_kernel demo_config s else Return s))"
    unfolding fs_chroot_def
    by (cases "if x_checkcfg_chroot_desktop calm_kernel (world (initial demo_files))
               then chroot_prepare calm_kernel demo_config ''/srv/jail'' (initial demo_files)
               else Return (initial demo_files)") simp_all
  show ?thesis
    unfolding split p
    by (simp add: r)
       (simp add: s2_def update_var_and_users_def calm_kernel_def demo_kernel_def demo_config_def
          step_defs initial_def chroot_run_def mnt_tmpfs_def demo_macros_def)
qed

lemma calm_mnt_again:
  "fs_build_mnt_dir calm_kernel demo_config
     ((initial demo_files)\<lparr>trace := modern_run, tmpfs_mounted := True\<rparr>)
   = Return ((initial demo_files)\<lparr>trace := modern_run, tmpfs_mounted := True\<rparr>)"
  using calm_mnt[of "(initial demo_files)\<lparr>trace := modern_run, tmpfs_mounted := True\<rparr>"
      demo_config "k_uname calm_kernel"]
  by (simp add: calm_self demo_paths)

lemma calm_overlay_mounted:
  "fs_overlayfs calm_kernel demo_config ((initial demo_files)\<lparr>tmpfs_mounted := True\<rparr>)
   = Return ((initial demo_files)\<lparr>trace := drop 2 modern_run, tmpfs_mounted := True\<rparr>)"
proof -
  have m: "fs_build_mnt_dir calm_kernel demo_config ((initial demo_files)\<lparr>tmpfs_mounted := True\<rparr>)
             = Return ((initial demo_files)\<lparr>tmpfs_mounted := True\<rparr>)"
    using calm_mnt[of "(initial demo_files)\<lparr>tmpfs_mounted := True\<rparr>" demo_config
        "k_uname calm_kernel"]
    by (simp add: calm_self demo_paths)
  have u: "k_uname calm_kernel (world ((initial demo_files)\<lparr>tmpfs_mounted := True\<rparr>))
             = Some (''3.18.0'', ''#1 SMP'')"
    by (simp add: calm_kernel_def demo_kernel_def)
  have c: "overlay_compose calm_kernel demo_config False ((initial demo_files)\<lparr>tmpfs_mounted := True\<rparr>)
             = Return ((initial demo_files)\<lparr>trace := drop 2 modern_run, tmpfs_mounted := True\<rparr>)"
    unfolding overlay_compose_def overlay_prepare_def m
    by (simp add: overlay_defs calm_kernel_def demo_kernel_def demo_config_def demo_macros_def
        demo_files_def step_defs initial_def modern_run_def overlay_prepared_def
        overlay_entered_def)
  show ?thesis
    using c by (simp add: overlayfs_by_release[OF u scan_releases(1)] demo_quiet)
qed

theorem chroot_remounts_overlay_does_not_witness:
  "fs_build_remount_mnt_dir calm_kernel demo_config (initial demo_files)
     = Return ((initial demo_files)
         \<lparr>trace := [Sys (mnt_tmpfs demo_config), Logger2 ''tmpfs'' ''/run/firejail/mnt''],
          tmpfs_mounted := True\<rparr>)
   \<and> fs_chroot calm_kernel demo_config ''/srv/jail'' (initial demo_files)
       = Return ((initial demo_files)\<lparr>trace := chroot_run, tmpfs_mounted := True\<rparr>)
   \<and> (\<exists>pre post. chroot_run = pre @ Sys (Chroot ''/srv/jail'') # post
                   \<and> Sys (mnt_tmpfs demo_config) \<in> set post)
   \<and> fs_overlayfs calm_kernel demo_config (initial demo_files)
       = Return ((initial demo_files)\<lparr>trace := modern_run, tmpfs_mounted := True\<rparr>)
   \<and> (\<exists>pre post. modern_run = pre @ Sys (Chroot (overlay_oroot demo_config)) # post)
   \<and> keeps quiet tmpfs_mounted ((initial demo_files)\<lparr>trace := modern_run, tmpfs_mounted := True\<rparr>)
       (state_of (fs_build_mnt_dir calm_kernel demo_config
                    ((initial demo_files)\<lparr>trace := modern_run, tmpfs_mounted := True\<rparr>)))
   \<and> fs_overlayfs calm_kernel demo_config ((initial demo_files)\<lparr>tmpfs_mounted := True\<rparr>)
       = Return ((initial demo_files)\<lparr>trace := drop 2 modern_run, tmpfs_mounted := True\<rparr>)
   \<and> Sys (mnt_tmpfs demo_config) \<notin> set (drop 2 modern_run)"
  using chroot_remounts_overlay_does_not[of calm_kernel demo_config _ _ _ _ _
      "(initial demo_files)\<lparr>tmpfs_mounted := True\<rparr>"
      "(initial demo_files)\<lparr>trace := drop 2 modern_run, tmpfs_mounted := True\<rparr>"]
    chroot_remounts_overlay_does_not[of calm_kernel demo_config "initial demo_files"
      "(initial demo_files)
         \<lparr>trace := [Sys (mnt_tmpfs demo_config), Logger2 ''tmpfs'' ''/run/firejail/mnt''],
          tmpfs_mounted := True\<rparr>"
      "''/srv/jail''" "initial demo_files"
      "(initial demo_files)\<lparr>trace := chroot_run, tmpfs_mounted := True\<rparr>"
      "initial demo_files"
      "(initial demo_files)\<lparr>trace := modern_run, tmpfs_mounted := True\<rparr>"]
  by (simp add: calm_remount calm_chroot calm_overlay calm_overlay_mounted)

theorem chroot_remounts_overlay_does_not_counterexample:
  "fs_overlayfs calm_kernel demo_config (initial demo_files)
     = Return ((initial demo_files)\<lparr>trace := modern_run, tmpfs_mounted := True\<rparr>)
   \<and> Sys (Chroot ''/run/firejail/mnt/oroot'') \<in> set modern_run
   \<and> tmpfs_mounted ((initial demo_files)\<lparr>trace := modern_run, tmpfs_mounted := True\<rparr>)
   \<and> fs_build_mnt_dir calm_kernel demo_config
        ((initial demo_files)\<lparr>trace := modern_run, tmpfs_mounted := True\<rparr>)
       = Return ((initial demo_files)\<lparr>trace := modern_run, tmpfs_mounted := True\<rparr>)"
  by (simp add: calm_overlay calm_mnt_again) (simp add: modern_run_def overlay_entered_def)

end
